(* ===== verification/TinyRTC_Prelude.thy ===== *)
theory TinyRTC_Prelude
  imports Main "HOL-Library.Word" "HOL-Library.Monad_Syntax"
begin

text \<open>
  Prelude of the TinyRTC development: the machine integer types, the error codes of
  \<^verbatim>\<open>include/tinyrtc/tinyrtc.h\<close>, checked reads of byte buffers, network byte order and
  the fact collections the component theories share.

  A buffer the C code receives as pointer and length is a byte list; its length is the
  number of bytes that really are in the object.  A result of type \<open>'a option\<close> that is
  described as \<^emph>\<open>undefined\<close> uses \<open>None\<close> for undefined behaviour of the C code: a read or
  write outside the object, a read of an uninitialised variable, a conversion that C leaves
  undefined.  A proof that such a result is \<open>Some _\<close> for every input is a proof of memory
  safety.  Sizes (\<^verbatim>\<open>size_t\<close>) are natural numbers; where the code lets one wrap modulo
  \<open>2 ^ 64\<close>, the wrap is written out.
\<close>

unbundle bit_operations_syntax

section \<open>Machine integers and buffers\<close>

type_synonym u8 = "8 word"
type_synonym u16 = "16 word"
type_synonym u32 = "32 word"
type_synonym u64 = "64 word"
type_synonym bytes = "u8 list"

named_theorems wire_simps \<open>byte order: reading back what was written\<close>
named_theorems mem_safe \<open>reads that stay inside their buffer\<close>
named_theorems size_simps \<open>lengths of what a component writes\<close>

lemma unat_ucast_widen:
  "LENGTH('a) \<le> LENGTH('b) \<Longrightarrow> unat (ucast (w :: 'a::len word) :: 'b::len word) = unat w"
  by (simp add: unsigned_ucast_eq take_bit_nat_eq_self order.strict_trans2 [OF unsigned_less])

lemma unat_ucast_up [simp]:
  "unat (ucast (b :: u8) :: u16) = unat b" "unat (ucast b :: u32) = unat b"
  "unat (ucast (h :: u16) :: u32) = unat h" "unat (ucast h :: u64) = unat h"
  "unat (ucast (w :: u32) :: u64) = unat w"
  by (simp_all add: unat_ucast_widen)

lemma unat_less: "unat (w :: 'a::len word) < 2 ^ LENGTH('a)"
  by (rule unsigned_less)

lemma uint_less_power: "unat w < 2 ^ n \<Longrightarrow> uint w < 2 ^ n"
  by (metis of_nat_less_iff of_nat_numeral of_nat_power uint_nat)

text \<open>Two bytes are equal when their eight bits are; concrete masks compute bit by bit.\<close>

lemma byte_bits_cases:
  fixes n :: nat
  assumes "n < 8"
  obtains "n = 0" | "n = 1" | "n = 2" | "n = 3" | "n = 4" | "n = 5" | "n = 6" | "n = 7"
  using assms by linarith

lemma byte_eqI:
  fixes v w :: u8
  assumes "bit v 0 = bit w 0" "bit v 1 = bit w 1" "bit v 2 = bit w 2" "bit v 3 = bit w 3"
    "bit v 4 = bit w 4" "bit v 5 = bit w 5" "bit v 6 = bit w 6" "bit v 7 = bit w 7"
  shows "v = w"
proof (rule bit_word_eqI)
  fix n assume "n < LENGTH(8)"
  then have "n < 8" by simp
  then show "bit v n = bit w n" by (rule byte_bits_cases) (use assms in simp_all)
qed

lemma xor_right_cancel: "a XOR m = b XOR m \<longleftrightarrow> a = (b :: 'a::len word)"
proof
  assume "a XOR m = b XOR m"
  then have "(a XOR m) XOR m = (b XOR m) XOR m" by simp
  then show "a = b" by (simp add: xor.assoc)
qed simp

lemma xor_left_cancel: "m XOR a = m XOR b \<longleftrightarrow> a = (b :: 'a::len word)"
  using xor_right_cancel [of a m b] by (simp add: xor.commute)

section \<open>Error codes\<close>

text \<open>\<^verbatim>\<open>tinyrtc_error_t\<close>, in the order of the header.\<close>

datatype tinyrtc_error =
    TINYRTC_OK
  | TINYRTC_ERROR
  | TINYRTC_ERROR_INVALID_ARG
  | TINYRTC_ERROR_MEMORY
  | TINYRTC_ERROR_NETWORK
  | TINYRTC_ERROR_NOT_FOUND
  | TINYRTC_ERROR_IN_PROGRESS
  | TINYRTC_ERROR_TIMEOUT
  | TINYRTC_ERROR_INVALID_STATE
  | TINYRTC_ERROR_DTLS_FAILED
  | TINYRTC_ERROR_ICE_FAILED
  | TINYRTC_ERROR_SIGNALING

fun error_code :: "tinyrtc_error \<Rightarrow> int" where
  "error_code TINYRTC_OK = 0"
| "error_code TINYRTC_ERROR = -1"
| "error_code TINYRTC_ERROR_INVALID_ARG = -2"
| "error_code TINYRTC_ERROR_MEMORY = -3"
| "error_code TINYRTC_ERROR_NETWORK = -4"
| "error_code TINYRTC_ERROR_NOT_FOUND = -5"
| "error_code TINYRTC_ERROR_IN_PROGRESS = -6"
| "error_code TINYRTC_ERROR_TIMEOUT = -7"
| "error_code TINYRTC_ERROR_INVALID_STATE = -8"
| "error_code TINYRTC_ERROR_DTLS_FAILED = -9"
| "error_code TINYRTC_ERROR_ICE_FAILED = -10"
| "error_code TINYRTC_ERROR_SIGNALING = -11"

section \<open>Checked reads\<close>

definition rd8 :: "bytes \<Rightarrow> nat \<Rightarrow> u8 option" where
  "rd8 p i = (if i < length p then Some (p ! i) else None)"

definition rd16 :: "bytes \<Rightarrow> nat \<Rightarrow> u16 option" where
  "rd16 p i = do {
     a \<leftarrow> rd8 p i;
     b \<leftarrow> rd8 p (i + 1);
     Some (push_bit 8 (ucast a) OR ucast b)
   }"

definition rd24 :: "bytes \<Rightarrow> nat \<Rightarrow> u32 option" where
  "rd24 p i = do {
     a \<leftarrow> rd8 p i;
     b \<leftarrow> rd8 p (i + 1);
     c \<leftarrow> rd8 p (i + 2);
     Some (push_bit 16 (ucast a) OR push_bit 8 (ucast b) OR ucast c)
   }"

definition rd32 :: "bytes \<Rightarrow> nat \<Rightarrow> u32 option" where
  "rd32 p i = do {
     a \<leftarrow> rd8 p i;
     b \<leftarrow> rd8 p (i + 1);
     c \<leftarrow> rd8 p (i + 2);
     d \<leftarrow> rd8 p (i + 3);
     Some (push_bit 24 (ucast a) OR push_bit 16 (ucast b) OR push_bit 8 (ucast c) OR ucast d)
   }"

text \<open>The bytes \<open>p[i .. i+n)\<close>, as \<^verbatim>\<open>memcpy\<close> and \<^verbatim>\<open>memcmp\<close> read them.\<close>

definition rd_bytes :: "bytes \<Rightarrow> nat \<Rightarrow> nat \<Rightarrow> bytes option" where
  "rd_bytes p i n = (if i + n \<le> length p then Some (take n (drop i p)) else None)"

section \<open>Network byte order writes\<close>

definition wr16 :: "u16 \<Rightarrow> bytes" where
  "wr16 v = [ucast (drop_bit 8 v AND 0xFF), ucast (v AND 0xFF)]"

definition wr24 :: "u32 \<Rightarrow> bytes" where
  "wr24 v = [ucast (drop_bit 16 v AND 0xFF), ucast (drop_bit 8 v AND 0xFF), ucast (v AND 0xFF)]"

definition wr32 :: "u32 \<Rightarrow> bytes" where
  "wr32 v = [ucast (drop_bit 24 v AND 0xFF), ucast (drop_bit 16 v AND 0xFF),
             ucast (drop_bit 8 v AND 0xFF), ucast (v AND 0xFF)]"

definition wr64 :: "u64 \<Rightarrow> bytes" where
  "wr64 v = [ucast (drop_bit 56 v AND 0xFF), ucast (drop_bit 48 v AND 0xFF),
             ucast (drop_bit 40 v AND 0xFF), ucast (drop_bit 32 v AND 0xFF),
             ucast (drop_bit 24 v AND 0xFF), ucast (drop_bit 16 v AND 0xFF),
             ucast (drop_bit 8 v AND 0xFF), ucast (v AND 0xFF)]"

lemma length_wr [simp, size_simps]:
  "length (wr16 v) = 2" "length (wr24 w) = 3" "length (wr32 w) = 4" "length (wr64 x) = 8"
  by (simp_all add: wr16_def wr24_def wr32_def wr64_def)

subsection \<open>Reads that stay inside the buffer succeed\<close>

lemma rd8_Some [mem_safe]: "i < length p \<Longrightarrow> rd8 p i = Some (p ! i)"
  by (simp add: rd8_def)

lemma rd8_None [simp]: "length p \<le> i \<Longrightarrow> rd8 p i = None"
  by (simp add: rd8_def)

lemma rd16_Some [mem_safe]:
  "i + 1 < length p \<Longrightarrow> rd16 p i = Some (push_bit 8 (ucast (p ! i)) OR ucast (p ! (i + 1)))"
  by (simp add: rd16_def rd8_def)

lemma rd24_Some [mem_safe]:
  "i + 2 < length p \<Longrightarrow> rd24 p i = Some (push_bit 16 (ucast (p ! i))
     OR push_bit 8 (ucast (p ! (i + 1))) OR ucast (p ! (i + 2)))"
  by (simp add: rd24_def rd8_def)

lemma rd32_Some [mem_safe]:
  "i + 3 < length p \<Longrightarrow> rd32 p i = Some (push_bit 24 (ucast (p ! i))
     OR push_bit 16 (ucast (p ! (i + 1))) OR push_bit 8 (ucast (p ! (i + 2)))
     OR ucast (p ! (i + 3)))"
  by (simp add: rd32_def rd8_def)

lemma rd_bytes_Some [mem_safe]:
  "i + n \<le> length p \<Longrightarrow> rd_bytes p i n = Some (take n (drop i p))"
  by (simp add: rd_bytes_def)

subsection \<open>Reading inside a concatenation\<close>

text \<open>
  A message is written as a concatenation of fields.  These rules move a read at a fixed
  offset through the fields in front of it; together with the round trips below they read a
  field back from the middle of a message.
\<close>

lemma rd8_append: "rd8 (xs @ ys) i = (if i < length xs then rd8 xs i else rd8 ys (i - length xs))"
  by (auto simp: rd8_def nth_append)

lemma rd8_append_plus [simp]: "rd8 (xs @ ys) (length xs + k) = rd8 ys k"
  by (simp add: rd8_append)

lemma rd8_Cons: "rd8 (x # xs) i = (if i = 0 then Some x else rd8 xs (i - 1))"
  by (cases i) (simp_all add: rd8_def)

lemma rd8_append_right [wire_simps]:
  "length xs \<le> i \<Longrightarrow> rd8 (xs @ ys) i = rd8 ys (i - length xs)"
  by (simp add: rd8_append)

lemma rd16_append_right [wire_simps]:
  "length xs \<le> i \<Longrightarrow> rd16 (xs @ ys) i = rd16 ys (i - length xs)"
  by (auto simp: rd16_def rd8_append dest!: le_Suc_ex)

lemma rd24_append_right [wire_simps]:
  "length xs \<le> i \<Longrightarrow> rd24 (xs @ ys) i = rd24 ys (i - length xs)"
  by (auto simp: rd24_def rd8_append dest!: le_Suc_ex)

lemma rd32_append_right [wire_simps]:
  "length xs \<le> i \<Longrightarrow> rd32 (xs @ ys) i = rd32 ys (i - length xs)"
  by (auto simp: rd32_def rd8_append dest!: le_Suc_ex)

lemma rd_Cons_right [wire_simps]:
  "0 < i \<Longrightarrow> rd8 (x # xs) i = rd8 xs (i - 1)"
  "0 < i \<Longrightarrow> rd16 (x # xs) i = rd16 xs (i - 1)"
  "0 < i \<Longrightarrow> rd24 (x # xs) i = rd24 xs (i - 1)"
  "0 < i \<Longrightarrow> rd32 (x # xs) i = rd32 xs (i - 1)"
  by (simp_all add: rd16_def rd24_def rd32_def rd8_Cons)

lemma rd8_Cons_0 [wire_simps]: "rd8 (x # xs) 0 = Some x"
  by (simp add: rd8_def)

lemma rd_bytes_append_right [wire_simps]:
  "length xs \<le> i \<Longrightarrow> rd_bytes (xs @ ys) i n = rd_bytes ys (i - length xs) n"
  by (auto simp: rd_bytes_def)

subsection \<open>Round trips\<close>

text \<open>Every bit position below \<open>8 * k\<close> lies in one of \<open>k\<close> bytes.\<close>

lemma bit_position:
  obtains k m :: nat where "n = 8 * k + m" and "m < 8"
  by (metis mod_less_divisor mult_div_mod_eq zero_less_numeral)

lemma byte_index_less:
  fixes k :: nat
  shows "8 * k + m < 16 \<Longrightarrow> m < 8 \<Longrightarrow> k = 0 \<or> k = 1"
    and "8 * k + m < 24 \<Longrightarrow> m < 8 \<Longrightarrow> k = 0 \<or> k = 1 \<or> k = 2"
    and "8 * k + m < 32 \<Longrightarrow> m < 8 \<Longrightarrow> k = 0 \<or> k = 1 \<or> k = 2 \<or> k = 3"
  by arith+

lemma no_bit_above_byte [simp]: "8 \<le> n \<Longrightarrow> \<not> bit (w :: u8) n"
  using bit_imp_le_length [of w n] by auto

lemma byte_of_word [simp]: "(ucast (v AND 0xFF) :: u8) = ucast (v :: 'a::len word)"
proof (rule bit_word_eqI)
  fix n assume n: "n < LENGTH(8)"
  have m: "(0xFF :: 'a word) = mask 8"
    by (simp add: mask_eq_exp_minus_1)
  have "bit (0xFF :: 'a word) n \<longleftrightarrow> n < LENGTH('a)"
    using n unfolding m by (auto simp: bit_simps)
  with n show "bit (ucast (v AND 0xFF) :: u8) n = bit (ucast v :: u8) n"
    by (auto simp: bit_simps dest: bit_imp_le_length)
qed

lemma join16: "push_bit 8 (ucast (ucast (drop_bit 8 v) :: u8)) OR ucast (ucast v :: u8) = (v :: u16)"
  (is "?l = _")
proof (rule bit_word_eqI)
  fix n assume n: "n < LENGTH(16)"
  obtain k m where nk: "n = 8 * k + m" "m < 8" by (rule bit_position)
  with n byte_index_less(1) [of k m]
  show "bit ?l n = bit v n"
    by (auto simp: bit_simps)
qed

lemma join24:
  "push_bit 16 (ucast (ucast (drop_bit 16 v) :: u8))
     OR push_bit 8 (ucast (ucast (drop_bit 8 v) :: u8)) OR ucast (ucast v :: u8)
   = take_bit 24 (v :: u32)"
  (is "?l = _")
proof (rule bit_word_eqI)
  fix n assume n: "n < LENGTH(32)"
  obtain k m where nk: "n = 8 * k + m" "m < 8" by (rule bit_position)
  with n byte_index_less(3) [of k m] show "bit ?l n = bit (take_bit 24 v) n"
    by (auto simp: bit_simps)
qed

lemma join32:
  "push_bit 24 (ucast (ucast (drop_bit 24 v) :: u8)) OR push_bit 16 (ucast (ucast (drop_bit 16 v) :: u8))
     OR push_bit 8 (ucast (ucast (drop_bit 8 v) :: u8)) OR ucast (ucast v :: u8) = (v :: u32)"
  (is "?l = _")
proof (rule bit_word_eqI)
  fix n assume n: "n < LENGTH(32)"
  obtain k m where nk: "n = 8 * k + m" "m < 8" by (rule bit_position)
  with n byte_index_less(3) [of k m] show "bit ?l n = bit v n"
    by (auto simp: bit_simps)
qed

lemma rd16_wr16 [wire_simps]: "rd16 (wr16 v @ ys) 0 = Some v"
  by (simp add: rd16_def wr16_def rd8_def join16)

lemma rd24_wr24 [wire_simps]: "rd24 (wr24 v @ ys) 0 = Some (take_bit 24 v)"
  by (simp add: rd24_def wr24_def rd8_def join24)

lemma rd32_wr32 [wire_simps]: "rd32 (wr32 v @ ys) 0 = Some v"
  by (simp add: rd32_def wr32_def rd8_def join32)

lemma split16:
  fixes a b :: u8
  defines "v \<equiv> push_bit 8 (ucast a) OR (ucast b :: u16)"
  shows "ucast (drop_bit 8 v) = a" and "ucast v = b"
  unfolding v_def by (rule bit_word_eqI, auto simp: bit_simps)+

lemma split32:
  fixes a b c d :: u8
  defines "v \<equiv> push_bit 24 (ucast a) OR push_bit 16 (ucast b) OR push_bit 8 (ucast c) OR (ucast d :: u32)"
  shows "ucast (drop_bit 24 v) = a" and "ucast (drop_bit 16 v) = b"
    and "ucast (drop_bit 8 v) = c" and "ucast v = d"
  unfolding v_def by (rule bit_word_eqI, auto simp: bit_simps)+

lemma wr16_rd16: "rd16 p i = Some v \<Longrightarrow> take 2 (drop i p) = wr16 v"
proof -
  assume r: "rd16 p i = Some v"
  then have len: "i + 1 < length p"
    by (auto simp: rd16_def rd8_def split: if_splits bind_splits)
  with r have "v = push_bit 8 (ucast (p ! i)) OR ucast (p ! (i + 1))"
    by (simp add: rd16_Some)
  then have "wr16 v = [p ! i, p ! (i + 1)]"
    by (simp only: wr16_def byte_of_word split16)
  moreover have "take 2 (drop i p) = [p ! i, p ! (i + 1)]"
    using len by (simp add: numeral_2_eq_2 take_Suc_conv_app_nth)
  ultimately show ?thesis by simp
qed

lemma wr32_rd32: "rd32 p i = Some v \<Longrightarrow> take 4 (drop i p) = wr32 v"
proof -
  assume r: "rd32 p i = Some v"
  then have len: "i + 3 < length p"
    by (auto simp: rd32_def rd8_def split: if_splits bind_splits)
  with r have "v = push_bit 24 (ucast (p ! i)) OR push_bit 16 (ucast (p ! (i + 1)))
      OR push_bit 8 (ucast (p ! (i + 2))) OR ucast (p ! (i + 3))"
    by (simp add: rd32_Some)
  then have "wr32 v = [p ! i, p ! (i + 1), p ! (i + 2), p ! (i + 3)]"
    by (simp only: wr32_def byte_of_word split32)
  moreover have "take 4 (drop i p) = [p ! i, p ! (i + 1), p ! (i + 2), p ! (i + 3)]"
    using len by (simp add: eval_nat_numeral take_Suc_conv_app_nth)
  ultimately show ?thesis by simp
qed

end
