(* ===== verification/Interfaces.thy ===== *)
theory Interfaces
  imports TinyRTC_Prelude
begin

text \<open>
  The interfaces between the components, as locales: a fixed-width field of a wire format, a
  bounded array that is filled by appending, and a machine whose steps may be undefined in
  C.  Each locale is interpreted on the model's own definitions in the theory of the component
  that provides the operations; the two byte orders are interpreted here.
\<close>

section \<open>Fixed-width wire fields\<close>

locale wire_field =
  fixes enc :: "'w \<Rightarrow> bytes"
    and dec :: "bytes \<Rightarrow> nat \<Rightarrow> 'w option"
    and width :: nat
  assumes enc_length: "length (enc v) = width"
    and dec_enc: "dec (enc v @ ys) 0 = Some v"
    and dec_shift: "length xs \<le> i \<Longrightarrow> dec (xs @ ys) i = dec ys (i - length xs)"
    and dec_defined: "dec p i \<noteq> None \<longleftrightarrow> i + width \<le> length p"
    and dec_exact: "dec p i = Some v \<Longrightarrow> take width (drop i p) = enc v"
begin

lemma dec_at: "dec (xs @ enc v @ ys) (length xs) = Some v"
  by (simp add: dec_shift dec_enc)

lemma dec_at_end: "dec (xs @ enc v) (length xs) = Some v"
  using dec_at [of xs v "[]"] by simp

lemma dec_in_bounds: "i + width \<le> length p \<Longrightarrow> \<exists>v. dec p i = Some v"
  using dec_defined by blast

lemma dec_out_of_bounds: "length p < i + width \<Longrightarrow> dec p i = None"
  using dec_defined [of p i] by (cases "dec p i") auto

lemma enc_inject: "enc v = enc w \<longleftrightarrow> v = w"
  by (metis dec_enc option.inject)

lemma length_concat_enc: "length (concat (map enc vs)) = width * length vs"
  by (induction vs) (simp_all add: enc_length)

text \<open>An array of fields: element \<open>k\<close> is read at \<open>k\<close> times the width.\<close>

lemma dec_array:
  "k < length vs \<Longrightarrow> dec (xs @ concat (map enc vs) @ ys) (length xs + k * width) = Some (vs ! k)"
proof (induction vs arbitrary: xs k)
  case Nil
  then show ?case by simp
next
  case (Cons v vs)
  show ?case
  proof (cases k)
    case 0
    then show ?thesis using dec_at [of xs v "concat (map enc vs) @ ys"] by simp
  next
    case (Suc j)
    with Cons.prems have "dec ((xs @ enc v) @ concat (map enc vs) @ ys) (length (xs @ enc v) + j * width)
        = Some (vs ! j)"
      by (intro Cons.IH) simp
    with Suc show ?thesis by (simp add: enc_length algebra_simps)
  qed
qed

end

interpretation be16: wire_field wr16 rd16 2
proof
  show "rd16 p i \<noteq> None \<longleftrightarrow> i + 2 \<le> length p" for p i
    by (auto simp: rd16_def rd8_def split: bind_splits)
qed (simp_all add: wire_simps wr16_rd16)

interpretation be32: wire_field wr32 rd32 4
proof
  show "rd32 p i \<noteq> None \<longleftrightarrow> i + 4 \<le> length p" for p i
    by (auto simp: rd32_def rd8_def split: bind_splits)
qed (simp_all add: wire_simps wr32_rd32)

section \<open>Bounded arrays\<close>

text \<open>
  A C array with a counter: an element is appended while there is room and the array is
  left alone when it is full.  \<open>items\<close> reads the used part.
\<close>

locale bounded_store =
  fixes items :: "'s \<Rightarrow> 'a list"
    and cap :: nat
    and put :: "'a \<Rightarrow> 's \<Rightarrow> 's"
  assumes put_room: "length (items s) < cap \<Longrightarrow> items (put x s) = items s @ [x]"
    and put_full: "cap \<le> length (items s) \<Longrightarrow> items (put x s) = items s"
begin

lemma put_bounded: "length (items s) \<le> cap \<Longrightarrow> length (items (put x s)) \<le> cap"
  by (cases "length (items s) < cap") (simp_all add: put_room put_full)

lemma put_keeps: "i < length (items s) \<Longrightarrow> items (put x s) ! i = items s ! i"
  by (cases "length (items s) < cap") (simp_all add: put_room put_full nth_append)

lemma put_all:
  "length (items s) \<le> cap \<Longrightarrow>
   items (fold put xs s) = items s @ take (cap - length (items s)) xs"
proof (induction xs arbitrary: s)
  case Nil
  then show ?case by simp
next
  case (Cons x xs)
  show ?case
  proof (cases "length (items s) < cap")
    case True
    then have "items (put x s) = items s @ [x]" by (rule put_room)
    with Cons.IH [of "put x s"] True show ?thesis
      by (simp add: take_Cons' Suc_diff_Suc)
  next
    case False
    with Cons.prems have "items (put x s) = items s" and "cap - length (items s) = 0"
      by (simp_all add: put_full)
    with Cons.IH [of "put x s"] Cons.prems show ?thesis by simp
  qed
qed

lemma put_all_bounded: "length (items s) \<le> cap \<Longrightarrow> length (items (fold put xs s)) \<le> cap"
  by (simp add: put_all)

end

section \<open>Machines with undefined steps\<close>

text \<open>
  A component whose operations may be undefined in C (\<open>None\<close>): under the component's
  invariant and for admissible events every step is defined and keeps the invariant, so a
  run of any admissible sequence of operations is defined.
\<close>

fun run_machine :: "('e \<Rightarrow> 's \<Rightarrow> 's option) \<Rightarrow> 'e list \<Rightarrow> 's \<Rightarrow> 's option" where
  "run_machine step [] s = Some s"
| "run_machine step (e # es) s = do { s' \<leftarrow> step e s; run_machine step es s' }"

locale safe_machine =
  fixes step :: "'e \<Rightarrow> 's \<Rightarrow> 's option"
    and inv :: "'s \<Rightarrow> bool"
    and admissible :: "'e \<Rightarrow> bool"
  assumes step_safe: "inv s \<Longrightarrow> admissible e \<Longrightarrow> \<exists>s'. step e s = Some s' \<and> inv s'"
begin

lemma run_safe:
  "inv s \<Longrightarrow> \<forall>e \<in> set es. admissible e \<Longrightarrow> \<exists>s'. run_machine step es s = Some s' \<and> inv s'"
proof (induction es arbitrary: s)
  case Nil
  then show ?case by simp
next
  case (Cons e es)
  then obtain t where "step e s = Some t" "inv t"
    using step_safe [of s e] by auto
  with Cons show ?case by auto
qed

lemma run_inv: "inv s \<Longrightarrow> \<forall>e \<in> set es. admissible e \<Longrightarrow> run_machine step es s = Some t \<Longrightarrow> inv t"
  using run_safe [of s es] by auto

end

end
