(* ===== verification/Rtp.thy ===== *)
theory Rtp
  imports Interfaces
begin

text \<open>
  The RTP header of \<^verbatim>\<open>src/media/rtp.c\<close> (lines 1 to 192): \<open>rtp_parse_header\<close>,
  \<open>rtp_build_header\<close> and \<open>rtp_get_payload\<close>, over the header record of
  \<^verbatim>\<open>src/include/media.h\<close>.  The parser's out-parameter is its result (\<open>None\<close> inside the outer
  \<open>Some\<close> is the C value \<^verbatim>\<open>false\<close>); \<open>hdr_csrc\<close> holds the CSRC entries in use.  Shifts of a byte
  into the sign bit of an \<^verbatim>\<open>int\<close> are read as GNU C defines them (the bit pattern).
\<close>

record rtp_header =
  hdr_version :: u8
  hdr_padding :: bool
  hdr_extension :: bool
  hdr_csrc_count :: u8
  hdr_marker :: bool
  hdr_payload_type :: u8
  hdr_sequence :: u16
  hdr_timestamp :: u32
  hdr_ssrc :: u32
  hdr_num_csrc :: int
  hdr_csrc :: "u32 list"

text \<open>An \<^verbatim>\<open>int\<close> value converted to \<^verbatim>\<open>size_t\<close>.\<close>

definition size_t :: "int \<Rightarrow> nat" where
  "size_t x = nat (x mod 2 ^ 64)"

lemma size_t_id [simp]: "0 \<le> x \<Longrightarrow> x < 2 ^ 64 \<Longrightarrow> size_t x = nat x"
  by (simp add: size_t_def)

lemma size_t_int: "n < 2 ^ 64 \<Longrightarrow> size_t (int n) = n"
proof -
  assume "n < 2 ^ 64"
  then have "int n < 2 ^ 64" by (metis of_nat_less_iff of_nat_numeral of_nat_power)
  then show ?thesis by simp
qed

section \<open>Parsing\<close>

text \<open>The CSRC loop of lines 79 to 87, from index \<open>i\<close>.\<close>

function rtp_read_csrcs :: "bytes \<Rightarrow> nat \<Rightarrow> nat \<Rightarrow> u32 list option option" where
  "rtp_read_csrcs p n i =
     (if i < n \<and> i < 16 then
        (let off = 12 + i * 4 in
         if off + 4 > length p then Some None
         else do {
           v \<leftarrow> rd32 p off;
           r \<leftarrow> rtp_read_csrcs p n (Suc i);
           Some (map_option (Cons v) r)
         })
      else Some (Some []))"
  by pat_completeness auto
termination
  by (relation "measure (\<lambda>(p, n, i). n - i)") auto

declare rtp_read_csrcs.simps [simp del]

text \<open>Lines 94 to 111: the length of the header with its extension must fit the packet.\<close>

definition rtp_check_length :: "bytes \<Rightarrow> rtp_header \<Rightarrow> rtp_header option option" where
  "rtp_check_length p h =
     (let header_len = 12 + 4 * nat (hdr_num_csrc h) in
      if hdr_extension h then
        if header_len + 4 > length p then Some None
        else do {
          ext_len \<leftarrow> rd16 p (header_len + 2);
          Some (if header_len + 4 + 4 * unat ext_len > length p then None else Some h)
        }
      else Some (if header_len > length p then None else Some h))"

definition rtp_parse_header :: "bytes \<Rightarrow> rtp_header option option" where
  "rtp_parse_header p =
     (if length p < 12 then Some None
      else do {
        b0 \<leftarrow> rd8 p 0;
        let version = drop_bit 6 b0 AND 0x03;
        let csrc_count = b0 AND 0x0F;
        if version \<noteq> 2 then Some None
        else do {
          b1 \<leftarrow> rd8 p 1;
          seq \<leftarrow> rd16 p 2;
          ts \<leftarrow> rd32 p 4;
          ssrc \<leftarrow> rd32 p 8;
          r \<leftarrow> rtp_read_csrcs p (unat csrc_count) 0;
          case r of
            None \<Rightarrow> Some None
          | Some csrcs \<Rightarrow>
              rtp_check_length p
                \<lparr>hdr_version = version, hdr_padding = drop_bit 5 b0 AND 0x01 \<noteq> 0,
                 hdr_extension = drop_bit 4 b0 AND 0x01 \<noteq> 0, hdr_csrc_count = csrc_count,
                 hdr_marker = drop_bit 7 b1 AND 0x01 \<noteq> 0, hdr_payload_type = b1 AND 0x7F,
                 hdr_sequence = seq, hdr_timestamp = ts, hdr_ssrc = ssrc,
                 hdr_num_csrc = min (int (unat csrc_count)) 16, hdr_csrc = csrcs\<rparr>
        }
      })"

text \<open>The public function: a \<^verbatim>\<open>NULL\<close> packet is rejected.\<close>

definition tinyrtc_rtp_parse_header :: "bytes option \<Rightarrow> rtp_header option option" where
  "tinyrtc_rtp_parse_header packet =
     (case packet of None \<Rightarrow> Some None | Some p \<Rightarrow> rtp_parse_header p)"

section \<open>Building\<close>

text \<open>
  The result is the C return value and the bytes written at the start of the buffer.  Reading
  a CSRC beyond the array or writing past \<open>max_len\<close> is undefined; the latter can only happen
  for a negative \<open>hdr_num_csrc\<close>, which makes the checked length smaller than the fixed part.
\<close>

definition rtp_fixed_part :: "rtp_header \<Rightarrow> bytes" where
  "rtp_fixed_part h =
     [push_bit 6 (hdr_version h AND 0x03) OR push_bit 5 (of_bool (hdr_padding h))
        OR push_bit 4 (of_bool (hdr_extension h)) OR (hdr_csrc_count h AND 0x0F),
      push_bit 7 (of_bool (hdr_marker h)) OR (hdr_payload_type h AND 0x7F)]
     @ wr16 (hdr_sequence h) @ wr32 (hdr_timestamp h) @ wr32 (hdr_ssrc h)"

definition tinyrtc_rtp_build_header :: "rtp_header option \<Rightarrow> nat \<Rightarrow> (nat \<times> bytes) option" where
  "tinyrtc_rtp_build_header header max_len =
     (case header of
        None \<Rightarrow> Some (0, [])
      | Some h \<Rightarrow>
          (let header_len = size_t (12 + 4 * hdr_num_csrc h) in
           if hdr_extension h then Some (0, [])
           else if header_len > max_len then Some (0, [])
           else if max_len < 12 \<or> length (hdr_csrc h) < nat (hdr_num_csrc h) then None
           else Some (header_len,
                  rtp_fixed_part h @ concat (map wr32 (take (nat (hdr_num_csrc h)) (hdr_csrc h))))))"

section \<open>Payload\<close>

text \<open>The offset of the payload in the packet; \<open>None\<close> inside is the C value \<^verbatim>\<open>NULL\<close>.\<close>

definition rtp_get_payload :: "bytes \<Rightarrow> rtp_header \<Rightarrow> nat option option" where
  "rtp_get_payload p h =
     (let header_len = size_t (12 + 4 * hdr_num_csrc h) in do {
        header_len \<leftarrow>
          (if hdr_extension h \<and> size_t (int header_len + 4) \<le> length p then do {
             ext_len \<leftarrow> rd16 p (header_len + 2);
             Some (header_len + 4 + 4 * unat ext_len)
           } else Some header_len);
        Some (if header_len > length p then None else Some header_len)
      })"

section \<open>Memory safety\<close>

lemma rtp_read_csrcs_safe [mem_safe]: "\<exists>r. rtp_read_csrcs p n i = Some r"
proof (induction p n i rule: rtp_read_csrcs.induct)
  case (1 p n i)
  show ?case
  proof (cases "i < n \<and> i < 16 \<and> 12 + i * 4 + 4 \<le> length p")
    case True
    then obtain v where v: "rd32 p (12 + i * 4) = Some v"
      using be32.dec_in_bounds [of "12 + i * 4" p] by auto
    with True obtain r where "rtp_read_csrcs p n (Suc i) = Some r"
      using "1" [OF _ refl _ v] by auto
    with True v show ?thesis by (subst rtp_read_csrcs.simps) (simp add: Let_def)
  next
    case False
    then show ?thesis by (subst rtp_read_csrcs.simps) (auto simp: Let_def)
  qed
qed

lemma rtp_check_length_safe [mem_safe]: "\<exists>r. rtp_check_length p h = Some r"
  using be16.dec_in_bounds [of "12 + 4 * nat (hdr_num_csrc h) + 2" p]
  by (auto simp: rtp_check_length_def Let_def)

lemma rtp_parse_header_safe: "\<exists>r. rtp_parse_header p = Some r"
proof (cases "length p < 12")
  case True
  then show ?thesis by (simp add: rtp_parse_header_def)
next
  case False
  then have b: "rd8 p 0 = Some (p ! 0)" "rd8 p 1 = Some (p ! 1)"
    by (intro rd8_Some, arith)+
  from False have r: "\<exists>v. rd16 p 2 = Some v" "\<exists>v. rd32 p 4 = Some v" "\<exists>v. rd32 p 8 = Some v"
    by (simp_all add: be16.dec_in_bounds be32.dec_in_bounds)
  obtain cs where "rtp_read_csrcs p (unat (p ! 0 AND 0x0F)) 0 = Some cs"
    using rtp_read_csrcs_safe by blast
  with False b r rtp_check_length_safe [of p] show ?thesis
    by (auto simp: rtp_parse_header_def Let_def split: option.splits)
qed

section \<open>What a parsed header satisfies\<close>

text \<open>
  The header's extension and CSRC list lie inside the packet, so the payload starts inside
  it: this is what lets every caller compute \<^verbatim>\<open>len - (payload - packet)\<close>.
\<close>

definition rtp_header_in :: "bytes \<Rightarrow> rtp_header \<Rightarrow> bool" where
  "rtp_header_in p h \<longleftrightarrow>
     hdr_version h = 2 \<and> 0 \<le> hdr_num_csrc h \<and> hdr_num_csrc h < 16 \<and>
     int (length (hdr_csrc h)) = hdr_num_csrc h \<and> unat (hdr_payload_type h) < 128 \<and>
     (\<exists>off. rtp_get_payload p h = Some (Some off) \<and> 12 + 4 * nat (hdr_num_csrc h) \<le> off \<and> off \<le> length p)"

lemma rtp_read_csrcs_length:
  "rtp_read_csrcs p n i = Some (Some cs) \<Longrightarrow> length cs = min n 16 - i"
proof (induction p n i arbitrary: cs rule: rtp_read_csrcs.induct)
  case (1 p n i)
  from "1.prems" show ?case
    by (subst (asm) rtp_read_csrcs.simps)
       (auto simp: Let_def bind_eq_Some_conv "1.IH" split: if_splits)
qed

lemma word_and_mask_less:
  "unat ((w :: u8) AND 0x0F) < 16" "unat (w AND 0x7F) < 128"
proof -
  have "w AND 0x0F \<le> 0x0F" "w AND 0x7F \<le> 0x7F" by (rule word_and_le1)+
  then show "unat (w AND 0x0F) < 16" "unat (w AND 0x7F) < 128"
    by (simp_all add: word_le_nat_alt)
qed

lemma rtp_check_length_payload:
  assumes "rtp_check_length p h = Some (Some h')" and "0 \<le> hdr_num_csrc h" and "hdr_num_csrc h < 16"
  shows "h' = h"
    and "\<exists>off. rtp_get_payload p h = Some (Some off) \<and> 12 + 4 * nat (hdr_num_csrc h) \<le> off \<and> off \<le> length p"
proof -
  show h': "h' = h"
    using assms(1) by (auto simp: rtp_check_length_def Let_def bind_eq_Some_conv split: if_splits)
  define n where "n = nat (hdr_num_csrc h)"
  have n: "hdr_num_csrc h = int n" "n < 16"
    using assms(2,3) by (simp_all add: n_def)
  have sz: "size_t (12 + 4 * hdr_num_csrc h) = 12 + 4 * n"
    using n(2) by (simp add: n(1) nat_eq_iff)
  have sz4: "size_t (int (12 + 4 * n) + 4) = 12 + 4 * n + 4"
    using n(2) by (simp add: nat_eq_iff)
  show "\<exists>off. rtp_get_payload p h = Some (Some off) \<and> 12 + 4 * nat (hdr_num_csrc h) \<le> off \<and> off \<le> length p"
  proof (cases "hdr_extension h")
    case True
    with assms(1) obtain e where "12 + 4 * n + 4 \<le> length p" "rd16 p (12 + 4 * n + 2) = Some e"
      "12 + 4 * n + 4 + 4 * unat e \<le> length p"
      by (auto simp: rtp_check_length_def Let_def bind_eq_Some_conv n split: if_splits)
    with True n(2) show ?thesis
      unfolding rtp_get_payload_def sz Let_def by (simp add: sz4 n(1))
  next
    case False
    with assms(1) show ?thesis
      unfolding rtp_get_payload_def sz Let_def
      by (auto simp: rtp_check_length_def Let_def n(1) split: if_splits)
  qed
qed

lemma rtp_parse_header_in: "rtp_parse_header p = Some (Some h) \<Longrightarrow> rtp_header_in p h"
proof -
  assume "rtp_parse_header p = Some (Some h)"
  then obtain b0 b1 seq ts ssrc cs where
      v: "drop_bit 6 b0 AND 0x03 = (2 :: u8)"
    and cs: "rtp_read_csrcs p (unat (b0 AND 0x0F)) 0 = Some (Some cs)"
    and ck: "rtp_check_length p
        \<lparr>hdr_version = drop_bit 6 b0 AND 0x03, hdr_padding = drop_bit 5 b0 AND 0x01 \<noteq> 0,
         hdr_extension = drop_bit 4 b0 AND 0x01 \<noteq> 0, hdr_csrc_count = b0 AND 0x0F,
         hdr_marker = drop_bit 7 b1 AND 0x01 \<noteq> 0, hdr_payload_type = b1 AND 0x7F,
         hdr_sequence = seq, hdr_timestamp = ts, hdr_ssrc = ssrc,
         hdr_num_csrc = min (int (unat (b0 AND 0x0F))) 16, hdr_csrc = cs\<rparr> = Some (Some h)"
    (is "rtp_check_length p ?h = _")
    by (auto simp: rtp_parse_header_def Let_def bind_eq_Some_conv split: if_splits option.splits)
  have b: "unat (b0 AND 0x0F) < 16" "unat (b1 AND 0x7F) < 128" by (rule word_and_mask_less)+
  then have u: "uint (b0 AND 0x0F) < 16" unfolding uint_nat by linarith
  then have n: "0 \<le> hdr_num_csrc ?h" "hdr_num_csrc ?h < 16"
    and l: "int (length cs) = hdr_num_csrc ?h"
    using rtp_read_csrcs_length [OF cs] b(1) by simp_all
  have "h = ?h" by (rule rtp_check_length_payload(1) [OF ck n])
  with rtp_check_length_payload(2) [OF ck n] n l b v show ?thesis
    unfolding rtp_header_in_def by simp
qed

section \<open>Round trip\<close>

text \<open>The headers the builder serialises without loss.\<close>

definition rtp_header_wf :: "rtp_header \<Rightarrow> bool" where
  "rtp_header_wf h \<longleftrightarrow>
     hdr_version h = 2 \<and> \<not> hdr_extension h \<and> unat (hdr_payload_type h) < 128 \<and>
     unat (hdr_csrc_count h) < 16 \<and> hdr_num_csrc h = int (unat (hdr_csrc_count h)) \<and>
     length (hdr_csrc h) = unat (hdr_csrc_count h)"

lemma and_low_bits:
  fixes w :: u8
  shows "unat w < 16 \<Longrightarrow> w AND 0x0F = w" and "unat w < 128 \<Longrightarrow> w AND 0x7F = w"
proof -
  have m: "(0x0F :: u8) = mask 4" "(0x7F :: u8) = mask 7"
    by (simp_all add: mask_eq_exp_minus_1)
  have "unat (w AND mask k) = unat w mod 2 ^ k" for k
    by (simp only: take_bit_eq_mask [symmetric] unsigned_take_bit_eq) (simp only: take_bit_eq_mod)
  then show "unat w < 16 \<Longrightarrow> w AND 0x0F = w" "unat w < 128 \<Longrightarrow> w AND 0x7F = w"
    unfolding m by (simp_all add: word_unat_eq_iff)
qed

lemma low_bit_flag: "w AND 0x01 \<noteq> (0 :: u8) \<longleftrightarrow> bit w 0"
  by (simp add: and_one_eq bit_0 odd_iff_mod_2_eq_one)

text \<open>The fields of the first two bytes; \<open>P\<close>, \<open>X\<close> and \<open>M\<close> are the flags as words.\<close>

lemma first_byte_fields:
  fixes v c P X :: u8
  assumes "\<And>n. bit P n \<longleftrightarrow> n = 0 \<and> p" and "\<And>n. bit X n \<longleftrightarrow> n = 0 \<and> x"
  defines "b \<equiv> push_bit 6 (v AND 0x03) OR push_bit 5 P OR push_bit 4 X OR (c AND 0x0F)"
  shows "drop_bit 6 b AND 0x03 = v AND 0x03" and "drop_bit 5 b AND 0x01 \<noteq> 0 \<longleftrightarrow> p"
    and "drop_bit 4 b AND 0x01 \<noteq> 0 \<longleftrightarrow> x" and "b AND 0x0F = c AND 0x0F"
proof -
  have m: "(0x03 :: u8) = mask 2" "(0x0F :: u8) = mask 4"
    by (simp_all add: mask_eq_exp_minus_1)
  show "drop_bit 6 b AND 0x03 = v AND 0x03" "b AND 0x0F = c AND 0x0F"
    unfolding b_def m by (rule bit_word_eqI, auto simp: bit_simps assms(1,2))+
  show "drop_bit 5 b AND 0x01 \<noteq> 0 \<longleftrightarrow> p" "drop_bit 4 b AND 0x01 \<noteq> 0 \<longleftrightarrow> x"
    unfolding b_def m low_bit_flag by (auto simp: bit_simps assms(1,2))
qed

lemma second_byte_fields:
  fixes t M :: u8
  assumes "\<And>n. bit M n \<longleftrightarrow> n = 0 \<and> m"
  defines "b \<equiv> push_bit 7 M OR (t AND 0x7F)"
  shows "drop_bit 7 b AND 0x01 \<noteq> 0 \<longleftrightarrow> m" and "b AND 0x7F = t AND 0x7F"
proof -
  have m: "(0x7F :: u8) = mask 7"
    by (simp add: mask_eq_exp_minus_1)
  show "drop_bit 7 b AND 0x01 \<noteq> 0 \<longleftrightarrow> m"
    unfolding b_def m low_bit_flag by (auto simp: bit_simps assms(1))
  show "b AND 0x7F = t AND 0x7F"
    unfolding b_def m by (rule bit_word_eqI) (auto simp: bit_simps assms(1))
qed

lemma bit_of_bool_flag: "bit (of_bool q :: u8) n \<longleftrightarrow> n = 0 \<and> q"
  by (auto simp: bit_simps)

lemmas header_byte_fields =
  first_byte_fields [OF bit_of_bool_flag bit_of_bool_flag] second_byte_fields [OF bit_of_bool_flag]

lemma rtp_read_csrcs_built:
  assumes "length pre = 12" and "length cs \<le> 16"
  shows "i \<le> length cs \<Longrightarrow>
    rtp_read_csrcs (pre @ concat (map wr32 cs) @ ys) (length cs) i = Some (Some (drop i cs))"
proof (induction i rule: inc_induct)
  case base
  then show ?case by (subst rtp_read_csrcs.simps) simp
next
  case (step i)
  have "rd32 (pre @ concat (map wr32 cs) @ ys) (12 + i * 4) = Some (cs ! i)"
    using be32.dec_array [of i cs pre ys] step.hyps assms(1) by simp
  with step assms show ?case
    by (subst rtp_read_csrcs.simps) (simp add: be32.length_concat_enc Cons_nth_drop_Suc)
qed

lemma length_rtp_fixed_part [size_simps]: "length (rtp_fixed_part h) = 12"
  by (simp add: rtp_fixed_part_def)

lemma rtp_fixed_part_reads:
  assumes "rtp_header_wf h"
  shows "rd16 (rtp_fixed_part h @ ys) 2 = Some (hdr_sequence h)"
    and "rd32 (rtp_fixed_part h @ ys) 4 = Some (hdr_timestamp h)"
    and "rd32 (rtp_fixed_part h @ ys) 8 = Some (hdr_ssrc h)"
  by (simp_all add: rtp_fixed_part_def wire_simps)

lemma rtp_parse_built:
  assumes wf: "rtp_header_wf h"
  defines "bs \<equiv> rtp_fixed_part h @ concat (map wr32 (hdr_csrc h))"
  shows "rtp_parse_header (bs @ payload) = Some (Some h)"
proof -
  let ?p = "rtp_fixed_part h @ concat (map wr32 (hdr_csrc h)) @ payload"
  let ?n = "unat (hdr_csrc_count h)"
  from wf have w: "hdr_version h = 2" "\<not> hdr_extension h" "unat (hdr_payload_type h) < 128"
    "?n < 16" "hdr_num_csrc h = int ?n" "length (hdr_csrc h) = ?n"
    by (simp_all add: rtp_header_wf_def)
  have len: "12 + 4 * ?n \<le> length ?p"
    using w by (simp add: length_rtp_fixed_part be32.length_concat_enc)
  define b0 where "b0 = rtp_fixed_part h ! 0"
  define b1 where "b1 = rtp_fixed_part h ! 1"
  have b: "rd8 ?p 0 = Some b0" "rd8 ?p 1 = Some b1"
    by (simp_all add: rtp_fixed_part_def wire_simps b0_def b1_def)
  have f0: "drop_bit 6 b0 AND 0x03 = 2" "drop_bit 5 b0 AND 0x01 \<noteq> 0 \<longleftrightarrow> hdr_padding h"
    "drop_bit 4 b0 AND 0x01 \<noteq> 0 \<longleftrightarrow> False" "b0 AND 0x0F = hdr_csrc_count h"
    unfolding b0_def rtp_fixed_part_def append_Cons nth_Cons_0 header_byte_fields
    using w by (simp_all add: and_low_bits)
  have f1: "drop_bit 7 b1 AND 0x01 \<noteq> 0 \<longleftrightarrow> hdr_marker h" "b1 AND 0x7F = hdr_payload_type h"
    unfolding b1_def rtp_fixed_part_def append_Cons One_nat_def nth_Cons_Suc nth_Cons_0 header_byte_fields
    using w by (simp_all add: and_low_bits)
  have cs: "rtp_read_csrcs ?p ?n 0 = Some (Some (hdr_csrc h))"
    using rtp_read_csrcs_built [of "rtp_fixed_part h" "hdr_csrc h" 0 payload] w
    by (simp add: length_rtp_fixed_part)
  have h: "\<lparr>hdr_version = 2, hdr_padding = hdr_padding h, hdr_extension = False,
      hdr_csrc_count = hdr_csrc_count h, hdr_marker = hdr_marker h, hdr_payload_type = hdr_payload_type h,
      hdr_sequence = hdr_sequence h, hdr_timestamp = hdr_timestamp h, hdr_ssrc = hdr_ssrc h,
      hdr_num_csrc = hdr_num_csrc h, hdr_csrc = hdr_csrc h\<rparr> = h"
    using w by simp
  define p where "p = ?p"
  have r: "rd16 p 2 = Some (hdr_sequence h)" "rd32 p 4 = Some (hdr_timestamp h)"
    "rd32 p 8 = Some (hdr_ssrc h)" "rd8 p 0 = Some b0" "rd8 p 1 = Some b1"
    "rtp_read_csrcs p ?n 0 = Some (Some (hdr_csrc h))" "12 + 4 * ?n \<le> length p"
    unfolding p_def using b cs len rtp_fixed_part_reads [OF wf] by simp_all
  have n: "min (int ?n) 16 = hdr_num_csrc h" "nat (hdr_num_csrc h) = ?n"
    unfolding w(5) using w(4) by (simp_all del: of_nat_unat)
  have "rtp_parse_header p = Some (Some h)"
    unfolding rtp_parse_header_def
    using r by (simp add: f0 f1 n h rtp_check_length_def Let_def del: of_nat_unat)
  then show ?thesis by (simp add: bs_def p_def)
qed

lemma rtp_payload_built:
  assumes wf: "rtp_header_wf h"
  defines "bs \<equiv> rtp_fixed_part h @ concat (map wr32 (hdr_csrc h))"
  shows "length bs = 12 + 4 * length (hdr_csrc h)"
    and "rtp_get_payload (bs @ payload) h = Some (Some (length bs))"
proof -
  from wf have w: "\<not> hdr_extension h" "length (hdr_csrc h) < 16" "hdr_num_csrc h = int (length (hdr_csrc h))"
    by (simp_all add: rtp_header_wf_def)
  show l: "length bs = 12 + 4 * length (hdr_csrc h)"
    by (simp add: bs_def length_rtp_fixed_part be32.length_concat_enc)
  have "size_t (12 + 4 * hdr_num_csrc h) = length bs"
    using w(2) by (simp add: w(3) l nat_eq_iff)
  with w(1) show "rtp_get_payload (bs @ payload) h = Some (Some (length bs))"
    by (simp add: rtp_get_payload_def Let_def)
qed

lemma rtp_build_wf:
  assumes wf: "rtp_header_wf h" and room: "12 + 4 * length (hdr_csrc h) \<le> max_len"
  defines "bs \<equiv> rtp_fixed_part h @ concat (map wr32 (hdr_csrc h))"
  shows "tinyrtc_rtp_build_header (Some h) max_len = Some (length bs, bs)"
proof -
  from wf have w: "\<not> hdr_extension h" "length (hdr_csrc h) < 16" "hdr_num_csrc h = int (length (hdr_csrc h))"
    by (simp_all add: rtp_header_wf_def)
  have l: "length bs = 12 + 4 * length (hdr_csrc h)"
    using rtp_payload_built(1) [OF wf] by (simp add: bs_def)
  have "size_t (12 + 4 * hdr_num_csrc h) = length bs"
    using w(2) by (simp add: w(3) l nat_eq_iff)
  with w(1) room l show ?thesis
    by (simp add: tinyrtc_rtp_build_header_def Let_def w(3) bs_def)
qed

section \<open>Properties\<close>

text \<open>C10: parsing never reads outside the packet: for every packet, \<^verbatim>\<open>NULL\<close> included, the
  parser returns \<^verbatim>\<open>true\<close> or \<^verbatim>\<open>false\<close>, and when it returns \<^verbatim>\<open>true\<close> the header describes the packet:
  version 2, at most 15 CSRCs, a 7-bit payload type and a payload that starts after the
  header and inside the packet.\<close>
theorem rtp_parse_safe:
  "\<exists>r. tinyrtc_rtp_parse_header packet = Some r \<and>
     (case (packet, r) of
        (Some p, Some h) \<Rightarrow> rtp_header_in p h
      | (None, Some h) \<Rightarrow> False
      | (_, None) \<Rightarrow> True)"
proof (cases packet)
  case (Some p)
  obtain r where "rtp_parse_header p = Some r" using rtp_parse_header_safe by blast
  with Some rtp_parse_header_in [of p] show ?thesis
    by (cases r) (simp_all add: tinyrtc_rtp_parse_header_def)
qed (simp add: tinyrtc_rtp_parse_header_def)

text \<open>C11: a header the builder accepts is written in \<open>12 + 4 * num_csrc\<close> bytes, and parsing those
  bytes followed by any payload gives the header back, with the payload where it was put.\<close>
theorem rtp_header_roundtrip:
  assumes "rtp_header_wf h" and "12 + 4 * length (hdr_csrc h) \<le> max_len"
  shows "\<exists>bs. tinyrtc_rtp_build_header (Some h) max_len = Some (length bs, bs) \<and>
     length bs = 12 + 4 * length (hdr_csrc h) \<and>
     tinyrtc_rtp_parse_header (Some (bs @ payload)) = Some (Some h) \<and>
     rtp_get_payload (bs @ payload) h = Some (Some (length bs))"
  using rtp_build_wf [OF assms] rtp_parse_built [OF assms(1)] rtp_payload_built [OF assms(1)]
  by (auto simp: tinyrtc_rtp_parse_header_def)

definition rtp_example :: rtp_header where
  "rtp_example = \<lparr>hdr_version = 2, hdr_padding = False, hdr_extension = False, hdr_csrc_count = 1,
     hdr_marker = True, hdr_payload_type = 100, hdr_sequence = 4660, hdr_timestamp = 9000,
     hdr_ssrc = 305419896, hdr_num_csrc = 1, hdr_csrc = [7]\<rparr>"

theorem rtp_header_roundtrip_witness:
  "\<exists>bs. tinyrtc_rtp_build_header (Some rtp_example) 1500 = Some (length bs, bs) \<and> length bs = 16 \<and>
     tinyrtc_rtp_parse_header (Some (bs @ [1, 2, 3])) = Some (Some rtp_example) \<and>
     rtp_get_payload (bs @ [1, 2, 3]) rtp_example = Some (Some (length bs))"
  using rtp_header_roundtrip [of rtp_example 1500 "[1, 2, 3]"]
  by (simp add: rtp_header_wf_def rtp_example_def)

end
