(* ===== verification/Rtcp.thy ===== *)
theory Rtcp
  imports Rtp
begin

text \<open>
  RTCP in \<^verbatim>\<open>src/media/rtp.c\<close> (lines 194 to 467): the packet type and report count, the
  sender report parser and builder, the report block parser and the receiver report builder.
  Builders return the C return value and the bytes written at the start of the buffer.
\<close>

record rtcp_sender_report =
  sr_ssrc :: u32
  sr_ntp_timestamp :: u64
  sr_rtp_timestamp :: u32
  sr_packet_count :: u32
  sr_octet_count :: u32

record rtcp_report_block =
  rb_ssrc :: u32
  rb_fraction_lost :: u8
  rb_cumulative_lost :: u32
  rb_highest_seq :: u32
  rb_jitter :: u32
  rb_lsr :: u32
  rb_dlsr :: u32

section \<open>Parsing\<close>

definition tinyrtc_rtcp_get_type :: "bytes \<Rightarrow> u8 option" where
  "tinyrtc_rtcp_get_type p =
     (if length p < 4 then Some 0xFF else do { b \<leftarrow> rd8 p 1; Some (b AND 0xFF) })"

definition tinyrtc_rtcp_get_report_count :: "bytes \<Rightarrow> int option" where
  "tinyrtc_rtcp_get_report_count p =
     (if length p < 4 then Some 0 else do { b \<leftarrow> rd8 p 0; Some (uint (b AND 0x1F)) })"

definition tinyrtc_rtcp_parse_sender_report ::
  "bytes option \<Rightarrow> rtcp_sender_report option option" where
  "tinyrtc_rtcp_parse_sender_report packet =
     (case packet of
        None \<Rightarrow> Some None
      | Some p \<Rightarrow>
          if length p < 28 then Some None
          else do {
            b0 \<leftarrow> rd8 p 0;
            if drop_bit 6 b0 AND 0x03 \<noteq> 2 then Some None
            else do {
              t \<leftarrow> tinyrtc_rtcp_get_type p;
              if t \<noteq> 200 then Some None
              else do {
                length_words \<leftarrow> rd16 p 2;
                if (unat length_words + 1) * 4 > length p then Some None
                else do {
                  ssrc \<leftarrow> rd32 p 4;
                  ntp_hi \<leftarrow> rd32 p 8;
                  ntp_lo \<leftarrow> rd32 p 12;
                  rtp \<leftarrow> rd32 p 16;
                  pkts \<leftarrow> rd32 p 20;
                  octs \<leftarrow> rd32 p 24;
                  Some (Some \<lparr>sr_ssrc = ssrc,
                    sr_ntp_timestamp = push_bit 32 (ucast ntp_hi) OR ucast ntp_lo,
                    sr_rtp_timestamp = rtp, sr_packet_count = pkts, sr_octet_count = octs\<rparr>)
                }
              }
            }
          })"

text \<open>
  The block offset is an \<^verbatim>\<open>int\<close> expression converted to \<^verbatim>\<open>size_t\<close>; the bound is compared after
  adding 24 in \<^verbatim>\<open>size_t\<close>, where the sum may wrap.
\<close>

definition rtcp_read_block :: "bytes \<Rightarrow> nat \<Rightarrow> rtcp_report_block option" where
  "rtcp_read_block p offset = do {
     ssrc \<leftarrow> rd32 p offset;
     frac \<leftarrow> rd8 p (offset + 4);
     lost \<leftarrow> rd24 p (offset + 5);
     hseq \<leftarrow> rd32 p (offset + 8);
     jit \<leftarrow> rd32 p (offset + 12);
     lsr \<leftarrow> rd32 p (offset + 16);
     dlsr \<leftarrow> rd32 p (offset + 20);
     Some \<lparr>rb_ssrc = ssrc, rb_fraction_lost = frac, rb_cumulative_lost = lost,
       rb_highest_seq = hseq, rb_jitter = jit, rb_lsr = lsr, rb_dlsr = dlsr\<rparr>
   }"

definition tinyrtc_rtcp_parse_report_block ::
  "int \<Rightarrow> bytes option \<Rightarrow> rtcp_report_block option option" where
  "tinyrtc_rtcp_parse_report_block report_index packet =
     (case packet of
        None \<Rightarrow> Some None
      | Some p \<Rightarrow>
          (let offset = size_t (28 + report_index * 24) in
           if size_t (int offset + 24) > length p then Some None
           else map_option Some (rtcp_read_block p offset)))"

section \<open>Building\<close>

definition tinyrtc_rtcp_build_sender_report ::
  "rtcp_sender_report option \<Rightarrow> nat \<Rightarrow> nat \<times> bytes" where
  "tinyrtc_rtcp_build_sender_report sr max_len =
     (case sr of
        None \<Rightarrow> (0, [])
      | Some r \<Rightarrow>
          if max_len < 28 then (0, [])
          else (28, [push_bit 6 2, 200, 0, 6] @ wr32 (sr_ssrc r) @ wr64 (sr_ntp_timestamp r)
                 @ wr32 (sr_rtp_timestamp r) @ wr32 (sr_packet_count r) @ wr32 (sr_octet_count r)))"

definition rtcp_write_block :: "rtcp_report_block \<Rightarrow> bytes" where
  "rtcp_write_block rb =
     wr32 (rb_ssrc rb) @ [rb_fraction_lost rb] @ wr24 (rb_cumulative_lost rb)
     @ wr32 (rb_highest_seq rb) @ wr32 (rb_jitter rb) @ wr32 (rb_lsr rb) @ wr32 (rb_dlsr rb)"

text \<open>Reading \<^verbatim>\<open>blocks[i]\<close> beyond the array the caller passed is undefined.\<close>

definition tinyrtc_rtcp_build_receiver_report ::
  "rtcp_report_block list option \<Rightarrow> int \<Rightarrow> nat \<Rightarrow> (nat \<times> bytes) option" where
  "tinyrtc_rtcp_build_receiver_report blocks num_blocks max_len =
     (case blocks of
        None \<Rightarrow> Some (0, [])
      | Some bs \<Rightarrow>
          if num_blocks < 0 \<or> num_blocks > 31 then Some (0, [])
          else
            (let n = nat num_blocks; total_len = 4 + 24 * n in
             if total_len > max_len then Some (0, [])
             else if length bs < n then None
             else Some (total_len,
               [push_bit 6 2 OR (word_of_int num_blocks AND 0x1F), 201]
               @ wr16 (word_of_nat (total_len div 4 - 1))
               @ concat (map rtcp_write_block (take n bs)))))"

section \<open>Lengths and reads\<close>

lemma length_rtcp_write_block [simp, size_simps]: "length (rtcp_write_block rb) = 24"
  by (simp add: rtcp_write_block_def)

lemma rtcp_read_block_safe [mem_safe]:
  "offset + 24 \<le> length p \<Longrightarrow> \<exists>rb. rtcp_read_block p offset = Some rb"
  by (simp add: rtcp_read_block_def rd8_Some rd24_Some rd32_Some)

lemma rtcp_read_block_unsafe: "length p < offset + 24 \<Longrightarrow> rtcp_read_block p offset = None"
  using be32.dec_out_of_bounds [of p "offset + 20"]
  by (auto simp: rtcp_read_block_def split: bind_splits)

lemma rtcp_read_block_shift:
  "length xs \<le> i \<Longrightarrow> rtcp_read_block (xs @ ys) i = rtcp_read_block ys (i - length xs)"
  by (simp add: rtcp_read_block_def wire_simps)

text \<open>
  A written block reads back with its cumulative loss cut to 24 bits, as the wire format has
  it; report blocks whose loss fits in 24 bits form a wire field.
\<close>

lemma rtcp_read_write_block:
  "rtcp_read_block (rtcp_write_block rb @ ys) 0 =
     Some (rb\<lparr>rb_cumulative_lost := take_bit 24 (rb_cumulative_lost rb)\<rparr>)"
  by (simp add: rtcp_read_block_def rtcp_write_block_def wire_simps)

lemma join64: "push_bit 32 (ucast (ucast (drop_bit 32 v) :: u32)) OR ucast (ucast v :: u32) = (v :: u64)"
  by (rule bit_word_eqI) (auto simp: bit_simps)

lemma wr64_split: "wr64 v = wr32 (ucast (drop_bit 32 v)) @ wr32 (ucast v)"
proof -
  have "(ucast (drop_bit k (ucast (drop_bit 32 v) :: u32)) :: u8) = ucast (drop_bit (32 + k) v)"
    if "k \<le> 24" for k
    using that by (intro bit_word_eqI) (auto simp: bit_simps ac_simps)
  moreover have "(ucast (drop_bit k (ucast v :: u32)) :: u8) = ucast (drop_bit k v)"
    if "k \<le> 24" for k
    using that by (intro bit_word_eqI) (auto simp: bit_simps)
  moreover have "(ucast (ucast (drop_bit 32 v) :: u32) :: u8) = ucast (drop_bit 32 v)"
    "(ucast (ucast v :: u32) :: u8) = ucast v"
    by (rule bit_word_eqI, simp add: bit_simps)+
  ultimately show ?thesis by (simp add: wr64_def wr32_def)
qed

lemma rtcp_parse_built_sender_report:
  "28 \<le> max_len \<Longrightarrow>
   tinyrtc_rtcp_parse_sender_report (Some (snd (tinyrtc_rtcp_build_sender_report (Some sr) max_len) @ rest))
     = Some (Some sr)"
  by (simp add: tinyrtc_rtcp_parse_sender_report_def tinyrtc_rtcp_build_sender_report_def
      tinyrtc_rtcp_get_type_def wr64_split wire_simps join64 rd16_def)

lemma rtcp_block_offset:
  assumes "-1 \<le> i" and "i < 2 ^ 31"
  shows "size_t (28 + i * 24) = nat (28 + i * 24)"
    and "size_t (int (nat (28 + i * 24)) + 24) = nat (28 + i * 24) + 24"
  using assms by (simp_all add: nat_add_distrib)

text \<open>Block \<open>k\<close> of a receiver report starts at byte \<open>4 + 24 * k\<close>.\<close>

lemma rtcp_built_block_at:
  "length pre = 4 \<Longrightarrow> k < length bs \<Longrightarrow>
   rtcp_read_block (pre @ concat (map rtcp_write_block bs) @ rest) (4 + 24 * k) =
     Some ((bs ! k)\<lparr>rb_cumulative_lost := take_bit 24 (rb_cumulative_lost (bs ! k))\<rparr>)"
proof (induction bs arbitrary: pre k rest)
  case Nil
  then show ?case by simp
next
  case (Cons b bs)
  show ?case
  proof (cases k)
    case 0
    with Cons.prems show ?thesis
      by (simp add: rtcp_read_block_shift rtcp_read_write_block)
  next
    case (Suc j)
    have "rtcp_read_block (pre @ concat (map rtcp_write_block (b # bs)) @ rest) (4 + 24 * k) =
          rtcp_read_block (pre @ concat (map rtcp_write_block bs) @ rest) (4 + 24 * j)"
      using Cons.prems(1) by (simp add: rtcp_read_block_shift Suc)
    with Cons Suc show ?thesis by simp
  qed
qed

section \<open>Properties\<close>

text \<open>C19: a sender report survives the round trip through its 28 bytes: whatever follows it in
  the packet, the parser returns the report that was built.\<close>
theorem rtcp_sender_report_roundtrip:
  assumes "28 \<le> max_len"
  shows "\<exists>bs. tinyrtc_rtcp_build_sender_report (Some sr) max_len = (28, bs) \<and> length bs = 28 \<and>
     tinyrtc_rtcp_parse_sender_report (Some (bs @ rest)) = Some (Some sr)"
  using rtcp_parse_built_sender_report [OF assms, of sr rest] assms
  by (simp add: tinyrtc_rtcp_build_sender_report_def)

theorem rtcp_sender_report_roundtrip_witness:
  "\<exists>bs. tinyrtc_rtcp_build_sender_report
       (Some \<lparr>sr_ssrc = 1, sr_ntp_timestamp = 2, sr_rtp_timestamp = 3, sr_packet_count = 4, sr_octet_count = 5\<rparr>) 100
     = (28, bs) \<and> length bs = 28 \<and>
     tinyrtc_rtcp_parse_sender_report (Some (bs @ [0])) =
       Some (Some \<lparr>sr_ssrc = 1, sr_ntp_timestamp = 2, sr_rtp_timestamp = 3, sr_packet_count = 4, sr_octet_count = 5\<rparr>)"
  by (rule rtcp_sender_report_roundtrip) simp

text \<open>The report block parser stays inside the packet for the indices from \<open>-1\<close> up, but its
  bound check wraps for \<open>-2\<close>: any packet of at least four bytes passes it and is then read
  almost \<open>2 ^ 64\<close> bytes behind its end.\<close>
theorem rtcp_report_block_index_bound:
  "(-1 \<le> i \<and> i < 2 ^ 31 \<longrightarrow> (\<exists>r. tinyrtc_rtcp_parse_report_block i packet = Some r)) \<and>
   (4 \<le> length p \<and> length p < 2 ^ 63 \<longrightarrow> tinyrtc_rtcp_parse_report_block (-2) (Some p) = None)"
proof (intro conjI impI)
  assume i: "-1 \<le> i \<and> i < 2 ^ 31"
  show "\<exists>r. tinyrtc_rtcp_parse_report_block i packet = Some r"
  proof (cases packet)
    case (Some q)
    with i rtcp_block_offset [of i] show ?thesis
      using rtcp_read_block_safe [of "nat (28 + i * 24)" q]
      by (auto simp: tinyrtc_rtcp_parse_report_block_def Let_def)
  qed (simp add: tinyrtc_rtcp_parse_report_block_def)
next
  assume p: "4 \<le> length p \<and> length p < 2 ^ 63"
  then show "tinyrtc_rtcp_parse_report_block (-2) (Some p) = None"
    by (simp add: tinyrtc_rtcp_parse_report_block_def size_t_def rtcp_read_block_unsafe)
qed

theorem rtcp_report_block_index_bound_witness:
  "(\<exists>r. tinyrtc_rtcp_parse_report_block (-1) (Some [0, 0, 0, 0, 0]) = Some r) \<and>
   tinyrtc_rtcp_parse_report_block (-2) (Some [0, 0, 0, 0, 0]) = None"
  using rtcp_report_block_index_bound [of "-1" "Some [0, 0, 0, 0, 0]" "[0, 0, 0, 0, 0]"] by simp

text \<open>C27: a receiver report carries no sender SSRC: it puts block \<open>k\<close> at byte \<open>4 + 24 * k\<close>, while
  the parser looks for block \<open>k\<close> at byte \<open>28 + 24 * k\<close>.  So the parser's index is off by one: block
  \<open>k\<close> of a built report is what index \<open>k - 1\<close> returns, its cumulative loss cut to 24 bits.\<close>
theorem rtcp_receiver_report_blocks:
  assumes "length bs \<le> 31" and "4 + 24 * length bs \<le> max_len" and "k < length bs"
  shows "\<exists>msg. tinyrtc_rtcp_build_receiver_report (Some bs) (int (length bs)) max_len = Some (length msg, msg) \<and>
     length msg = 4 + 24 * length bs \<and>
     tinyrtc_rtcp_get_type msg = Some 201 \<and>
     tinyrtc_rtcp_parse_report_block (int k - 1) (Some (msg @ rest)) =
       Some (Some ((bs ! k)\<lparr>rb_cumulative_lost := take_bit 24 (rb_cumulative_lost (bs ! k))\<rparr>))"
proof -
  define hdr where "hdr = [push_bit 6 2 OR (word_of_int (int (length bs)) AND 0x1F), 201 :: u8]
     @ wr16 (word_of_nat ((4 + 24 * length bs) div 4 - 1))"
  define msg where "msg = hdr @ concat (map rtcp_write_block bs)"
  have len: "length hdr = 4" by (simp add: hdr_def)
  have "length (concat (map rtcp_write_block bs)) = 24 * length bs"
    by (induction bs) simp_all
  with len have lmsg: "length msg = 4 + 24 * length bs" by (simp add: msg_def)
  have b: "tinyrtc_rtcp_build_receiver_report (Some bs) (int (length bs)) max_len = Some (length msg, msg)"
    using assms(1,2) lmsg by (simp add: tinyrtc_rtcp_build_receiver_report_def Let_def msg_def hdr_def)
  have t: "tinyrtc_rtcp_get_type msg = Some 201"
    using lmsg by (simp add: tinyrtc_rtcp_get_type_def msg_def hdr_def wire_simps)
  have off: "28 + (int k - 1) * 24 = int (4 + 24 * k)" by simp
  have sz: "size_t (int (4 + 24 * k)) = 4 + 24 * k" "size_t (int (4 + 24 * k) + 24) = 4 + 24 * k + 24"
    using assms(1,3) size_t_int [of "4 + 24 * k"] size_t_int [of "4 + 24 * k + 24"] by simp_all
  have "tinyrtc_rtcp_parse_report_block (int k - 1) (Some (msg @ rest)) =
        map_option Some (rtcp_read_block (msg @ rest) (4 + 24 * k))"
    unfolding tinyrtc_rtcp_parse_report_block_def off sz Let_def
    using assms(3) lmsg by simp
  with rtcp_built_block_at [OF len assms(3), of rest] b t lmsg show ?thesis
    by (auto simp: msg_def)
qed

theorem rtcp_receiver_report_blocks_witness:
  "let b = (\<lambda>n. \<lparr>rb_ssrc = n, rb_fraction_lost = 0, rb_cumulative_lost = 5, rb_highest_seq = 1,
        rb_jitter = 2, rb_lsr = 3, rb_dlsr = 4\<rparr>) in
   \<exists>msg. tinyrtc_rtcp_build_receiver_report (Some [b 10, b 20]) 2 1500 = Some (length msg, msg) \<and>
     tinyrtc_rtcp_parse_report_block 0 (Some (msg @ [])) = Some (Some (b 20))"
  using rtcp_receiver_report_blocks [of "map (\<lambda>n. \<lparr>rb_ssrc = n, rb_fraction_lost = 0, rb_cumulative_lost = 5,
      rb_highest_seq = 1, rb_jitter = 2, rb_lsr = 3, rb_dlsr = 4\<rparr>) [10, 20]" 1500 1 "[]"]
  by (simp add: Let_def) blast

end
