(* ===== verification/Float64.thy ===== *)
theory Float64
  imports Complex_Main "HOL-Library.Log_Nat" TinyRTC_Prelude
begin

text \<open>
  Arithmetic on C \<^verbatim>\<open>double\<close> values, as far as congestion control needs it: IEEE 754 binary64 with
  round to nearest, ties to even, each operation rounded once (\<^verbatim>\<open>FLT_EVAL_METHOD\<close> 0, no contraction).
  A value is the rational number it denotes.  The program's values are not negative and lie
  between \<open>2 ^ -60\<close> and \<open>2 ^ 120\<close>, far from overflow and from subnormal numbers, which are not
  modelled.  Converting to \<^verbatim>\<open>uint32_t\<close> is undefined (\<open>None\<close>) when the truncated value does not fit.
\<close>

section \<open>Rounding\<close>

definition log2_floor :: "rat \<Rightarrow> int" where
  "log2_floor x =
     (let (a, b) = quotient_of x;
          k = int (floorlog 2 (nat a)) - int (floorlog 2 (nat b)) in
      if 2 powi k \<le> x then k else k - 1)"

definition round_half_even :: "rat \<Rightarrow> int" where
  "round_half_even x =
     (let f = \<lfloor>x\<rfloor>; d = x - of_int f in
      if d < 1 / 2 then f
      else if 1 / 2 < d then f + 1
      else if even f then f else f + 1)"

definition rnd :: "rat \<Rightarrow> rat" where
  "rnd x =
     (if x \<le> 0 then 0
      else (let u = 2 powi (log2_floor x - 52) in of_int (round_half_even (x / u)) * u))"

definition double_to_u32 :: "rat \<Rightarrow> u32 option" where
  "double_to_u32 x = (if \<lfloor>x\<rfloor> < 2 ^ 32 then Some (word_of_int \<lfloor>x\<rfloor>) else None)"

definition u32_to_double :: "u32 \<Rightarrow> rat" where
  "u32_to_double w = of_nat (unat w)"

section \<open>The exponent\<close>

lemma floorlog_rat:
  assumes "0 < n"
  shows "2 powi (int (floorlog 2 n) - 1) \<le> (of_nat n :: rat)"
    and "(of_nat n :: rat) < 2 powi int (floorlog 2 n)"
proof -
  define l where "l = floorlog 2 n"
  have b: "2 ^ (l - 1) \<le> n" "n < 2 ^ l"
    using floorlog_bounds [of n 2] assms by (simp_all add: l_def)
  have "l \<noteq> 0"
  proof
    assume "l = 0"
    with b(2) assms show False by simp
  qed
  then have e: "int l - 1 = int (l - 1)" by simp
  have "(of_nat (2 ^ (l - 1)) :: rat) \<le> of_nat n" "(of_nat n :: rat) < of_nat (2 ^ l)"
    using b by (simp_all only: of_nat_le_iff of_nat_less_iff)
  then show "2 powi (int (floorlog 2 n) - 1) \<le> (of_nat n :: rat)"
    "(of_nat n :: rat) < 2 powi int (floorlog 2 n)"
    unfolding l_def [symmetric] e power_int_of_nat by (simp_all only: of_nat_power of_nat_numeral)
qed

lemma log2_floor_bounds:
  assumes "0 < x"
  shows "2 powi log2_floor x \<le> x" and "x < 2 powi (log2_floor x + 1)"
proof -
  obtain a b where q: "quotient_of x = (a, b)" by (cases "quotient_of x")
  have b: "0 < b" using quotient_of_denom_pos [OF q] .
  have x: "x = of_int a / of_int b" using quotient_of_div [OF q] .
  have a: "0 < a" using assms b by (simp add: x zero_less_divide_iff)
  define la where "la = floorlog 2 (nat a)"
  define lb where "lb = floorlog 2 (nat b)"
  have A': "2 powi (int la - 1) \<le> (of_int a :: rat)" "(of_int a :: rat) < 2 powi int la"
    using floorlog_rat [of "nat a"] a by (simp_all add: la_def)
  have B': "2 powi (int lb - 1) \<le> (of_int b :: rat)" "(of_int b :: rat) < 2 powi int lb"
    using floorlog_rat [of "nat b"] b by (simp_all add: lb_def)
  define k where "k = int la - int lb"
  have up: "x < 2 powi (k + 1)"
  proof -
    have "x * 2 powi (int lb - 1) \<le> x * of_int b"
      using B'(1) assms by (intro mult_left_mono) simp_all
    also have "\<dots> < 2 powi int la" using A'(2) b by (simp add: x)
    also have "\<dots> = 2 powi (k + 1) * 2 powi (int lb - 1)"
      by (simp add: k_def power_int_add [symmetric])
    finally show ?thesis by simp
  qed
  have down: "2 powi (k - 1) \<le> x"
  proof -
    have "2 powi (k - 1) * of_int b \<le> 2 powi (k - 1) * (2 powi int lb :: rat)"
      using B'(2) by (intro mult_left_mono) simp_all
    also have "\<dots> = 2 powi ((k - 1) + int lb)"
      by (rule power_int_add [symmetric]) simp
    also have "2 powi ((k - 1) + int lb) = (2 powi (int la - 1) :: rat)" by (simp add: k_def)
    also have "\<dots> \<le> of_int a" by (rule A'(1))
    finally show ?thesis using b by (simp add: x pos_le_divide_eq)
  qed
  have l: "log2_floor x = (if 2 powi k \<le> x then k else k - 1)"
    by (simp add: log2_floor_def q la_def lb_def k_def)
  show "2 powi log2_floor x \<le> x" "x < 2 powi (log2_floor x + 1)"
    using up down by (auto simp: l)
qed

lemma powi_2_mono: "i \<le> j \<Longrightarrow> (2 :: rat) powi i \<le> 2 powi j"
  by (rule power_int_increasing) simp_all

lemma powi_2_less_imp: "(2 :: rat) powi i < 2 powi j \<Longrightarrow> i < j"
  using powi_2_mono [of j i] by linarith

lemma log2_floor_mono: "0 < x \<Longrightarrow> x \<le> y \<Longrightarrow> log2_floor x \<le> log2_floor y"
proof -
  assume "0 < x" and le: "x \<le> y"
  have "2 powi log2_floor x \<le> x" by (rule log2_floor_bounds) fact
  also note le
  also have "y < 2 powi (log2_floor y + 1)"
    by (rule log2_floor_bounds) (use \<open>0 < x\<close> le in simp)
  finally show ?thesis using powi_2_less_imp by fastforce
qed

section \<open>Rounding to an integer\<close>

lemma round_half_even_of_int [simp]: "round_half_even (of_int i) = i"
  by (simp add: round_half_even_def)

lemma round_half_even_floor: "\<lfloor>x\<rfloor> \<le> round_half_even x" "round_half_even x \<le> \<lfloor>x\<rfloor> + 1"
  by (simp_all add: round_half_even_def Let_def)

lemma round_half_even_mono:
  assumes "x \<le> y"
  shows "round_half_even x \<le> round_half_even y"
proof (cases "\<lfloor>x\<rfloor> = \<lfloor>y\<rfloor>")
  case True
  with assms show ?thesis by (auto simp: round_half_even_def Let_def)
next
  case False
  with floor_mono [OF assms] have "\<lfloor>x\<rfloor> + 1 \<le> \<lfloor>y\<rfloor>" by simp
  then show ?thesis
    using round_half_even_floor(2) [of x] round_half_even_floor(1) [of y] by linarith
qed

lemma round_half_even_error: "\<bar>of_int (round_half_even x) - x\<bar> \<le> 1 / 2"
proof -
  define f where "f = \<lfloor>x\<rfloor>"
  have "of_int f \<le> x" "x < of_int f + 1" unfolding f_def by linarith+
  then show ?thesis by (auto simp: round_half_even_def f_def [symmetric] Let_def abs_if)
qed

section \<open>Rounding to a double\<close>

lemma rnd_0 [simp]: "rnd 0 = 0"
  by (simp add: rnd_def)

text \<open>A number with a 53-bit significand is its own rounding.\<close>

lemma rnd_exact:
  assumes "m < 2 ^ 53"
  shows "rnd (of_nat m * 2 powi j) = of_nat m * 2 powi j"
proof (cases "m = 0")
  case False
  define x where "x = (of_nat m * 2 powi j :: rat)"
  have x: "0 < x" using False by (simp add: x_def)
  define e where "e = log2_floor x"
  have "(of_nat m :: rat) < of_nat (2 ^ 53)" using assms by (simp only: of_nat_less_iff)
  then have "x < 2 powi 53 * 2 powi j" by (simp add: x_def)
  then have "x < 2 powi (53 + j)" by (simp add: power_int_add)
  with log2_floor_bounds(1) [OF x] have "e < 53 + j"
    unfolding e_def by (intro powi_2_less_imp) linarith
  then obtain n where n: "j - (e - 52) = int n" using zero_le_imp_eq_int [of "j - (e - 52)"] by auto
  have "x / 2 powi (e - 52) = of_nat m * 2 powi (j - (e - 52))"
    by (simp add: x_def power_int_diff)
  also have "\<dots> = of_int (int (m * 2 ^ n))" unfolding n by (simp add: power_int_of_nat)
  finally have i: "x / 2 powi (e - 52) = of_int (int (m * 2 ^ n))" .
  then have "rnd x = of_int (int (m * 2 ^ n)) * 2 powi (e - 52)"
    using x unfolding rnd_def Let_def e_def [symmetric] by (simp only: i round_half_even_of_int) simp
  also have "\<dots> = x" unfolding i [symmetric] by simp
  finally show ?thesis by (simp add: x_def)
qed simp

lemma rnd_of_nat [simp]: "m < 2 ^ 53 \<Longrightarrow> rnd (of_nat m) = of_nat m"
  using rnd_exact [of m 0] by simp

lemma rnd_nonneg: "0 \<le> rnd x"
proof (cases "x \<le> 0")
  case False
  then have "0 \<le> x / 2 powi (log2_floor x - 52)" by simp
  then have "0 \<le> round_half_even (x / 2 powi (log2_floor x - 52))"
    using round_half_even_floor(1) [of "x / 2 powi (log2_floor x - 52)"]
    by (meson order_trans zero_le_floor)
  then show ?thesis by (simp add: rnd_def Let_def)
qed (simp add: rnd_def)

lemma rnd_powi_bounds:
  assumes "0 < x"
  shows "2 powi log2_floor x \<le> rnd x" and "rnd x \<le> 2 powi (log2_floor x + 1)"
proof -
  define e where "e = log2_floor x"
  define u where "u = (2 powi (e - 52) :: rat)"
  have u: "0 < u" by (simp add: u_def)
  have p: "(2 powi e :: rat) = of_int (2 ^ 52) * u" "(2 powi (e + 1) :: rat) = of_int (2 ^ 53) * u"
    by (simp_all add: u_def power_int_diff power_int_add)
  have r: "rnd x = of_int (round_half_even (x / u)) * u"
    using assms by (simp add: rnd_def Let_def e_def u_def)
  have "of_int (2 ^ 52) \<le> x / u" "x / u \<le> of_int (2 ^ 53)"
    using log2_floor_bounds [OF assms] u p
    by (simp_all add: e_def pos_le_divide_eq pos_divide_le_eq)
  then have "2 ^ 52 \<le> round_half_even (x / u)" "round_half_even (x / u) \<le> 2 ^ 53"
    using round_half_even_mono [of "of_int (2 ^ 52)" "x / u"] round_half_even_mono [of "x / u" "of_int (2 ^ 53)"]
    by (simp_all only: round_half_even_of_int)
  then have "of_int (2 ^ 52) \<le> (of_int (round_half_even (x / u)) :: rat)"
    "(of_int (round_half_even (x / u)) :: rat) \<le> of_int (2 ^ 53)"
    by (simp_all only: of_int_le_iff)
  then show "2 powi log2_floor x \<le> rnd x" "rnd x \<le> 2 powi (log2_floor x + 1)"
    unfolding e_def [symmetric] p r using u by (intro mult_right_mono; simp)+
qed

lemma rnd_mono:
  assumes "x \<le> y"
  shows "rnd x \<le> rnd y"
proof (cases "x \<le> 0")
  case True
  then show ?thesis using rnd_nonneg [of y] by (simp add: rnd_def [of x])
next
  case False
  then have x: "0 < x" and y: "0 < y" using assms by simp_all
  have le: "log2_floor x \<le> log2_floor y" by (rule log2_floor_mono [OF x assms])
  show ?thesis
  proof (cases "log2_floor x = log2_floor y")
    case True
    then show ?thesis
      using x y assms
      by (simp add: rnd_def Let_def round_half_even_mono divide_right_mono mult_right_mono)
  next
    case False
    have "rnd x \<le> 2 powi (log2_floor x + 1)" by (rule rnd_powi_bounds [OF x])
    also have "\<dots> \<le> 2 powi log2_floor y" using le False by (intro powi_2_mono) simp
    also have "\<dots> \<le> rnd y" by (rule rnd_powi_bounds [OF y])
    finally show ?thesis .
  qed
qed

text \<open>The relative error is at most \<open>2 ^ -53\<close>.\<close>

lemma rnd_error:
  assumes "0 \<le> x"
  shows "\<bar>rnd x - x\<bar> \<le> x * 2 powi (- 53)"
proof (cases "x = 0")
  case False
  with assms have x: "0 < x" by simp
  define u where "u = (2 powi (log2_floor x - 52) :: rat)"
  have u: "0 < u" by (simp add: u_def)
  have "rnd x - x = (of_int (round_half_even (x / u)) - x / u) * u"
    using x u by (simp add: rnd_def Let_def u_def [symmetric] left_diff_distrib)
  then have "\<bar>rnd x - x\<bar> = \<bar>of_int (round_half_even (x / u)) - x / u\<bar> * u"
    using u by (simp add: abs_mult)
  also have "\<dots> \<le> 1 / 2 * u"
    using round_half_even_error [of "x / u"] u by (intro mult_right_mono) simp_all
  also have "\<dots> = 2 powi log2_floor x * 2 powi (- 53)"
    by (simp add: u_def power_int_diff power_int_minus)
  also have "\<dots> \<le> x * 2 powi (- 53)"
    using log2_floor_bounds(1) [OF x] by (intro mult_right_mono) simp_all
  finally show ?thesis .
qed simp

lemma rnd_le_nat: "x \<le> of_nat m \<Longrightarrow> m < 2 ^ 53 \<Longrightarrow> rnd x \<le> of_nat m"
  using rnd_mono [of x "of_nat m"] by simp

lemma rnd_ge_nat: "of_nat m \<le> x \<Longrightarrow> m < 2 ^ 53 \<Longrightarrow> of_nat m \<le> rnd x"
  using rnd_mono [of "of_nat m" x] by simp

end
