(* ===== verification/Congestion.thy ===== *)
theory Congestion
  imports Interfaces Float64
begin

text \<open>
  Congestion control, \<^verbatim>\<open>src/cc/congestion_control.c\<close>.  Double values are the rationals of
  \<^verbatim>\<open>Float64\<close>, rounded after each operation; a conversion to \<^verbatim>\<open>uint32_t\<close> that does not fit is
  undefined (\<open>None\<close>).  Every function is the one for a non-\<^verbatim>\<open>NULL\<close> handle; arguments the C code
  marks unused are left out.
\<close>

record cc_config =
  cc_min_bitrate_bps :: u32
  cc_max_bitrate_bps :: u32
  cc_initial_bitrate_bps :: u32
  cc_enable_pacing :: bool

record cc =
  cc_config :: cc_config
  cc_estimated_bandwidth_bps :: u32
  cc_target_bitrate_bps :: u32
  cc_total_bytes_sent :: u64
  cc_total_packets_sent :: u32
  cc_last_update_time_ms :: u64
  cc_bytes_this_interval :: u32
  cc_pacing_next_send_time_ms :: u64
  cc_latest_rtt_ms :: rat
  cc_latest_fraction_lost :: rat

definition TINYRTC_CC_ADD_INCREASE :: u32 where "TINYRTC_CC_ADD_INCREASE = 100000"
definition TINYRTC_CC_MULTIPLY_DECREASE :: rat where "TINYRTC_CC_MULTIPLY_DECREASE = rnd (5 / 10)"
definition TINYRTC_CC_ESTIMATE_ALPHA :: rat where "TINYRTC_CC_ESTIMATE_ALPHA = rnd (85 / 100)"
definition LOSS_THRESHOLD :: rat where "LOSS_THRESHOLD = rnd (2 / 100)"

definition tinyrtc_cc_get_default_config :: cc_config where
  "tinyrtc_cc_get_default_config = \<lparr>cc_min_bitrate_bps = 500000, cc_max_bitrate_bps = 20000000,
     cc_initial_bitrate_bps = 2000000, cc_enable_pacing = True\<rparr>"

definition tinyrtc_cc_create :: "bool \<Rightarrow> cc_config option \<Rightarrow> cc option" where
  "tinyrtc_cc_create alloc_ok config =
     (case config of
        None \<Rightarrow> None
      | Some c \<Rightarrow>
          if \<not> alloc_ok then None
          else Some \<lparr>cc_config = c, cc_estimated_bandwidth_bps = cc_initial_bitrate_bps c,
            cc_target_bitrate_bps = cc_initial_bitrate_bps c, cc_total_bytes_sent = 0,
            cc_total_packets_sent = 0, cc_last_update_time_ms = 0, cc_bytes_this_interval = 0,
            cc_pacing_next_send_time_ms = 0, cc_latest_rtt_ms = 0, cc_latest_fraction_lost = 0\<rparr>)"

definition tinyrtc_cc_get_estimated_bandwidth :: "cc option \<Rightarrow> u32" where
  "tinyrtc_cc_get_estimated_bandwidth cc = (case cc of None \<Rightarrow> 0 | Some c \<Rightarrow> cc_estimated_bandwidth_bps c)"

definition tinyrtc_cc_get_target_bitrate :: "cc option \<Rightarrow> u32" where
  "tinyrtc_cc_get_target_bitrate cc = (case cc of None \<Rightarrow> 0 | Some c \<Rightarrow> cc_target_bitrate_bps c)"

definition tinyrtc_cc_report_packet_sent :: "u64 \<Rightarrow> u64 \<Rightarrow> cc \<Rightarrow> cc" where
  "tinyrtc_cc_report_packet_sent send_time_ms size_bytes cc =
     cc\<lparr>cc_total_bytes_sent := cc_total_bytes_sent cc + size_bytes,
        cc_total_packets_sent := cc_total_packets_sent cc + 1,
        cc_bytes_this_interval := cc_bytes_this_interval cc + ucast size_bytes,
        cc_last_update_time_ms := send_time_ms\<rparr>"

section \<open>Rate adaptation\<close>

text \<open>The exponential moving average of lines 200 to 203 and 294 to 297.\<close>

definition cc_average :: "u32 \<Rightarrow> u32 \<Rightarrow> u32 option" where
  "cc_average estimate new_target =
     double_to_u32 (rnd
       (rnd (TINYRTC_CC_ESTIMATE_ALPHA * u32_to_double estimate)
        + rnd (rnd (1 - TINYRTC_CC_ESTIMATE_ALPHA) * u32_to_double new_target)))"

definition tinyrtc_cc_report_congestion :: "cc \<Rightarrow> cc option" where
  "tinyrtc_cc_report_congestion cc = do {
     halved \<leftarrow> double_to_u32 (rnd (u32_to_double (cc_target_bitrate_bps cc) * TINYRTC_CC_MULTIPLY_DECREASE));
     let new_target = (if halved < cc_min_bitrate_bps (cc_config cc)
                       then cc_min_bitrate_bps (cc_config cc) else halved);
     estimate \<leftarrow> cc_average (cc_estimated_bandwidth_bps cc) new_target;
     Some (cc\<lparr>cc_estimated_bandwidth_bps := estimate, cc_target_bitrate_bps := new_target\<rparr>)
   }"

text \<open>The additive increase, scaled to a round trip of 100 ms.\<close>

definition cc_increase :: "rat \<Rightarrow> u32 option" where
  "cc_increase latest_rtt_ms =
     (if latest_rtt_ms > 0
      then double_to_u32 (rnd (u32_to_double TINYRTC_CC_ADD_INCREASE * rnd (100 / latest_rtt_ms)))
      else Some TINYRTC_CC_ADD_INCREASE)"

definition cc_clamp :: "cc \<Rightarrow> cc" where
  "cc_clamp cc =
     (let cc1 = (if cc_target_bitrate_bps cc < cc_min_bitrate_bps (cc_config cc)
                 then cc\<lparr>cc_target_bitrate_bps := cc_min_bitrate_bps (cc_config cc)\<rparr> else cc) in
      if cc_target_bitrate_bps cc1 > cc_max_bitrate_bps (cc_config cc)
      then cc1\<lparr>cc_target_bitrate_bps := cc_max_bitrate_bps (cc_config cc)\<rparr> else cc1)"

definition tinyrtc_cc_report_feedback :: "u32 \<Rightarrow> u8 \<Rightarrow> cc \<Rightarrow> cc option" where
  "tinyrtc_cc_report_feedback rtt_ms fraction_lost cc0 = do {
     let cc = cc0\<lparr>cc_latest_rtt_ms := u32_to_double rtt_ms,
                  cc_latest_fraction_lost := rnd (of_nat (unat fraction_lost) / 256)\<rparr>;
     if cc_latest_fraction_lost cc > LOSS_THRESHOLD then
       map_option cc_clamp (tinyrtc_cc_report_congestion cc)
     else do {
       increase \<leftarrow> cc_increase (cc_latest_rtt_ms cc);
       let sum = cc_target_bitrate_bps cc + increase;
       let new_target = (if sum > cc_max_bitrate_bps (cc_config cc)
                         then cc_max_bitrate_bps (cc_config cc) else sum);
       estimate \<leftarrow> cc_average (cc_estimated_bandwidth_bps cc) new_target;
       Some (cc_clamp (cc\<lparr>cc_estimated_bandwidth_bps := estimate, cc_target_bitrate_bps := new_target\<rparr>))
     }
   }"

section \<open>Pacing\<close>

definition cc_send_time :: "rat \<Rightarrow> u32 \<Rightarrow> u32 option" where
  "cc_send_time bits target =
     (let bitrate_bps = (if u32_to_double target < 1 then 1 else u32_to_double target) in
      double_to_u32 (rnd (rnd (bits * 1000) / bitrate_bps)))"

definition tinyrtc_cc_can_send :: "u64 \<Rightarrow> u64 \<Rightarrow> cc \<Rightarrow> (bool \<times> cc) option" where
  "tinyrtc_cc_can_send packet_size_bytes now_ms cc =
     (if \<not> cc_enable_pacing (cc_config cc) then Some (True, cc)
      else if cc_pacing_next_send_time_ms cc = 0 then
        Some (True, cc\<lparr>cc_pacing_next_send_time_ms := now_ms, cc_bytes_this_interval := 0\<rparr>)
      else if now_ms < cc_pacing_next_send_time_ms cc then Some (False, cc)
      else do {
        let bits = rnd (rnd (of_nat (unat packet_size_bytes)) * 8);
        wait_ms \<leftarrow> cc_send_time bits (cc_target_bitrate_bps cc);
        Some (True, cc\<lparr>cc_pacing_next_send_time_ms := now_ms + ucast wait_ms,
          cc_bytes_this_interval := cc_bytes_this_interval cc + ucast packet_size_bytes\<rparr>)
      })"

definition tinyrtc_cc_get_wait_time_ms :: "cc \<Rightarrow> u32 option" where
  "tinyrtc_cc_get_wait_time_ms cc =
     (if cc_pacing_next_send_time_ms cc = 0 then Some 0
      else cc_send_time (rnd (1200 * 8)) (cc_target_bitrate_bps cc))"

section \<open>Exact results of double arithmetic\<close>

lemma u32_to_double_bounds: "0 \<le> u32_to_double w" "u32_to_double w < 2 ^ 32"
proof -
  have "unat w < 2 ^ LENGTH(32)" by (rule unat_less)
  then have "(of_nat (unat w) :: rat) < of_nat (2 ^ 32)"
    unfolding of_nat_less_iff by simp
  then show "0 \<le> u32_to_double w" "u32_to_double w < 2 ^ 32"
    by (simp_all add: u32_to_double_def del: of_nat_unat)
qed

lemma double_to_u32_Some:
  assumes "0 \<le> x" and "\<lfloor>x\<rfloor> < 2 ^ 32"
  shows "\<exists>w. double_to_u32 x = Some w \<and> int (unat w) = \<lfloor>x\<rfloor>"
proof -
  have "0 \<le> \<lfloor>x\<rfloor>" using assms(1) by simp
  then have "int (unat (word_of_int \<lfloor>x\<rfloor> :: u32)) = \<lfloor>x\<rfloor>"
    using assms(2) by (simp add: uint_word_of_int_eq take_bit_int_eq_self)
  with assms(2) show ?thesis by (simp add: double_to_u32_def)
qed

text \<open>A quotient of integers below \<open>2 ^ 53\<close> truncates to their integer quotient.\<close>

lemma floor_rnd_div:
  assumes "n < 2 ^ 53" and "0 < d"
  shows "\<lfloor>rnd (of_nat n / of_nat d)\<rfloor> = int (n div d)"
proof -
  define q where "q = (of_nat n / of_nat d :: rat)"
  define k where "k = n div d"
  have kd: "k * d \<le> n" "n < (k + 1) * d"
    using assms(2) by (simp_all add: k_def div_times_less_eq_dividend dividend_less_div_times)
  have d: "(0 :: rat) < of_nat d" using assms(2) by simp
  have "(of_nat (k * d) :: rat) \<le> of_nat n" using kd(1) by (simp only: of_nat_le_iff)
  then have lo: "of_nat k \<le> q" using d by (simp add: q_def pos_le_divide_eq)
  have "(of_nat (n + 1) :: rat) \<le> of_nat ((k + 1) * d)" using kd(2) by (simp only: of_nat_le_iff)
  then have hi: "q + 1 / of_nat d \<le> of_nat k + 1"
    using d by (simp add: q_def field_simps)
  have "k \<le> n" by (simp add: k_def div_le_dividend)
  then have k53: "k < 2 ^ 53" using assms(1) by simp
  have "rnd q - q \<le> q * 2 powi (- 53)"
    using rnd_error [of q] by (simp add: q_def abs_le_iff)
  also have "\<dots> < 1 / of_nat d"
  proof -
    have "(of_nat n :: rat) < of_nat (2 ^ 53)" using assms(1) by (simp only: of_nat_less_iff)
    then show ?thesis using d by (simp add: q_def power_int_minus field_simps)
  qed
  finally have "rnd q < of_nat k + 1" using hi by simp
  moreover have "of_nat k \<le> rnd q" by (rule rnd_ge_nat [OF lo k53])
  ultimately show ?thesis
    unfolding q_def [symmetric] k_def [symmetric] by (intro floor_unique) simp_all
qed

lemma cc_send_time_exact:
  assumes "bits = of_nat n" and "n * 1000 < 2 ^ 32"
  shows "\<exists>w. cc_send_time bits target = Some w \<and> unat w = n * 1000 div max 1 (unat target)"
proof -
  have r: "rnd (bits * 1000) = of_nat (n * 1000)"
    using rnd_of_nat [of "n * 1000"] assms by simp
  have b: "(if u32_to_double target < 1 then 1 else u32_to_double target) = of_nat (max 1 (unat target))"
    by (cases "unat target") (simp_all add: u32_to_double_def del: of_nat_unat)
  have f: "\<lfloor>rnd (of_nat (n * 1000) / of_nat (max 1 (unat target)))\<rfloor> = int (n * 1000 div max 1 (unat target))"
    by (rule floor_rnd_div) (use assms(2) in simp_all)
  have "n * 1000 div max 1 (unat target) < 2 ^ 32"
    using assms(2) div_le_dividend le_less_trans by blast
  then have "\<lfloor>rnd (of_nat (n * 1000) / of_nat (max 1 (unat target)))\<rfloor> < 2 ^ 32"
    unfolding f by (metis of_nat_less_iff of_nat_numeral of_nat_power)
  from double_to_u32_Some [OF rnd_nonneg this] obtain w where
    "double_to_u32 (rnd (of_nat (n * 1000) / of_nat (max 1 (unat target)))) = Some w"
    "int (unat w) = int (n * 1000 div max 1 (unat target))"
    unfolding f by blast
  then show ?thesis
    unfolding cc_send_time_def Let_def r b by (simp only: of_nat_eq_iff) simp
qed

section \<open>The moving average\<close>

lemma rnd_error_32:
  assumes "0 \<le> x" and "x \<le> 2 ^ 32"
  shows "\<bar>rnd x - x\<bar> \<le> 1 / 2 ^ 21"
proof -
  have "\<bar>rnd x - x\<bar> \<le> x * 2 powi (- 53)" by (rule rnd_error [OF assms(1)])
  also have "\<dots> \<le> 2 ^ 32 * 2 powi (- 53)" using assms(2) by (intro mult_right_mono) simp_all
  also have "\<dots> = 1 / 2 ^ 21" by (simp add: power_int_minus)
  finally show ?thesis .
qed

lemma rnd_error_1:
  assumes "0 \<le> x" and "x \<le> 1"
  shows "\<bar>rnd x - x\<bar> \<le> 1 / 2 ^ 53"
proof -
  have "\<bar>rnd x - x\<bar> \<le> x * 2 powi (- 53)" by (rule rnd_error [OF assms(1)])
  also have "\<dots> \<le> 1 * 2 powi (- 53)" using assms(2) by (intro mult_right_mono) simp_all
  also have "\<dots> = 1 / 2 ^ 53" by (simp add: power_int_minus)
  finally show ?thesis .
qed

lemma cc_alpha:
  "84 / 100 \<le> TINYRTC_CC_ESTIMATE_ALPHA" "TINYRTC_CC_ESTIMATE_ALPHA \<le> 86 / 100"
  "\<bar>rnd (1 - TINYRTC_CC_ESTIMATE_ALPHA) - (1 - TINYRTC_CC_ESTIMATE_ALPHA)\<bar> \<le> 1 / 2 ^ 53"
proof -
  have "\<bar>TINYRTC_CC_ESTIMATE_ALPHA - 85 / 100\<bar> \<le> 1 / 2 ^ 53"
    unfolding TINYRTC_CC_ESTIMATE_ALPHA_def by (rule rnd_error_1) simp_all
  then show a: "84 / 100 \<le> TINYRTC_CC_ESTIMATE_ALPHA" "TINYRTC_CC_ESTIMATE_ALPHA \<le> 86 / 100"
    unfolding abs_le_iff by simp_all
  show "\<bar>rnd (1 - TINYRTC_CC_ESTIMATE_ALPHA) - (1 - TINYRTC_CC_ESTIMATE_ALPHA)\<bar> \<le> 1 / 2 ^ 53"
    by (rule rnd_error_1) (use a in simp_all)
qed

text \<open>The rounded sum is the convex combination up to \<open>2 ^ -19\<close>.\<close>

lemma abs_error_sum:
  fixes a :: rat
  shows "\<bar>a - b\<bar> \<le> c \<Longrightarrow> \<bar>d - f\<bar> \<le> c \<Longrightarrow> \<bar>f - g\<bar> \<le> c \<Longrightarrow> 3 * c \<le> k \<Longrightarrow> \<bar>a + d - (b + g)\<bar> \<le> k"
  by linarith

lemma cc_sum_bounds:
  fixes e n :: rat
  assumes "0 \<le> e" "e < 2 ^ 32" "0 \<le> n" "n < 2 ^ 32"
  defines "A \<equiv> TINYRTC_CC_ESTIMATE_ALPHA"
  defines "S \<equiv> rnd (A * e) + rnd (rnd (1 - A) * n)"
  shows "\<bar>S - (A * e + (1 - A) * n)\<bar> \<le> 1 / 2 ^ 19"
proof -
  define B where "B = rnd (1 - A)"
  have A: "84 / 100 \<le> A" "A \<le> 86 / 100" "\<bar>B - (1 - A)\<bar> \<le> 1 / 2 ^ 53"
    using cc_alpha unfolding A_def B_def by simp_all
  have B: "0 \<le> B" "B \<le> 1" using A unfolding abs_le_iff by simp_all
  have "A * e \<le> 1 * 2 ^ 32" "B * n \<le> 1 * 2 ^ 32"
    using assms A B by (intro mult_mono; simp)+
  then have "\<bar>rnd (A * e) - A * e\<bar> \<le> 1 / 2 ^ 21" "\<bar>rnd (B * n) - B * n\<bar> \<le> 1 / 2 ^ 21"
    using assms A B by (intro rnd_error_32; simp)+
  moreover have "\<bar>B * n - (1 - A) * n\<bar> \<le> 1 / 2 ^ 21"
  proof -
    have "\<bar>B * n - (1 - A) * n\<bar> = \<bar>B - (1 - A)\<bar> * n"
      using assms(3) by (simp add: left_diff_distrib [symmetric] abs_mult)
    also have "\<dots> \<le> 1 / 2 ^ 53 * 2 ^ 32" using A(3) assms by (intro mult_mono) simp_all
    finally show ?thesis by simp
  qed
  ultimately show ?thesis
    unfolding S_def B_def [symmetric] by (rule abs_error_sum) simp
qed

lemma cc_average_bounds:
  obtains w where "cc_average e n = Some w" and "unat w \<le> max (unat e) (unat n)"
    and "\<And>m. m \<le> unat n \<Longrightarrow> m \<le> unat e + 1 \<Longrightarrow> m \<le> unat w + 1"
proof -
  define A where "A = TINYRTC_CC_ESTIMATE_ALPHA"
  define x where "x = u32_to_double e"
  define y where "y = u32_to_double n"
  define S where "S = rnd (A * x) + rnd (rnd (1 - A) * y)"
  define M where "M = max (unat e) (unat n)"
  have A: "84 / 100 \<le> A" "A \<le> 86 / 100" using cc_alpha by (simp_all add: A_def)
  have xy: "0 \<le> x" "x < 2 ^ 32" "0 \<le> y" "y < 2 ^ 32"
    unfolding x_def y_def by (rule u32_to_double_bounds)+
  have xyM: "x \<le> of_nat M" "y \<le> of_nat M"
    by (simp_all add: x_def y_def u32_to_double_def M_def del: of_nat_unat)
  have M32: "M < 2 ^ 32"
    using unat_less [of e] unat_less [of n] by (simp add: M_def)
  have S: "\<bar>S - (A * x + (1 - A) * y)\<bar> \<le> 1 / 2 ^ 19"
    unfolding S_def A_def by (rule cc_sum_bounds [OF xy])
  have "A * x + (1 - A) * y \<le> A * of_nat M + (1 - A) * of_nat M"
    using A xyM by (intro add_mono mult_left_mono) simp_all
  also have "\<dots> = of_nat M" by (simp add: algebra_simps)
  finally have "S \<le> of_nat M + 1 / 2" using S unfolding abs_le_iff by simp
  also have "\<dots> = of_nat (2 * M + 1) * 2 powi (- 1)" by (simp add: power_int_minus field_simps)
  finally have "rnd S \<le> rnd (of_nat (2 * M + 1) * 2 powi (- 1))" by (rule rnd_mono)
  also have "\<dots> = of_nat (2 * M + 1) * 2 powi (- 1)"
    by (rule rnd_exact) (use M32 in simp)
  also have "\<dots> = of_nat M + 1 / 2" by (simp add: power_int_minus field_simps)
  finally have "rnd S < of_nat (Suc M)" by simp
  then have fl: "\<lfloor>rnd S\<rfloor> < int (Suc M)" by (simp add: floor_less_iff)
  moreover have "int (Suc M) \<le> 2 ^ 32" using M32 by simp
  ultimately have fl32: "\<lfloor>rnd S\<rfloor> < 2 ^ 32" by (rule less_le_trans)
  from double_to_u32_Some [OF rnd_nonneg fl32] obtain w where
    w: "double_to_u32 (rnd S) = Some w" "int (unat w) = \<lfloor>rnd S\<rfloor>" by blast
  have lower: "m \<le> unat w + 1" if m: "m \<le> unat n" "m \<le> unat e + 1" for m
  proof (cases m)
    case (Suc k)
    have k: "of_nat k \<le> x" "of_nat k + 1 \<le> y"
      using m by (simp_all add: x_def y_def u32_to_double_def Suc del: of_nat_unat)
    have "of_nat k + 14 / 100 \<le> A * of_nat k + (1 - A) * (of_nat k + 1)"
      using A by (simp add: algebra_simps)
    also have "\<dots> \<le> A * x + (1 - A) * y"
      using A k by (intro add_mono mult_left_mono) simp_all
    finally have "of_nat k \<le> S" using S unfolding abs_le_iff by simp
    moreover have "k < 2 ^ 53" using m Suc unat_less [of n] by simp
    ultimately have "of_nat k \<le> rnd S" by (rule rnd_ge_nat)
    then have "int k \<le> int (unat w)" unfolding w(2) by (simp add: le_floor_iff)
    then have "k \<le> unat w" by (simp only: of_nat_le_iff)
    with Suc show ?thesis by simp
  qed simp
  have "int (unat w) < int (Suc M)" using fl unfolding w(2) .
  then have "unat w \<le> M" by (simp only: of_nat_less_iff less_Suc_eq_le)
  moreover have "cc_average e n = Some w"
    using w(1) by (simp add: cc_average_def S_def A_def x_def y_def)
  ultimately show ?thesis using that lower unfolding M_def by blast
qed

section \<open>The steps of rate adaptation\<close>

lemma cc_halve: "double_to_u32 (rnd (u32_to_double t * TINYRTC_CC_MULTIPLY_DECREASE)) = Some (word_of_nat (unat t div 2))"
proof -
  have "rnd (of_nat 1 * 2 powi (- 1)) = of_nat 1 * 2 powi (- 1)" by (rule rnd_exact) simp
  then have h: "TINYRTC_CC_MULTIPLY_DECREASE = 1 / 2"
    by (simp add: TINYRTC_CC_MULTIPLY_DECREASE_def power_int_minus inverse_eq_divide)
  have "\<lfloor>rnd (of_nat (unat t) / of_nat 2)\<rfloor> = int (unat t div 2)"
    by (rule floor_rnd_div) (use unat_less [of t] in simp_all)
  then have f: "\<lfloor>rnd (u32_to_double t * TINYRTC_CC_MULTIPLY_DECREASE)\<rfloor> = int (unat t div 2)"
    by (simp add: h u32_to_double_def del: of_nat_unat)
  have "unat t div 2 < 2 ^ 32" using unat_less [of t] by simp
  then have "int (unat t div 2) < 2 ^ 32" by (metis of_nat_less_iff of_nat_numeral of_nat_power)
  then show ?thesis unfolding double_to_u32_def f by (simp del: of_nat_unat)
qed

lemma unat_half: "unat (word_of_nat (unat (t :: u32) div 2) :: u32) = unat t div 2"
  using unat_less [of t] by (simp add: unsigned_of_nat take_bit_nat_eq_self)

text \<open>The loss threshold of 2\% lies between 5/256 and 6/256.\<close>

lemma cc_loss: "rnd (of_nat (unat f) / 256) > LOSS_THRESHOLD \<longleftrightarrow> 6 \<le> unat (f :: u8)"
proof -
  have e: "rnd (of_nat (unat f) / 256) = of_nat (unat f) / 256"
    using rnd_exact [of "unat f" "- 8"] unat_less [of f] by (simp add: power_int_minus field_simps del: of_nat_unat)
  have "\<bar>LOSS_THRESHOLD - 2 / 100\<bar> \<le> 1 / 2 ^ 53"
    unfolding LOSS_THRESHOLD_def by (rule rnd_error_1) simp_all
  then have t: "5 / 256 < LOSS_THRESHOLD" "LOSS_THRESHOLD < 6 / 256"
    unfolding abs_le_iff by simp_all
  show ?thesis
  proof (cases "6 \<le> unat f")
    case True
    then have "(6 / 256 :: rat) \<le> of_nat (unat f) / 256"
      by (simp del: of_nat_unat)
    with t True show ?thesis by (simp add: e del: of_nat_unat)
  next
    case False
    then have "unat f \<le> 5" by simp
    then have "of_nat (unat f) / 256 \<le> (5 / 256 :: rat)" by (simp del: of_nat_unat)
    with t False show ?thesis by (simp add: e del: of_nat_unat)
  qed
qed

lemma abs_error_scale:
  fixes y :: rat
  shows "\<bar>y - q\<bar> \<le> c \<Longrightarrow> \<bar>z - 100000 * y\<bar> \<le> d \<Longrightarrow> d \<le> e \<Longrightarrow> \<bar>z - 100000 * q\<bar> \<le> e + 100000 * c"
  by linarith

text \<open>The increase is \<open>10 ^ 7\<close> over the round trip time, or one less.\<close>

lemma cc_increase_bounds:
  assumes "0 < unat rtt"
  obtains w where "cc_increase (u32_to_double rtt) = Some w"
    and "unat w \<le> 10 ^ 7 div unat rtt" and "10 ^ 7 div unat rtt \<le> unat w + 1"
proof -
  define d where "d = unat rtt"
  define r where "r = (of_nat d :: rat)"
  have d: "0 < d" using assms by (simp add: d_def)
  then have r: "1 \<le> r" by (simp add: r_def)
  define x where "x = 10 ^ 7 / r"
  define y where "y = rnd (100 / r)"
  define z where "z = rnd (100000 * y)"
  have e1: "\<bar>y - 100 / r\<bar> \<le> 100 / r * 2 powi (- 53)"
    unfolding y_def by (rule rnd_error) (use r in simp)
  have y0: "0 \<le> y" by (simp add: y_def rnd_nonneg)
  have e2: "\<bar>z - 100000 * y\<bar> \<le> 100000 * y * 2 powi (- 53)"
    unfolding z_def by (rule rnd_error) (use y0 in simp)
  have p: "(2 powi (- 53) :: rat) = 1 / 2 ^ 53" by (simp add: power_int_minus inverse_eq_divide)
  have y2: "y \<le> 2 * (100 / r)"
  proof -
    have "100 / r * 2 powi (- 53) \<le> 100 / r * 1" using r by (intro mult_left_mono) (simp_all add: p)
    with e1 show ?thesis by linarith
  qed
  have "100000 * y * 2 powi (- 53) \<le> 100000 * (2 * (100 / r)) * 2 powi (- 53)"
    using y2 by (intro mult_right_mono mult_left_mono) simp_all
  from abs_error_scale [OF e1 e2 this]
  have "\<bar>z - x\<bar> \<le> 100000 * (2 * (100 / r)) * 2 powi (- 53) + 100000 * (100 / r * 2 powi (- 53))"
    by (simp add: x_def)
  also have "\<dots> < 1 / r" using r by (simp add: p field_simps)
  finally have err: "\<bar>z - x\<bar> < 1 / r" .
  define k where "k = 10 ^ 7 div d"
  have kd: "k * d \<le> 10 ^ 7" "10 ^ 7 < (k + 1) * d"
    unfolding k_def using dividend_less_div_times [OF d, of "10 ^ 7"]
    by (simp_all only: div_times_less_eq_dividend add_mult_distrib mult_1 add.commute)
  have "(of_nat (k * d) :: rat) \<le> of_nat (10 ^ 7)" "(of_nat (10 ^ 7 + 1) :: rat) \<le> of_nat ((k + 1) * d)"
    using kd by (simp_all only: of_nat_le_iff)
  then have lo: "of_nat k \<le> x" and hi: "x + 1 / r \<le> of_nat k + 1"
    using r by (simp_all add: x_def r_def field_simps)
  have r1: "1 / r \<le> 1" using r by simp
  have "z < of_nat (k + 1)" "of_nat k - 1 \<le> z" using err lo hi r1 by simp_all
  then have fl: "\<lfloor>z\<rfloor> \<le> int k" "int k - 1 \<le> \<lfloor>z\<rfloor>"
    by (simp_all add: floor_le_iff le_floor_iff)
  have "k \<le> 10 ^ 7" by (simp add: k_def)
  then have "int k < 2 ^ 32" by simp
  with fl(1) have fl32: "\<lfloor>z\<rfloor> < 2 ^ 32" by (rule le_less_trans)
  have z0: "0 \<le> z" by (simp add: z_def rnd_nonneg)
  from double_to_u32_Some [OF z0 fl32] obtain w where w: "double_to_u32 z = Some w" "int (unat w) = \<lfloor>z\<rfloor>"
    by blast
  have rtt: "u32_to_double rtt = r" by (simp add: u32_to_double_def r_def d_def)
  have inc: "u32_to_double TINYRTC_CC_ADD_INCREASE = 100000"
    by (simp add: u32_to_double_def TINYRTC_CC_ADD_INCREASE_def)
  have "cc_increase (u32_to_double rtt) = Some w"
    using r w(1) unfolding cc_increase_def rtt inc by (simp add: z_def y_def)
  moreover have "unat w \<le> k" "k \<le> unat w + 1"
    using fl unfolding w(2) [symmetric] by linarith+
  ultimately show ?thesis using that by (simp add: k_def d_def)
qed

section \<open>Steps under a sane configuration\<close>

text \<open>
  The largest increase is \<open>10 ^ 7\<close> (a round trip of 1 ms); a configuration is sane when the sum
  of the maximum and that increase fits 32 bits.
\<close>

definition cc_sane :: "cc_config \<Rightarrow> bool" where
  "cc_sane c \<longleftrightarrow>
     cc_min_bitrate_bps c \<le> cc_max_bitrate_bps c \<and> unat (cc_max_bitrate_bps c) + 10 ^ 7 < 2 ^ 32"

definition cc_inv :: "cc_config \<Rightarrow> cc \<Rightarrow> bool" where
  "cc_inv c s \<longleftrightarrow>
     cc_config s = c \<and>
     cc_min_bitrate_bps c \<le> cc_target_bitrate_bps s \<and> cc_target_bitrate_bps s \<le> cc_max_bitrate_bps c \<and>
     unat (cc_min_bitrate_bps c) \<le> unat (cc_estimated_bandwidth_bps s) + 1 \<and>
     cc_estimated_bandwidth_bps s \<le> cc_max_bitrate_bps c"

text \<open>What a change of the target to \<open>t\<close> does to the state; the estimate is left open.\<close>

lemma cc_inv_retarget:
  assumes "cc_inv c s" and "cc_min_bitrate_bps c \<le> t" and "t \<le> cc_max_bitrate_bps c"
  obtains w where "cc_average (cc_estimated_bandwidth_bps s) t = Some w"
    and "\<And>s'. cc_config s' = c \<Longrightarrow> cc_estimated_bandwidth_bps s' = w \<Longrightarrow> cc_target_bitrate_bps s' = t
           \<Longrightarrow> cc_inv c s' \<and> cc_clamp s' = s'"
proof -
  obtain w where w: "cc_average (cc_estimated_bandwidth_bps s) t = Some w"
    "unat w \<le> max (unat (cc_estimated_bandwidth_bps s)) (unat t)"
    "\<And>m. m \<le> unat t \<Longrightarrow> m \<le> unat (cc_estimated_bandwidth_bps s) + 1 \<Longrightarrow> m \<le> unat w + 1"
    using cc_average_bounds by blast
  have "unat (cc_min_bitrate_bps c) \<le> unat w + 1"
    by (rule w(3)) (use assms in \<open>simp_all add: cc_inv_def word_le_nat_alt\<close>)
  moreover have "w \<le> cc_max_bitrate_bps c"
    using w(2) assms by (auto simp: cc_inv_def word_le_nat_alt max_def split: if_splits)
  ultimately show ?thesis
    using that [OF w(1)] assms(2,3) by (simp add: cc_inv_def cc_clamp_def Let_def not_less)
qed

lemma cc_congestion_step:
  assumes "cc_inv c s" and "cc_min_bitrate_bps c \<le> cc_max_bitrate_bps c"
  obtains s' where "tinyrtc_cc_report_congestion s = Some s'" and "cc_inv c s'" and "cc_clamp s' = s'"
    and "unat (cc_target_bitrate_bps s') =
      max (unat (cc_min_bitrate_bps c)) (unat (cc_target_bitrate_bps s) div 2)"
proof -
  define half where "half = (word_of_nat (unat (cc_target_bitrate_bps s) div 2) :: u32)"
  define t where "t = (if half < cc_min_bitrate_bps c then cc_min_bitrate_bps c else half)"
  have h: "unat half = unat (cc_target_bitrate_bps s) div 2" by (simp add: half_def unat_half)
  then have "half \<le> cc_target_bitrate_bps s" by (simp add: word_le_nat_alt)
  then have t: "cc_min_bitrate_bps c \<le> t" "t \<le> cc_max_bitrate_bps c"
    using assms by (auto simp: t_def cc_inv_def)
  from cc_inv_retarget [OF assms(1) t] obtain w where
    w: "cc_average (cc_estimated_bandwidth_bps s) t = Some w"
    and s': "\<And>s'. cc_config s' = c \<Longrightarrow> cc_estimated_bandwidth_bps s' = w \<Longrightarrow> cc_target_bitrate_bps s' = t
           \<Longrightarrow> cc_inv c s' \<and> cc_clamp s' = s'" by blast
  have c: "cc_config s = c" using assms(1) by (simp add: cc_inv_def)
  have ut: "unat t = max (unat (cc_min_bitrate_bps c)) (unat (cc_target_bitrate_bps s) div 2)"
    using h by (simp add: t_def word_less_nat_alt max_def)
  have "tinyrtc_cc_report_congestion s =
      Some (s\<lparr>cc_estimated_bandwidth_bps := w, cc_target_bitrate_bps := t\<rparr>)"
    unfolding tinyrtc_cc_report_congestion_def cc_halve half_def [symmetric] c Let_def bind.bind_lunit t_def [symmetric]
    by (simp add: w)
  with that s' [of "s\<lparr>cc_estimated_bandwidth_bps := w, cc_target_bitrate_bps := t\<rparr>"] c ut show ?thesis
    by simp
qed

lemma cc_feedback_loss:
  assumes "cc_inv c s" and "cc_sane c" and "6 \<le> unat fraction_lost"
  obtains s' where "tinyrtc_cc_report_feedback rtt fraction_lost s = Some s'" and "cc_inv c s'"
    and "unat (cc_target_bitrate_bps s') =
      max (unat (cc_min_bitrate_bps c)) (unat (cc_target_bitrate_bps s) div 2)"
proof -
  define s1 where "s1 = s\<lparr>cc_latest_rtt_ms := u32_to_double rtt,
    cc_latest_fraction_lost := rnd (of_nat (unat fraction_lost) / 256)\<rparr>"
  have "cc_inv c s1" "cc_min_bitrate_bps c \<le> cc_max_bitrate_bps c" 
    using assms(1,2) by (simp_all add: s1_def cc_inv_def cc_sane_def)
  then obtain s' where s': "tinyrtc_cc_report_congestion s1 = Some s'" "cc_inv c s'" "cc_clamp s' = s'"
    "unat (cc_target_bitrate_bps s') = max (unat (cc_min_bitrate_bps c)) (unat (cc_target_bitrate_bps s1) div 2)"
    by (rule cc_congestion_step)
  have l: "LOSS_THRESHOLD < cc_latest_fraction_lost s1"
    using cc_loss [of fraction_lost] assms(3) by (simp add: s1_def)
  have "tinyrtc_cc_report_feedback rtt fraction_lost s = Some s'"
    unfolding tinyrtc_cc_report_feedback_def s1_def [symmetric] Let_def using l s' by simp
  with that s' show ?thesis by (simp add: s1_def)
qed

lemma cc_feedback_no_loss:
  assumes inv: "cc_inv c s" and sane: "cc_sane c" and "unat fraction_lost < 6"
  obtains s' inc where "tinyrtc_cc_report_feedback rtt fraction_lost s = Some s'" and "cc_inv c s'"
    and "unat (cc_target_bitrate_bps s') = min (unat (cc_max_bitrate_bps c)) (unat (cc_target_bitrate_bps s) + inc)"
    and "if rtt = 0 then inc = 100000 else inc \<le> 10 ^ 7 div unat rtt \<and> 10 ^ 7 div unat rtt \<le> inc + 1"
proof -
  define s1 where "s1 = s\<lparr>cc_latest_rtt_ms := u32_to_double rtt,
    cc_latest_fraction_lost := rnd (of_nat (unat fraction_lost) / 256)\<rparr>"
  have i1: "cc_inv c s1" using inv by (simp add: s1_def cc_inv_def)
  have c: "cc_config s1 = c" using i1 by (simp add: cc_inv_def)
  obtain inc where inc: "cc_increase (u32_to_double rtt) = Some inc" "unat inc \<le> 10 ^ 7"
    "if rtt = 0 then unat inc = 100000 else unat inc \<le> 10 ^ 7 div unat rtt \<and> 10 ^ 7 div unat rtt \<le> unat inc + 1"
  proof (cases "rtt = 0")
    case True
    then have "cc_increase (u32_to_double rtt) = Some 100000"
      by (simp add: cc_increase_def u32_to_double_def TINYRTC_CC_ADD_INCREASE_def)
    with that [of 100000] True show ?thesis by simp
  next
    case False
    then have "0 < unat rtt" by (simp add: unat_gt_0)
    then obtain w where w: "cc_increase (u32_to_double rtt) = Some w"
      "unat w \<le> 10 ^ 7 div unat rtt" "10 ^ 7 div unat rtt \<le> unat w + 1"
      by (rule cc_increase_bounds)
    have "10 ^ 7 div unat rtt \<le> 10 ^ 7" by (rule div_le_dividend)
    with w(2) have "unat w \<le> 10 ^ 7" by (rule le_trans)
    with that [of w] w False show ?thesis by simp
  qed
  define sum where "sum = cc_target_bitrate_bps s1 + inc"
  define t where "t = (if sum > cc_max_bitrate_bps c then cc_max_bitrate_bps c else sum)"
  have "unat (cc_target_bitrate_bps s1) + unat inc < 2 ^ 32"
    using i1 sane inc(2) by (simp add: cc_inv_def cc_sane_def word_le_nat_alt)
  then have us: "unat sum = unat (cc_target_bitrate_bps s1) + unat inc"
    unfolding sum_def by (simp add: unat_word_ariths)
  have t: "cc_min_bitrate_bps c \<le> t" "t \<le> cc_max_bitrate_bps c"
    using i1 sane us by (auto simp: t_def cc_inv_def cc_sane_def word_le_nat_alt word_less_nat_alt)
  have ut: "unat t = min (unat (cc_max_bitrate_bps c)) (unat (cc_target_bitrate_bps s) + unat inc)"
    using us by (simp add: t_def word_less_nat_alt min_def s1_def)
  from cc_inv_retarget [OF i1 t] obtain w where
    w: "cc_average (cc_estimated_bandwidth_bps s1) t = Some w"
    and s': "\<And>s'. cc_config s' = c \<Longrightarrow> cc_estimated_bandwidth_bps s' = w \<Longrightarrow> cc_target_bitrate_bps s' = t
           \<Longrightarrow> cc_inv c s' \<and> cc_clamp s' = s'" by blast
  have l: "\<not> LOSS_THRESHOLD < cc_latest_fraction_lost s1" and r: "cc_latest_rtt_ms s1 = u32_to_double rtt"
    using cc_loss [of fraction_lost] assms(3) by (simp_all add: s1_def)
  define s2 where "s2 = s1\<lparr>cc_estimated_bandwidth_bps := w, cc_target_bitrate_bps := t\<rparr>"
  have s2: "cc_inv c s2" "cc_clamp s2 = s2" using s' [of s2] c by (simp_all add: s2_def)
  have "tinyrtc_cc_report_feedback rtt fraction_lost s = Some s2"
    unfolding tinyrtc_cc_report_feedback_def s1_def [symmetric] Let_def r
    using l w s2(2) by (simp add: inc(1) c sum_def [symmetric] s2_def t_def split: if_splits)
  with that [of s2 "unat inc"] s2 ut inc(3) show ?thesis by (simp add: s2_def)
qed

section \<open>The pacer\<close>

lemma cc_packet_bits:
  assumes "unat sz \<le> 65535"
  shows "rnd (rnd (of_nat (unat sz)) * 8) = of_nat (unat sz * 8)"
proof -
  have "rnd (of_nat (unat sz)) = of_nat (unat sz)" by (rule rnd_of_nat) (use assms in simp)
  moreover have "rnd (of_nat (unat sz * 8)) = of_nat (unat sz * 8)"
    by (rule rnd_of_nat) (use assms in simp)
  ultimately show ?thesis by (simp only: of_nat_mult of_nat_numeral)
qed

lemma cc_can_send_cases:
  assumes "unat sz \<le> 65535"
  obtains w where "tinyrtc_cc_can_send sz now s =
    (if \<not> cc_enable_pacing (cc_config s) then Some (True, s)
     else if cc_pacing_next_send_time_ms s = 0 then
       Some (True, s\<lparr>cc_pacing_next_send_time_ms := now, cc_bytes_this_interval := 0\<rparr>)
     else if now < cc_pacing_next_send_time_ms s then Some (False, s)
     else Some (True, s\<lparr>cc_pacing_next_send_time_ms := now + ucast w,
            cc_bytes_this_interval := cc_bytes_this_interval s + ucast sz\<rparr>))"
    and "unat (w :: u32) = unat sz * 8 * 1000 div max 1 (unat (cc_target_bitrate_bps s))"
proof -
  obtain w where w: "cc_send_time (of_nat (unat sz * 8)) (cc_target_bitrate_bps s) = Some w"
    "unat w = unat sz * 8 * 1000 div max 1 (unat (cc_target_bitrate_bps s))"
    using cc_send_time_exact [OF refl, of "unat sz * 8"] assms by auto
  show ?thesis
    by (rule that [of w])
      (simp_all add: tinyrtc_cc_can_send_def cc_packet_bits [OF assms] w del: of_nat_unat of_nat_mult)
qed

section \<open>Any sequence of reports\<close>

datatype cc_call = CC_Packet_Sent u64 u64 | CC_Feedback u32 u8 | CC_Congestion | CC_Can_Send u64 u64

fun cc_step :: "cc_call \<Rightarrow> cc \<Rightarrow> cc option" where
  "cc_step (CC_Packet_Sent time sz) s = Some (tinyrtc_cc_report_packet_sent time sz s)"
| "cc_step (CC_Feedback rtt lost) s = tinyrtc_cc_report_feedback rtt lost s"
| "cc_step CC_Congestion s = tinyrtc_cc_report_congestion s"
| "cc_step (CC_Can_Send sz now) s = map_option snd (tinyrtc_cc_can_send sz now s)"

text \<open>The packets a UDP socket can carry.\<close>

fun cc_udp_sized :: "cc_call \<Rightarrow> bool" where
  "cc_udp_sized (CC_Can_Send sz now) \<longleftrightarrow> unat sz \<le> 65535"
| "cc_udp_sized _ \<longleftrightarrow> True"

interpretation rate_control: safe_machine cc_step "\<lambda>s. cc_inv c s \<and> cc_sane c" cc_udp_sized for c
proof
  fix s and e :: cc_call
  assume s: "cc_inv c s \<and> cc_sane c" and e: "cc_udp_sized e"
  show "\<exists>s'. cc_step e s = Some s' \<and> cc_inv c s' \<and> cc_sane c"
  proof (cases e)
    case (CC_Packet_Sent time sz)
    with s show ?thesis by (simp add: tinyrtc_cc_report_packet_sent_def cc_inv_def)
  next
    case (CC_Feedback rtt lost)
    show ?thesis
    proof (cases "6 \<le> unat lost")
      case True
      with s obtain s' where "tinyrtc_cc_report_feedback rtt lost s = Some s'" "cc_inv c s'"
        using cc_feedback_loss [of c s lost rtt] by blast
      with s CC_Feedback show ?thesis by simp
    next
      case False
      with s obtain s' where "tinyrtc_cc_report_feedback rtt lost s = Some s'" "cc_inv c s'"
        using cc_feedback_no_loss [of c s lost rtt] by (metis not_le)
      with s CC_Feedback show ?thesis by simp
    qed
  next
    case CC_Congestion
    from s obtain s' where "tinyrtc_cc_report_congestion s = Some s'" "cc_inv c s'"
      using cc_congestion_step [of c s] by (auto simp: cc_sane_def)
    with s CC_Congestion show ?thesis by simp
  next
    case (CC_Can_Send sz now)
    with e have "unat sz \<le> 65535" by simp
    then obtain w where "tinyrtc_cc_can_send sz now s =
      (if \<not> cc_enable_pacing (cc_config s) then Some (True, s)
       else if cc_pacing_next_send_time_ms s = 0 then
         Some (True, s\<lparr>cc_pacing_next_send_time_ms := now, cc_bytes_this_interval := 0\<rparr>)
       else if now < cc_pacing_next_send_time_ms s then Some (False, s)
       else Some (True, s\<lparr>cc_pacing_next_send_time_ms := now + ucast (w :: u32),
              cc_bytes_this_interval := cc_bytes_this_interval s + ucast sz\<rparr>))"
      by (rule cc_can_send_cases)
    with s CC_Can_Send show ?thesis by (auto simp: cc_inv_def)
  qed
qed

section \<open>Properties\<close>

text \<open>C8: rate control stays inside its limits.  For a sane configuration whose initial bitrate is
  between the minimum and the maximum, every sequence of reports, feedback and pacing calls is
  free of undefined conversions, keeps the target between the limits, and keeps the smoothed
  estimate below the maximum and at most one bit per second below the minimum.\<close>
theorem cc_bitrate_within_limits:
  assumes "cc_sane c" and "cc_min_bitrate_bps c \<le> cc_initial_bitrate_bps c"
    and "cc_initial_bitrate_bps c \<le> cc_max_bitrate_bps c"
    and "tinyrtc_cc_create True (Some c) = Some s" and "\<forall>e \<in> set calls. cc_udp_sized e"
  shows "\<exists>s'. run_machine cc_step calls s = Some s' \<and>
     cc_min_bitrate_bps c \<le> tinyrtc_cc_get_target_bitrate (Some s') \<and>
     tinyrtc_cc_get_target_bitrate (Some s') \<le> cc_max_bitrate_bps c \<and>
     unat (cc_min_bitrate_bps c) \<le> unat (tinyrtc_cc_get_estimated_bandwidth (Some s')) + 1 \<and>
     tinyrtc_cc_get_estimated_bandwidth (Some s') \<le> cc_max_bitrate_bps c"
proof -
  have "cc_inv c s"
    using assms by (auto simp: tinyrtc_cc_create_def cc_inv_def word_le_nat_alt)
  with assms(1) rate_control.run_safe [of c s calls] assms(5)
  obtain s' where "run_machine cc_step calls s = Some s'" "cc_inv c s'" by auto
  then show ?thesis
    by (simp add: cc_inv_def tinyrtc_cc_get_target_bitrate_def tinyrtc_cc_get_estimated_bandwidth_def)
qed

theorem cc_bitrate_within_limits_witness:
  "\<exists>s s'. tinyrtc_cc_create True (Some tinyrtc_cc_get_default_config) = Some s \<and>
     run_machine cc_step [CC_Feedback 50 0, CC_Can_Send 1200 5, CC_Feedback 80 30, CC_Congestion] s = Some s' \<and>
     500000 \<le> tinyrtc_cc_get_target_bitrate (Some s') \<and> tinyrtc_cc_get_target_bitrate (Some s') \<le> 20000000"
proof -
  obtain s where s: "tinyrtc_cc_create True (Some tinyrtc_cc_get_default_config) = Some s"
    by (simp add: tinyrtc_cc_create_def)
  show ?thesis
    using s cc_bitrate_within_limits [OF _ _ _ s,
        of "[CC_Feedback 50 0, CC_Can_Send 1200 5, CC_Feedback 80 30, CC_Congestion]"]
    by (simp add: tinyrtc_cc_get_default_config_def cc_sane_def del: run_machine.simps) blast
qed

text \<open>C15: additive increase, multiplicative decrease.  A reported loss of 6/256 or more halves the
  target, not below the minimum; a smaller loss raises it by \<open>10 ^ 7\<close> over the round trip time
  (possibly one less by rounding; by 100000 when no round trip time is known), not above the maximum.\<close>
theorem cc_feedback_aimd:
  assumes "cc_inv c s" and "cc_sane c"
  shows "\<exists>s'. tinyrtc_cc_report_feedback rtt fraction_lost s = Some s' \<and>
     (if 6 \<le> unat fraction_lost then
        unat (cc_target_bitrate_bps s') =
          max (unat (cc_min_bitrate_bps c)) (unat (cc_target_bitrate_bps s) div 2)
      else
        (\<exists>inc. unat (cc_target_bitrate_bps s') =
            min (unat (cc_max_bitrate_bps c)) (unat (cc_target_bitrate_bps s) + inc) \<and>
          (if rtt = 0 then inc = 100000
           else inc \<le> 10 ^ 7 div unat rtt \<and> 10 ^ 7 div unat rtt \<le> inc + 1)))"
proof (cases "6 \<le> unat fraction_lost")
  case True
  with cc_feedback_loss [OF assms True, of rtt] show ?thesis by metis
next
  case False
  then have "unat fraction_lost < 6" by simp
  from cc_feedback_no_loss [OF assms this, of rtt] False show ?thesis by metis
qed

definition cc_example :: cc where
  "cc_example = \<lparr>cc_config = tinyrtc_cc_get_default_config, cc_estimated_bandwidth_bps = 2000000,
     cc_target_bitrate_bps = 2000000, cc_total_bytes_sent = 0, cc_total_packets_sent = 0,
     cc_last_update_time_ms = 0, cc_bytes_this_interval = 0, cc_pacing_next_send_time_ms = 1000,
     cc_latest_rtt_ms = 0, cc_latest_fraction_lost = 0\<rparr>"

theorem cc_feedback_aimd_witness:
  "\<exists>s'. tinyrtc_cc_report_feedback 100 6 cc_example = Some s' \<and> unat (cc_target_bitrate_bps s') = 1000000"
  using cc_feedback_aimd [of tinyrtc_cc_get_default_config cc_example 100 6]
  by (simp add: cc_inv_def cc_sane_def cc_example_def tinyrtc_cc_get_default_config_def)

text \<open>Outside a sane configuration the increase is lost to wrap-around: with the maximum at
  \<open>2 ^ 32 - 1\<close> and the target within the increase of it, loss-free feedback drops the target to
  the minimum.\<close>
theorem cc_increase_wraps:
  assumes "cc_config s = \<lparr>cc_min_bitrate_bps = 500000, cc_max_bitrate_bps = - 1, cc_initial_bitrate_bps = i, cc_enable_pacing = p\<rparr>"
    and "2 ^ 32 - 100000 \<le> unat (cc_target_bitrate_bps s)" and "unat fraction_lost < 6"
  shows "\<exists>s'. tinyrtc_cc_report_feedback 0 fraction_lost s = Some s' \<and> cc_target_bitrate_bps s' = 500000"
proof -
  define s1 where "s1 = s\<lparr>cc_latest_rtt_ms := u32_to_double 0,
    cc_latest_fraction_lost := rnd (of_nat (unat fraction_lost) / 256)\<rparr>"
  define sum where "sum = cc_target_bitrate_bps s1 + 100000"
  have l: "\<not> LOSS_THRESHOLD < cc_latest_fraction_lost s1"
    using cc_loss [of fraction_lost] assms(3) by (simp add: s1_def)
  have inc: "cc_increase (cc_latest_rtt_ms s1) = Some 100000"
    by (simp add: s1_def cc_increase_def u32_to_double_def TINYRTC_CC_ADD_INCREASE_def)
  have "unat sum = unat (cc_target_bitrate_bps s) + 100000 - 2 ^ 32"
    using assms(2) unat_less [of "cc_target_bitrate_bps s"]
    by (simp add: sum_def s1_def unat_word_ariths mod_if)
  then have "sum < 500000"
    using unat_less [of "cc_target_bitrate_bps s"] by (simp add: word_less_nat_alt)
  moreover have "\<not> sum > - 1" by (simp add: not_less)
  moreover obtain w where "cc_average (cc_estimated_bandwidth_bps s1) sum = Some w"
    using cc_average_bounds by blast
  ultimately show ?thesis
    unfolding tinyrtc_cc_report_feedback_def s1_def [symmetric] Let_def
    using l assms(1) by (simp add: inc sum_def [symmetric]) (simp add: s1_def cc_clamp_def)
qed

theorem cc_increase_wraps_witness:
  "\<exists>s'. tinyrtc_cc_report_feedback 0 0 (cc_example\<lparr>cc_target_bitrate_bps := 4294967000,
      cc_config := \<lparr>cc_min_bitrate_bps = 500000, cc_max_bitrate_bps = - 1, cc_initial_bitrate_bps = 0, cc_enable_pacing = True\<rparr>\<rparr>)
    = Some s' \<and> cc_target_bitrate_bps s' = 500000"
  by (rule cc_increase_wraps) (simp_all add: cc_example_def)

text \<open>C20: pacing is exact.  For packets of at most 65535 bytes the pacer sends at once when pacing is
  off or not yet started, refuses while the next send time is ahead, and otherwise sends and moves
  the next send time by the packet's transmission time in whole milliseconds, rounded down:
  \<open>8000 * sz\<close> over the target bitrate.\<close>
theorem cc_pacing_exact:
  assumes "unat sz \<le> 65535"
  shows "\<exists>ok s'. tinyrtc_cc_can_send sz now s = Some (ok, s') \<and>
     (ok \<longleftrightarrow> \<not> cc_enable_pacing (cc_config s) \<or> cc_pacing_next_send_time_ms s = 0
          \<or> cc_pacing_next_send_time_ms s \<le> now) \<and>
     (\<not> ok \<longrightarrow> s' = s) \<and>
     (ok \<and> cc_enable_pacing (cc_config s) \<and> cc_pacing_next_send_time_ms s \<noteq> 0 \<longrightarrow>
        cc_pacing_next_send_time_ms s' =
          now + word_of_nat (8000 * unat sz div max 1 (unat (cc_target_bitrate_bps s))))"
proof -
  obtain w :: u32 where w: "tinyrtc_cc_can_send sz now s =
      (if \<not> cc_enable_pacing (cc_config s) then Some (True, s)
       else if cc_pacing_next_send_time_ms s = 0 then
         Some (True, s\<lparr>cc_pacing_next_send_time_ms := now, cc_bytes_this_interval := 0\<rparr>)
       else if now < cc_pacing_next_send_time_ms s then Some (False, s)
       else Some (True, s\<lparr>cc_pacing_next_send_time_ms := now + ucast w,
              cc_bytes_this_interval := cc_bytes_this_interval s + ucast sz\<rparr>))"
    and uw: "unat w = unat sz * 8 * 1000 div max 1 (unat (cc_target_bitrate_bps s))"
    using cc_can_send_cases [OF assms] by metis
  have c: "unat w = 8000 * unat sz div max 1 (unat (cc_target_bitrate_bps s))"
    unfolding uw by (simp add: mult.commute)
  have "(ucast w :: u64) = word_of_nat (unat w)" by simp
  then have "(ucast w :: u64) = word_of_nat (8000 * unat sz div max 1 (unat (cc_target_bitrate_bps s)))"
    unfolding c .
  then show ?thesis unfolding w by (auto simp: not_less)
qed

theorem cc_pacing_exact_witness:
  "\<exists>s'. tinyrtc_cc_can_send 1200 1000 cc_example = Some (True, s') \<and> cc_pacing_next_send_time_ms s' = 1004"
  using cc_pacing_exact [of 1200 1000 cc_example]
  by (auto simp: cc_example_def tinyrtc_cc_get_default_config_def)

end
