(* ===== verification/C_String.thy ===== *)
theory C_String
  imports TinyRTC_Prelude
begin

text \<open>
  The C string functions the program uses.  A C string is the list of the characters before its
  \<^verbatim>\<open>NUL\<close>; a pointer into it is the rest of the list, so \<^verbatim>\<open>*p\<close> is \<^verbatim>\<open>NUL\<close> for the empty list.  A
  \<^verbatim>\<open>char\<close> array of \<open>n\<close> bytes holds a string of fewer than \<open>n\<close> characters.
\<close>

named_theorems text_simps \<open>reading back printed text\<close>

section \<open>Characters\<close>

definition c_isdigit :: "char \<Rightarrow> bool" where
  "c_isdigit c \<longleftrightarrow> 48 \<le> (of_char c :: nat) \<and> (of_char c :: nat) \<le> 57"

definition c_isspace :: "char \<Rightarrow> bool" where
  "c_isspace c \<longleftrightarrow> (of_char c :: nat) = 32 \<or> (9 \<le> (of_char c :: nat) \<and> (of_char c :: nat) \<le> 13)"

definition c_tolower :: "char \<Rightarrow> char" where
  "c_tolower c = (if 65 \<le> (of_char c :: nat) \<and> (of_char c :: nat) \<le> 90 then char_of ((of_char c :: nat) + 32) else c)"

definition digit_val :: "char \<Rightarrow> nat" where
  "digit_val c = of_char c - 48"

definition digit_char :: "nat \<Rightarrow> char" where
  "digit_char d = char_of (48 + d)"

lemma digit_char_val: "d < 10 \<Longrightarrow> digit_val (digit_char d) = d"
  by (simp add: digit_val_def digit_char_def of_char_of take_bit_nat_eq_self)

lemma digit_char_isdigit [simp]: "d < 10 \<Longrightarrow> c_isdigit (digit_char d)"
  by (simp add: c_isdigit_def digit_char_def of_char_of take_bit_nat_eq_self)

lemma c_isdigit_char [simp]:
  "\<not> c_isdigit CHR '' ''" "\<not> c_isdigit CHR ''-''" "\<not> c_isdigit CHR ''+''" "\<not> c_isdigit CHR ''/''"
  "\<not> c_isdigit CHR '':''" "\<not> c_isdigit CHR ''.''" "\<not> c_isdigit CHR 0x0D" "\<not> c_isdigit CHR 0x0A"
  by (simp_all add: c_isdigit_def)

lemma c_isdigit_not:
  "c_isdigit c \<Longrightarrow> \<not> c_isspace c \<and> c \<noteq> CHR ''-'' \<and> c \<noteq> CHR ''+'' \<and> c \<noteq> CHR '' '' \<and> c \<noteq> CHR 0x0A \<and> c \<noteq> CHR 0x0D
     \<and> c \<noteq> CHR 0x09 \<and> c \<noteq> CHR ''/'' \<and> c \<noteq> CHR '':''"
  by (auto simp: c_isdigit_def c_isspace_def)

section \<open>Printing numbers\<close>

fun show_nat :: "nat \<Rightarrow> string" where
  "show_nat n = (if n < 10 then [digit_char n] else show_nat (n div 10) @ [digit_char (n mod 10)])"

declare show_nat.simps [simp del]

lemma digit_char_literals [simp]:
  "digit_char 0 = CHR ''0''" "digit_char 1 = CHR ''1''" "digit_char (Suc 0) = CHR ''1''" "digit_char 2 = CHR ''2''"
  "digit_char 3 = CHR ''3''" "digit_char 4 = CHR ''4''" "digit_char 5 = CHR ''5''" "digit_char 6 = CHR ''6''"
  "digit_char 7 = CHR ''7''" "digit_char 8 = CHR ''8''" "digit_char 9 = CHR ''9''"
  by (simp_all add: digit_char_def char_of_def bit_Suc_0_iff)

text \<open>\<^verbatim>\<open>%d\<close> and \<^verbatim>\<open>%u\<close>, \<^verbatim>\<open>%llu\<close>.\<close>

definition show_int :: "int \<Rightarrow> string" where
  "show_int i = (if i < 0 then CHR ''-'' # show_nat (nat (- i)) else show_nat (nat i))"

definition show_word :: "'a::len word \<Rightarrow> string" where
  "show_word w = show_nat (unat w)"

text \<open>Evaluates printed numbers on literals.\<close>

lemmas show_eval = show_int_def show_word_def show_nat.simps

lemma show_nat_digits: "c \<in> set (show_nat n) \<Longrightarrow> c_isdigit c"
proof (induction n rule: show_nat.induct)
  case (1 n)
  then show ?case by (cases "n < 10") (auto simp: show_nat.simps [of n])
qed

lemma show_nat_nonempty [simp]: "show_nat n \<noteq> []"
  by (subst show_nat.simps) simp

lemma length_show_nat: "n < 10 ^ k \<Longrightarrow> 0 < k \<Longrightarrow> length (show_nat n) \<le> k"
proof (induction n arbitrary: k rule: show_nat.induct)
  case (1 n)
  show ?case
  proof (cases "n < 10")
    case True
    with "1.prems" show ?thesis by (subst show_nat.simps) simp
  next
    case False
    with "1.prems" obtain j where k: "k = Suc (Suc j)"
      by (metis One_nat_def Suc_pred not_gr_zero power_one_right)
    from "1.prems"(1) have "n div 10 < 10 ^ Suc j" by (simp add: k div_less_iff_less_mult)
    from "1.IH" [OF False this] False show ?thesis by (subst show_nat.simps) (simp add: k)
  qed
qed

section \<open>Reading numbers\<close>

text \<open>The digits at the start of a string: their value after \<open>acc\<close>, how many, and the rest.\<close>

fun scan_digits :: "nat \<Rightarrow> string \<Rightarrow> nat \<times> string" where
  "scan_digits acc [] = (acc, [])"
| "scan_digits acc (c # cs) =
     (if c_isdigit c then scan_digits (10 * acc + digit_val c) cs else (acc, c # cs))"

fun skip_c_space :: "string \<Rightarrow> string" where
  "skip_c_space [] = []"
| "skip_c_space (c # cs) = (if c_isspace c then skip_c_space cs else c # cs)"

text \<open>
  The number at the start of a string as \<^verbatim>\<open>strtol\<close> and \<^verbatim>\<open>strtoull\<close> see it: sign, magnitude and
  rest; \<open>None\<close> when there is none (\<^verbatim>\<open>end == str\<close>).
\<close>

definition scan_number :: "string \<Rightarrow> (bool \<times> nat \<times> string) option" where
  "scan_number s =
     (let t = skip_c_space s;
          (neg, u) = (case t of
             [] \<Rightarrow> (False, [])
           | c # cs \<Rightarrow> if c = CHR ''-'' then (True, cs) else if c = CHR ''+'' then (False, cs) else (False, c # cs)) in
      case u of
        [] \<Rightarrow> None
      | c # cs \<Rightarrow> if c_isdigit c then (case scan_digits 0 u of (n, rest) \<Rightarrow> Some (neg, n, rest)) else None)"

definition strtol :: "string \<Rightarrow> (int \<times> string) option" where
  "strtol s =
     (case scan_number s of
        None \<Rightarrow> None
      | Some (neg, n, rest) \<Rightarrow>
          Some (if neg then max (- (2 ^ 63)) (- int n) else min (2 ^ 63 - 1) (int n), rest))"

definition strtoull :: "string \<Rightarrow> (u64 \<times> string) option" where
  "strtoull s =
     (case scan_number s of
        None \<Rightarrow> None
      | Some (neg, n, rest) \<Rightarrow>
          Some (if 2 ^ 64 \<le> n then - 1 else if neg then - word_of_nat n else word_of_nat n, rest))"

text \<open>Conversion of a \<^verbatim>\<open>long\<close> to \<^verbatim>\<open>int\<close> keeps the low 32 bits; \<^verbatim>\<open>atoi\<close> is \<^verbatim>\<open>(int)strtol\<close>, 0 without a number.\<close>

definition to_int32 :: "int \<Rightarrow> int" where
  "to_int32 i = signed_take_bit 31 i"

definition atoi :: "string \<Rightarrow> int" where
  "atoi s = (case strtol s of None \<Rightarrow> 0 | Some (v, _) \<Rightarrow> to_int32 v)"

definition number_ends :: "string \<Rightarrow> bool" where
  "number_ends rest \<longleftrightarrow> (case rest of [] \<Rightarrow> True | c # _ \<Rightarrow> \<not> c_isdigit c)"

lemma number_ends_simps [simp]: "number_ends []" "number_ends (c # cs) \<longleftrightarrow> \<not> c_isdigit c"
  by (simp_all add: number_ends_def)

lemma scan_digits_append:
  "(\<forall>c \<in> set ds. c_isdigit c) \<Longrightarrow> number_ends rest \<Longrightarrow>
   scan_digits acc (ds @ rest) = (fst (scan_digits acc ds), rest)"
proof (induction ds arbitrary: acc)
  case Nil
  then show ?case by (cases rest) (simp_all add: number_ends_def)
qed simp

lemma fst_scan_digits_append:
  "(\<forall>c \<in> set ds. c_isdigit c) \<Longrightarrow>
   fst (scan_digits acc (ds @ [d])) =
     (if c_isdigit d then 10 * fst (scan_digits acc ds) + digit_val d else fst (scan_digits acc ds))"
  by (induction ds arbitrary: acc) simp_all

lemma fst_scan_digits_show_nat: "fst (scan_digits 0 (show_nat n)) = n"
proof (induction n rule: show_nat.induct)
  case (1 n)
  show ?case
  proof (cases "n < 10")
    case True
    then show ?thesis by (subst show_nat.simps) (simp add: digit_char_val)
  next
    case False
    with "1.IH" show ?thesis
      by (subst show_nat.simps)
        (simp add: fst_scan_digits_append digit_char_val show_nat_digits)
  qed
qed

lemma scan_digits_show_nat [text_simps]: "number_ends rest \<Longrightarrow> scan_digits 0 (show_nat n @ rest) = (n, rest)"
  by (simp add: scan_digits_append show_nat_digits fst_scan_digits_show_nat)

lemma show_nat_Cons: obtains c cs where "show_nat n = c # cs" and "c_isdigit c"
proof -
  obtain c cs where "show_nat n = c # cs" by (cases "show_nat n") auto
  with that show_nat_digits [of c n] show ?thesis by simp
qed

lemma scan_number_show_nat [text_simps]:
  assumes "number_ends rest"
  shows "scan_number (show_nat n @ rest) = Some (False, n, rest)"
proof -
  obtain c cs where c: "show_nat n = c # cs" "c_isdigit c" by (rule show_nat_Cons)
  with scan_digits_show_nat [OF assms, of n] c_isdigit_not [OF c(2)] show ?thesis
    by (simp add: scan_number_def Let_def del: scan_digits.simps)
qed

lemma scan_number_show_neg [text_simps]:
  assumes "number_ends rest"
  shows "scan_number (CHR ''-'' # show_nat n @ rest) = Some (True, n, rest)"
proof -
  obtain c cs where c: "show_nat n = c # cs" "c_isdigit c" by (rule show_nat_Cons)
  have s: "\<not> c_isspace CHR ''-''" by (simp add: c_isspace_def)
  from c scan_digits_show_nat [OF assms, of n] s show ?thesis
    by (simp add: scan_number_def Let_def del: scan_digits.simps)
qed

lemma strtol_show_int [text_simps]:
  assumes "- (2 ^ 31) \<le> i" and "i < 2 ^ 31" and "number_ends rest"
  shows "strtol (show_int i @ rest) = Some (i, rest)"
  using assms by (auto simp: strtol_def show_int_def text_simps)

lemma to_int32_id: "- (2 ^ 31) \<le> i \<Longrightarrow> i < 2 ^ 31 \<Longrightarrow> to_int32 i = i"
  unfolding to_int32_def by (rule signed_take_bit_int_eq_self) simp_all

lemma strtoull_show_word [text_simps]:
  "number_ends rest \<Longrightarrow> strtoull (show_word (w :: u64) @ rest) = Some (w, rest)"
  using unat_less [of w] by (simp add: strtoull_def show_word_def text_simps)

section \<open>Strings\<close>

definition strcasecmp_eq :: "string \<Rightarrow> string \<Rightarrow> bool" where
  "strcasecmp_eq a b \<longleftrightarrow> map c_tolower a = map c_tolower b"

text \<open>\<^verbatim>\<open>strncpy(dst, src, sizeof(dst) - 1)\<close> into a zeroed array of \<open>n\<close> bytes.\<close>

definition strncpy_into :: "nat \<Rightarrow> string \<Rightarrow> string" where
  "strncpy_into n src = take (n - 1) src"

lemma length_strncpy_into: "0 < n \<Longrightarrow> length (strncpy_into n src) < n"
  by (simp add: strncpy_into_def)

definition string_bytes :: "string \<Rightarrow> bytes" where
  "string_bytes s = map of_char s"

lemma length_string_bytes [simp]: "length (string_bytes s) = length s"
  by (simp add: string_bytes_def)

definition bytes_string :: "bytes \<Rightarrow> string" where
  "bytes_string bs = map (\<lambda>b. char_of (unat b)) bs"

lemma bytes_string_of_string [simp]: "bytes_string (string_bytes s) = s"
proof -
  have "char_of (unat (of_char c :: u8)) = c" for c
  proof -
    have "unat (of_char c :: u8) = unat (word_of_nat (of_char c) :: u8)" by (simp add: of_nat_of_char)
    also have "\<dots> = of_char c" by (simp add: unat_of_nat)
    finally show ?thesis by simp
  qed
  then show ?thesis by (simp add: bytes_string_def string_bytes_def comp_def)
qed

text \<open>The suffix after the first occurrence of a character (\<^verbatim>\<open>strchr\<close>), with what is before it.\<close>

fun split_at_char :: "char \<Rightarrow> string \<Rightarrow> (string \<times> string) option" where
  "split_at_char x [] = None"
| "split_at_char x (c # cs) =
     (if c = x then Some ([], cs) else map_option (\<lambda>(a, b). (c # a, b)) (split_at_char x cs))"

text \<open>\<^verbatim>\<open>inet_ntop\<close> of an IPv4 address in host byte order.\<close>

definition inet_ntop :: "u32 \<Rightarrow> string" where
  "inet_ntop ip =
     show_word (ucast (drop_bit 24 ip) :: u8) @ ''.'' @ show_word (ucast (drop_bit 16 ip) :: u8) @ ''.''
     @ show_word (ucast (drop_bit 8 ip) :: u8) @ ''.'' @ show_word (ucast ip :: u8)"

lemma length_show_byte: "length (show_word (b :: u8)) \<le> 3"
  using unat_less [of b] unfolding show_word_def by (intro length_show_nat) simp_all

lemma length_inet_ntop: "length (inet_ntop ip) < 16"
  using length_show_byte [of "ucast (drop_bit 24 ip)"] length_show_byte [of "ucast (drop_bit 16 ip)"]
    length_show_byte [of "ucast (drop_bit 8 ip)"] length_show_byte [of "ucast ip"]
  by (simp add: inet_ntop_def)

lemma inet_ntop_nonempty: "inet_ntop ip \<noteq> []"
  by (simp add: inet_ntop_def)

text \<open>
  \<^verbatim>\<open>inet_pton\<close> for IPv4: four decimal numbers up to 255 without leading zeros, separated by dots.
\<close>

definition inet_octet :: "string \<Rightarrow> (u32 \<times> string) option" where
  "inet_octet s =
     (case scan_digits 0 s of
        (v, rest) \<Rightarrow> if v \<le> 255 \<and> s = show_nat v @ rest then Some (word_of_nat v, rest) else None)"

definition inet_dot :: "string \<Rightarrow> string option" where
  "inet_dot s = (case s of [] \<Rightarrow> None | c # cs \<Rightarrow> if c = CHR ''.'' then Some cs else None)"

definition inet_pton :: "string \<Rightarrow> u32 option" where
  "inet_pton s = do {
     (a, s) \<leftarrow> inet_octet s;
     s \<leftarrow> inet_dot s;
     (b, s) \<leftarrow> inet_octet s;
     s \<leftarrow> inet_dot s;
     (c, s) \<leftarrow> inet_octet s;
     s \<leftarrow> inet_dot s;
     (d, s) \<leftarrow> inet_octet s;
     if s = [] then Some (push_bit 24 a OR push_bit 16 b OR push_bit 8 c OR d) else None
   }"

lemma inet_octet_show [text_simps]:
  "number_ends rest \<Longrightarrow> inet_octet (show_word (b :: u8) @ rest) = Some (ucast b, rest)"
  using unat_less [of b] by (simp add: inet_octet_def show_word_def text_simps)

lemma inet_dot_show [text_simps]: "inet_dot (CHR ''.'' # rest) = Some rest"
  by (simp add: inet_dot_def)

lemma inet_pton_ntop [text_simps]: "inet_pton (inet_ntop ip) = Some ip"
  using inet_octet_show [of "[]" "ucast ip"]
  by (simp add: inet_pton_def inet_ntop_def inet_octet_show inet_dot_show join32)

end
