(* ===== verification/Stun.thy ===== *)
theory Stun
  imports Interfaces C_String
begin

text \<open>
  STUN messages, \<^verbatim>\<open>src/ice/stun.c\<close>.  Messages are byte lists; \<^verbatim>\<open>stun_header_t\<close> is their first 20
  bytes, its fields in network byte order.  Arguments of the definitions stand for what the code
  calls: \<open>hmac key msg\<close> is mbedtls' HMAC-SHA1 (\<open>None\<close> when it fails), \<open>now\<close> the clock, and for a
  request the outcome of \<^verbatim>\<open>getaddrinfo\<close> and \<^verbatim>\<open>sendto\<close>.  An address is the IPv4 address and port
  in host byte order.
\<close>

type_synonym sockaddr = "u32 \<times> u16"
type_synonym mac = "bytes \<Rightarrow> bytes \<Rightarrow> bytes option"

definition STUN_MAGIC_COOKIE :: u32 where "STUN_MAGIC_COOKIE = 0x2112A442"
definition STUN_BINDING_REQUEST :: u16 where "STUN_BINDING_REQUEST = 0x0001"
definition STUN_BINDING_RESPONSE :: u16 where "STUN_BINDING_RESPONSE = 0x0101"
definition STUN_ATTR_MAPPED_ADDRESS :: u16 where "STUN_ATTR_MAPPED_ADDRESS = 0x0001"
definition STUN_ATTR_MESSAGE_INTEGRITY :: u16 where "STUN_ATTR_MESSAGE_INTEGRITY = 0x0008"
definition STUN_ATTR_XOR_MAPPED_ADDRESS :: u16 where "STUN_ATTR_XOR_MAPPED_ADDRESS = 0x0020"
definition STUN_ATTR_FINGERPRINT :: u16 where "STUN_ATTR_FINGERPRINT = 0x8028"
definition INET_ADDRSTRLEN :: nat where "INET_ADDRSTRLEN = 16"

lemmas stun_constants =
  STUN_MAGIC_COOKIE_def STUN_BINDING_REQUEST_def STUN_BINDING_RESPONSE_def STUN_ATTR_MAPPED_ADDRESS_def
  STUN_ATTR_MESSAGE_INTEGRITY_def STUN_ATTR_XOR_MAPPED_ADDRESS_def STUN_ATTR_FINGERPRINT_def INET_ADDRSTRLEN_def

section \<open>Checksums and headers\<close>

definition stun_crc_bit :: "u32 \<Rightarrow> u32" where
  "stun_crc_bit crc = drop_bit 1 crc XOR (0xEDB88320 AND - (crc AND 1))"

definition stun_crc_byte :: "u8 \<Rightarrow> u32 \<Rightarrow> u32" where
  "stun_crc_byte b crc = (stun_crc_bit ^^ 8) (crc XOR ucast b)"

definition stun_crc32 :: "bytes \<Rightarrow> u32" where
  "stun_crc32 data = NOT (fold stun_crc_byte data 0xFFFFFFFF)"

definition stun_validate_header :: "bytes \<Rightarrow> bool option" where
  "stun_validate_header data = do {
     cookie \<leftarrow> rd32 data 4;
     if cookie \<noteq> STUN_MAGIC_COOKIE then Some False
     else do {
       len \<leftarrow> rd16 data 2;
       Some (\<not> len > 1500)
     }
   }"

text \<open>The transaction id made of the clock in milliseconds (stun.c 126 to 142, ice.c 523 to 537).\<close>

definition stun_transaction_id :: "u64 \<Rightarrow> bytes" where
  "stun_transaction_id now = wr64 now @ take 4 (wr64 (now * 31337))"

definition stun_header :: "u16 \<Rightarrow> u16 \<Rightarrow> bytes \<Rightarrow> bytes" where
  "stun_header msg_type len transaction_id = wr16 msg_type @ wr16 len @ wr32 STUN_MAGIC_COOKIE @ transaction_id"

text \<open>
  \<^verbatim>\<open>stun_send_binding_request\<close>: the result, the transaction id stored in the session and the
  datagram handed to the socket with its destination.  \<open>resolved\<close> is what \<^verbatim>\<open>getaddrinfo\<close> finds,
  \<open>sent_ok\<close> says that \<^verbatim>\<open>sendto\<close> does not fail.
\<close>

definition stun_send_binding_request ::
  "u64 \<Rightarrow> sockaddr option \<Rightarrow> bool \<Rightarrow> tinyrtc_error \<times> bytes \<times> (sockaddr \<times> bytes) option" where
  "stun_send_binding_request now resolved sent_ok =
     (let tid = stun_transaction_id now in
      case resolved of
        None \<Rightarrow> (TINYRTC_ERROR_NETWORK, tid, None)
      | Some addr \<Rightarrow>
          (if sent_ok then TINYRTC_OK else TINYRTC_ERROR_NETWORK, tid,
           Some (addr, stun_header STUN_BINDING_REQUEST 0 tid)))"

section \<open>Processing a response\<close>

text \<open>
  What the attribute loop has written: the mapped address (\<open>Some\<close> exactly when the code has set
  \<^verbatim>\<open>found_mapped\<close>) and the mapped port.
\<close>

type_synonym mapped = "string option \<times> u16 option"

definition stun_attribute :: "bytes \<Rightarrow> nat \<Rightarrow> nat \<Rightarrow> u16 \<Rightarrow> u16 \<Rightarrow> mapped \<Rightarrow> mapped option" where
  "stun_attribute data mapped_addr_len p attr_type attr_len m =
     (if attr_type = STUN_ATTR_XOR_MAPPED_ADDRESS then
        if attr_len < 4 then Some m
        else do {
          family \<leftarrow> rd8 data (p + 1);
          port_xor \<leftarrow> rd16 data (p + 2);
          let port = (port_xor XOR ucast (drop_bit 16 STUN_MAGIC_COOKIE)) AND 0xFFFF;
          if family = 0x01 then
            if attr_len \<noteq> 8 then Some (fst m, Some port)
            else do {
              ip_xor \<leftarrow> rd32 data (p + 4);
              if INET_ADDRSTRLEN \<le> mapped_addr_len
              then Some (Some (inet_ntop (ip_xor XOR STUN_MAGIC_COOKIE)), Some port)
              else Some (fst m, Some port)
            }
          else Some (fst m, Some port)
        }
      else if attr_type = STUN_ATTR_MAPPED_ADDRESS then
        if attr_len < 4 then Some m
        else do {
          family \<leftarrow> rd8 data (p + 1);
          port \<leftarrow> rd16 data (p + 2);
          if family = 0x01 then
            if attr_len \<noteq> 8 then Some (fst m, Some port)
            else do {
              ip \<leftarrow> rd32 data (p + 4);
              if INET_ADDRSTRLEN \<le> mapped_addr_len
              then Some (Some (inet_ntop ip), Some port)
              else Some (fst m, Some port)
            }
          else Some (fst m, Some port)
        }
      else Some m)"

definition stun_padded :: "u16 \<Rightarrow> nat" where
  "stun_padded attr_len = (unat attr_len + 3) div 4 * 4"

function stun_attributes :: "bytes \<Rightarrow> nat \<Rightarrow> nat \<Rightarrow> nat \<Rightarrow> mapped \<Rightarrow> mapped option" where
  "stun_attributes data mapped_addr_len endp p m =
     (if \<not> p < endp then Some m
      else if p + 4 > endp then Some m
      else do {
        attr_type \<leftarrow> rd16 data p;
        attr_len \<leftarrow> rd16 data (p + 2);
        if p + 4 + stun_padded attr_len > endp then Some m
        else do {
          m' \<leftarrow> stun_attribute data mapped_addr_len (p + 4) attr_type attr_len m;
          stun_attributes data mapped_addr_len endp (p + 4 + stun_padded attr_len) m'
        }
      })"
  by pat_completeness auto
termination
  by (relation "measure (\<lambda>(d, n, e, p, m). e - p)") auto

declare stun_attributes.simps [simp del]

definition stun_process_response :: "bytes \<Rightarrow> nat \<Rightarrow> (tinyrtc_error \<times> mapped) option" where
  "stun_process_response data mapped_addr_len =
     (if length data < 20 then Some (TINYRTC_ERROR, None, None)
      else do {
        valid \<leftarrow> stun_validate_header data;
        if \<not> valid then Some (TINYRTC_ERROR, None, None)
        else do {
          msg_type \<leftarrow> rd16 data 0;
          msg_len \<leftarrow> rd16 data 2;
          if msg_type \<noteq> STUN_BINDING_RESPONSE then Some (TINYRTC_ERROR, None, None)
          else do {
            m \<leftarrow> stun_attributes data mapped_addr_len (20 + unat msg_len) 20 (None, None);
            Some (if fst m = None then TINYRTC_ERROR else TINYRTC_OK, m)
          }
        }
      })"

section \<open>Creating messages\<close>

definition stun_set_length :: "bytes \<Rightarrow> nat \<Rightarrow> bytes" where
  "stun_set_length msg n = take 2 msg @ wr16 (word_of_nat n) @ drop 4 msg"

text \<open>
  \<^verbatim>\<open>stun_finalize_message\<close> on the message so far (\<^verbatim>\<open>*len\<close> bytes of a buffer of \<open>buf_size\<close>).  The
  hash is taken over the message with its MESSAGE-INTEGRITY attribute, the hash field zero; the
  checksum over the message with the header of its FINGERPRINT attribute.
\<close>

definition stun_finalize_message :: "mac \<Rightarrow> bytes \<Rightarrow> nat \<Rightarrow> bytes \<Rightarrow> tinyrtc_error + bytes" where
  "stun_finalize_message hmac msg buf_size password =
     (let len = length msg in
      if len + 24 + 8 > buf_size then Inl TINYRTC_ERROR_MEMORY
      else
        (let zeroed = stun_set_length (msg @ wr16 STUN_ATTR_MESSAGE_INTEGRITY @ wr16 20 @ replicate 20 0)
                        (len + 24 - 20) in
         case hmac password zeroed of
           None \<Rightarrow> Inl TINYRTC_ERROR
         | Some h \<Rightarrow>
             (let signed = take (len + 4) zeroed @ take 20 h;
                  sized = stun_set_length (signed @ wr16 STUN_ATTR_FINGERPRINT @ wr16 4)
                            (len + 24 + 8 - 20) in
              Inr (sized @ wr32 (stun_crc32 sized XOR 0x5354554E)))))"

definition stun_create_binding_response ::
  "mac \<Rightarrow> nat \<Rightarrow> bytes \<Rightarrow> sockaddr option \<Rightarrow> bytes option \<Rightarrow> bytes" where
  "stun_create_binding_response hmac buf_size transaction_id mapped_addr password =
     (let head = stun_header STUN_BINDING_RESPONSE 0 transaction_id;
          msg = (case mapped_addr of
            None \<Rightarrow> head
          | Some (ip, port) \<Rightarrow>
              if buf_size \<ge> 20 + 12 then
                head @ wr16 STUN_ATTR_XOR_MAPPED_ADDRESS @ wr16 8 @ [0, 0x01]
                  @ wr16 (port XOR ucast (drop_bit 16 STUN_MAGIC_COOKIE)) @ wr32 (ip XOR STUN_MAGIC_COOKIE)
              else head) in
      case stun_finalize_message hmac msg buf_size (case password of None \<Rightarrow> [] | Some w \<Rightarrow> w) of
        Inl _ \<Rightarrow> []
      | Inr m \<Rightarrow> m)"

section \<open>Safety\<close>

lemma stun_attribute_safe [mem_safe]:
  assumes "p + unat attr_len \<le> length data"
  shows "\<exists>m'. stun_attribute data n p t attr_len m = Some m'"
proof (cases "attr_len < 4")
  case False
  then have "4 \<le> unat attr_len" by (simp add: word_less_nat_alt)
  with assms have l: "p + 4 \<le> length data" by simp
  have r: "rd8 data (p + 1) = Some (data ! (p + 1))" by (rule rd8_Some) (use l in simp)
  obtain v where v: "rd16 data (p + 2) = Some v" using be16.dec_in_bounds [of "p + 2" data] l by auto
  have w: "\<exists>w. rd32 data (p + 4) = Some w" if "attr_len = 8"
    using be32.dec_in_bounds [of "p + 4" data] assms that by simp
  show ?thesis
    using False r v w by (auto simp: stun_attribute_def Let_def)
qed (simp add: stun_attribute_def)

lemma stun_padded_ge: "unat attr_len \<le> stun_padded attr_len"
  unfolding stun_padded_def by presburger

lemma stun_attributes_safe:
  "endp \<le> length data \<Longrightarrow> \<exists>m'. stun_attributes data n endp p m = Some m'"
proof (induction data n endp p m rule: stun_attributes.induct)
  case (1 data n endp p m)
  show ?case
  proof (cases "p < endp \<and> p + 4 \<le> endp")
    case False
    then show ?thesis by (subst stun_attributes.simps) auto
  next
    case True
    with "1.prems" have l: "p + 2 \<le> length data" "p + 2 + 2 \<le> length data" by simp_all
    obtain t where t: "rd16 data p = Some t" using be16.dec_in_bounds [OF l(1)] by blast
    obtain a where a: "rd16 data (p + 2) = Some a" using be16.dec_in_bounds [OF l(2)] by blast
    show ?thesis
    proof (cases "p + 4 + stun_padded a > endp")
      case True
      with t a show ?thesis by (subst stun_attributes.simps) simp
    next
      case False
      then have "p + 4 + unat a \<le> length data"
        using stun_padded_ge [of a] "1.prems" by simp
      then obtain m' where m': "stun_attribute data n (p + 4) t a m = Some m'"
        using stun_attribute_safe by blast
      from "1.IH" [OF _ _ t a False m'] True "1.prems" obtain r where
        "stun_attributes data n endp (p + 4 + stun_padded a) m' = Some r" by auto
      with t a m' False True show ?thesis by (subst stun_attributes.simps) simp
    qed
  qed
qed

lemma stun_validate_header_safe:
  "20 \<le> length data \<Longrightarrow> \<exists>v. stun_validate_header data = Some v"
  using be32.dec_in_bounds [of 4 data] be16.dec_in_bounds [of 2 data]
  by (auto simp: stun_validate_header_def)

lemma stun_process_response_defined:
  assumes "20 \<le> length data" and "rd16 data 2 = Some l" and "20 + unat l \<le> length data"
  shows "\<exists>r. stun_process_response data n = Some r"
proof -
  obtain v where v: "stun_validate_header data = Some v"
    using stun_validate_header_safe [OF assms(1)] by blast
  obtain t where t: "rd16 data 0 = Some t"
    using be16.dec_in_bounds [of 0 data] assms(1) by auto
  obtain m where "stun_attributes data n (20 + unat l) 20 (None, None) = Some m"
    using stun_attributes_safe [OF assms(3)] by blast
  with v t assms(1,2) show ?thesis by (auto simp: stun_process_response_def)
qed

section \<open>The checksum\<close>

text \<open>A shift step can be undone: the top bit of the result is the bit shifted out.\<close>

lemma stun_crc_bit_31: "bit (stun_crc_bit c) 31 \<longleftrightarrow> bit c 0"
proof -
  have "bit (0xEDB88320 :: u32) 31" by simp
  moreover have "bit (- (c AND 1)) 31 = bit c 0"
    by (cases "bit c 0") (simp_all add: and_one_eq mod2_eq_if bit_0)
  moreover have "\<not> bit (drop_bit 1 c) 31"
    using bit_imp_le_length [of c 32] by (auto simp: bit_drop_bit_eq)
  ultimately show ?thesis unfolding stun_crc_bit_def by (simp only: bit_xor_iff bit_and_iff) simp
qed

lemma stun_crc_bit_inj: "stun_crc_bit c = stun_crc_bit d \<Longrightarrow> c = d"
proof -
  assume e: "stun_crc_bit c = stun_crc_bit d"
  then have b0: "bit c 0 = bit d 0" by (metis stun_crc_bit_31)
  then have "c AND 1 = d AND 1" by (simp add: and_one_eq mod2_eq_if bit_0)
  with e have "drop_bit 1 c = drop_bit 1 d"
    unfolding stun_crc_bit_def by (simp only: xor_right_cancel)
  then have s: "bit c (Suc n) = bit d (Suc n)" for n
    by (metis bit_drop_bit_eq comp_apply plus_1_eq_Suc)
  show "c = d"
  proof (rule bit_word_eqI)
    fix n show "bit c n = bit d n" using b0 s by (cases n) simp_all
  qed
qed

lemma stun_crc_bits_inj: "(stun_crc_bit ^^ n) c = (stun_crc_bit ^^ n) d \<Longrightarrow> c = d"
  by (induction n) (auto dest: stun_crc_bit_inj)

lemma stun_crc_byte_inj:
  "stun_crc_byte b c = stun_crc_byte b d \<longleftrightarrow> c = d"
  "stun_crc_byte a c = stun_crc_byte b c \<longleftrightarrow> a = b"
proof -
  show "stun_crc_byte b c = stun_crc_byte b d \<longleftrightarrow> c = d"
    unfolding stun_crc_byte_def using stun_crc_bits_inj xor_right_cancel by blast
  have "(ucast a :: u32) = ucast b \<Longrightarrow> a = b"
    by (metis unat_ucast_up(2) word_unat_eq_iff)
  then show "stun_crc_byte a c = stun_crc_byte b c \<longleftrightarrow> a = b"
    unfolding stun_crc_byte_def using stun_crc_bits_inj xor_left_cancel by blast
qed

lemma fold_stun_crc_byte_inj:
  "fold stun_crc_byte xs c = fold stun_crc_byte xs d \<longleftrightarrow> c = d"
  by (induction xs arbitrary: c d) (simp_all add: stun_crc_byte_inj)

section \<open>What a created message holds\<close>

lemma length_stun_header [size_simps]:
  "length tid = 12 \<Longrightarrow> length (stun_header t l tid) = 20"
  by (simp add: stun_header_def STUN_MAGIC_COOKIE_def)

lemma length_stun_set_length [simp, size_simps]: "4 \<le> length msg \<Longrightarrow> length (stun_set_length msg n) = length msg"
  by (simp add: stun_set_length_def)

lemma stun_set_length_append: "4 \<le> length msg \<Longrightarrow> stun_set_length (msg @ ys) n = stun_set_length msg n @ ys"
  by (simp add: stun_set_length_def)

lemma stun_set_length_twice: "4 \<le> length msg \<Longrightarrow> stun_set_length (stun_set_length msg m) n = stun_set_length msg n"
  by (simp add: stun_set_length_def)

lemma stun_set_length_header:
  "stun_set_length (stun_header t l tid @ ys) n = stun_header t (word_of_nat n) tid @ ys"
  by (simp add: stun_set_length_def stun_header_def wr16_def eval_nat_numeral)

text \<open>The finished message: the message with its final length, the hash and the checksum.\<close>

lemma stun_finalize_ok:
  assumes "4 \<le> length msg" and "length msg + 32 \<le> buf_size"
    and "hmac password (stun_set_length msg (length msg + 4) @ wr16 8 @ wr16 20 @ replicate 20 0) = Some h"
    and "length h = 20"
  defines "body \<equiv> stun_set_length msg (length msg + 12) @ wr16 8 @ wr16 20 @ h @ wr16 0x8028 @ wr16 4"
  shows "stun_finalize_message hmac msg buf_size password =
    Inr (body @ wr32 (stun_crc32 body XOR 0x5354554E))"
proof -
  have z: "stun_set_length (msg @ wr16 8 @ wr16 20 @ replicate 20 0) (length msg + 24 - 20) =
      stun_set_length msg (length msg + 4) @ wr16 8 @ wr16 20 @ replicate 20 0"
    using assms(1) by (simp add: stun_set_length_append add.commute)
  have t: "take (length msg + 4) (stun_set_length msg (length msg + 4) @ wr16 8 @ wr16 20 @ replicate 20 0) @ take 20 h
      = stun_set_length msg (length msg + 4) @ wr16 8 @ wr16 20 @ h"
    using assms(1,4) by simp
  have s: "stun_set_length ((stun_set_length msg (length msg + 4) @ wr16 8 @ wr16 20 @ h) @ wr16 0x8028 @ wr16 4)
      (length msg + 24 + 8 - 20) = body"
    using assms(1) by (simp add: stun_set_length_append stun_set_length_twice body_def add.commute)
  show ?thesis
    unfolding stun_finalize_message_def STUN_ATTR_MESSAGE_INTEGRITY_def STUN_ATTR_FINGERPRINT_def Let_def
      z assms(3) option.case t s
    using assms(2) by simp
qed

lemma stun_finalize_error:
  "stun_finalize_message hmac msg buf_size password = Inl e \<Longrightarrow>
   buf_size < length msg + 32 \<or>
   (\<exists>m. hmac password m = None)"
  by (auto simp: stun_finalize_message_def Let_def split: if_splits option.splits)

section \<open>Reading a created message back\<close>

lemma stun_attributes_step:
  assumes "data = pre @ wr16 t @ wr16 l @ body @ rest" and "length body = stun_padded l"
    and "length pre + 4 + length body \<le> endp"
  shows "stun_attributes data n endp (length pre) m =
    stun_attribute data n (length pre + 4) t l m \<bind> stun_attributes data n endp (length pre + 4 + length body)"
proof -
  have "rd16 data (length pre) = Some t" "rd16 data (length pre + 2) = Some l"
    unfolding assms(1) by (simp_all add: wire_simps)
  with assms(2,3) show ?thesis by (subst stun_attributes.simps) simp
qed

lemma stun_attributes_end: "stun_attributes data n endp endp m = Some m"
  by (subst stun_attributes.simps) simp

lemma stun_attribute_ignored:
  "t \<noteq> STUN_ATTR_XOR_MAPPED_ADDRESS \<Longrightarrow> t \<noteq> STUN_ATTR_MAPPED_ADDRESS \<Longrightarrow>
   stun_attribute data n p t l m = Some m"
  by (simp add: stun_attribute_def)

lemma stun_port_mask: "(v :: u16) AND 0xFFFF = v"
proof -
  have "(0xFFFF :: u16) = mask 16" by (simp add: mask_eq_exp_minus_1)
  then show ?thesis by (auto simp: bit_eq_iff bit_simps dest: bit_imp_le_length)
qed

lemma stun_attribute_xor_mapped:
  assumes "data = pre @ [0, 1] @ wr16 (port XOR ucast (drop_bit 16 STUN_MAGIC_COOKIE))
      @ wr32 (ip XOR STUN_MAGIC_COOKIE) @ rest"
    and "16 \<le> n"
  shows "stun_attribute data n (length pre) STUN_ATTR_XOR_MAPPED_ADDRESS 8 m = Some (Some (inet_ntop ip), Some port)"
proof -
  have "rd8 data (length pre + 1) = Some 1"
    "rd16 data (length pre + 2) = Some (port XOR ucast (drop_bit 16 STUN_MAGIC_COOKIE))"
    "rd32 data (length pre + 4) = Some (ip XOR STUN_MAGIC_COOKIE)"
    unfolding assms(1) by (simp_all add: wire_simps)
  with assms(2) show ?thesis
    by (simp add: stun_attribute_def Let_def stun_port_mask xor.assoc INET_ADDRSTRLEN_def)
qed

lemma stun_process_header:
  assumes "length tid = 12" and "l \<le> 1500"
  shows "stun_process_response (stun_header STUN_BINDING_RESPONSE l tid @ rest) n =
    map_option (\<lambda>m. (if fst m = None then TINYRTC_ERROR else TINYRTC_OK, m))
      (stun_attributes (stun_header STUN_BINDING_RESPONSE l tid @ rest) n (20 + unat l) 20 (None, None))"
proof -
  let ?d = "stun_header STUN_BINDING_RESPONSE l tid @ rest"
  have len: "\<not> length ?d < 20" using length_stun_header [OF assms(1)] by simp
  have r: "rd16 ?d 0 = Some STUN_BINDING_RESPONSE" "rd16 ?d 2 = Some l" "rd32 ?d 4 = Some STUN_MAGIC_COOKIE"
    by (simp_all add: stun_header_def wire_simps)
  have v: "stun_validate_header ?d = Some True"
    using r assms(2) by (simp add: stun_validate_header_def not_less)
  show ?thesis
    using len unfolding stun_process_response_def
    by (cases "stun_attributes ?d n (20 + unat l) 20 (None, None)") (simp_all add: r v)
qed

definition stun_response_body :: "u32 \<Rightarrow> u16 \<Rightarrow> bytes \<Rightarrow> bytes \<Rightarrow> bytes" where
  "stun_response_body ip port tid h =
     stun_header STUN_BINDING_RESPONSE 44 tid
     @ wr16 STUN_ATTR_XOR_MAPPED_ADDRESS @ wr16 8 @ [0, 1]
     @ wr16 (port XOR ucast (drop_bit 16 STUN_MAGIC_COOKIE)) @ wr32 (ip XOR STUN_MAGIC_COOKIE)
     @ wr16 STUN_ATTR_MESSAGE_INTEGRITY @ wr16 20 @ h @ wr16 STUN_ATTR_FINGERPRINT @ wr16 4"

lemma stun_response_bytes:
  assumes "length tid = 12" and "64 \<le> buf_size"
    and "\<And>k m. \<exists>h. hmac k m = Some h \<and> length h = 20"
  obtains h where "length h = 20" and
    "stun_create_binding_response hmac buf_size tid (Some (ip, port)) pw =
      stun_response_body ip port tid h @ wr32 (stun_crc32 (stun_response_body ip port tid h) XOR 0x5354554E)"
proof -
  define attr where "attr = wr16 STUN_ATTR_XOR_MAPPED_ADDRESS @ wr16 8 @ [0, 1]
    @ wr16 (port XOR ucast (drop_bit 16 STUN_MAGIC_COOKIE)) @ wr32 (ip XOR STUN_MAGIC_COOKIE)"
  define msg where "msg = stun_header STUN_BINDING_RESPONSE 0 tid @ attr"
  define key where "key = (case pw of None \<Rightarrow> [] | Some w \<Rightarrow> w)"
  have l: "length msg = 32" using assms(1) by (simp add: msg_def attr_def length_stun_header)
  have s: "stun_set_length msg (length msg + 12) = stun_header STUN_BINDING_RESPONSE 44 tid @ attr"
    using l by (simp add: msg_def stun_set_length_header)
  from assms(3) obtain h where
    h: "hmac key (stun_set_length msg (length msg + 4) @ wr16 8 @ wr16 20 @ replicate 20 0) = Some h" "length h = 20"
    by blast
  have "stun_create_binding_response hmac buf_size tid (Some (ip, port)) pw =
      (case stun_finalize_message hmac msg buf_size key of Inl _ \<Rightarrow> [] | Inr m \<Rightarrow> m)"
    using assms(2) by (simp add: stun_create_binding_response_def msg_def attr_def key_def)
  also have "\<dots> = (let body = stun_set_length msg (length msg + 12) @ wr16 8 @ wr16 20 @ h @ wr16 0x8028 @ wr16 4 in
      body @ wr32 (stun_crc32 body XOR 0x5354554E))"
    using stun_finalize_ok [of msg buf_size hmac key h] h l assms(2) by (simp add: Let_def)
  finally show ?thesis
    using that [OF h(2)] unfolding s
    by (simp add: attr_def STUN_ATTR_MESSAGE_INTEGRITY_def STUN_ATTR_FINGERPRINT_def stun_response_body_def Let_def)
qed

section \<open>Properties\<close>

text \<open>C23: a response whose length field does not exceed the datagram is processed without reading
  outside it; but the length field is never compared with the datagram: a bare 20-byte header
  that announces four more bytes is read beyond its end.\<close>
theorem stun_process_response_bounds:
  "(length data < 20 \<or> (\<exists>l. rd16 data 2 = Some l \<and> 20 + unat l \<le> length data)
      \<longrightarrow> (\<exists>r. stun_process_response data n = Some r)) \<and>
   (length tid = 12 \<longrightarrow> stun_process_response (stun_header STUN_BINDING_RESPONSE 4 tid) n = None)"
proof (intro conjI impI)
  assume "length data < 20 \<or> (\<exists>l. rd16 data 2 = Some l \<and> 20 + unat l \<le> length data)"
  then show "\<exists>r. stun_process_response data n = Some r"
    using stun_process_response_defined [of data]
    by (cases "length data < 20") (auto simp: stun_process_response_def [of data])
next
  assume t: "length tid = 12"
  let ?d = "stun_header STUN_BINDING_RESPONSE 4 tid"
  have "rd16 ?d 20 = None"
    using be16.dec_out_of_bounds [of ?d 20] length_stun_header [OF t] by simp
  then have "stun_attributes ?d n (20 + unat (4 :: u16)) 20 (None, None) = None"
    by (subst stun_attributes.simps) simp
  then show "stun_process_response ?d n = None"
    using stun_process_header [OF t, of 4 "[]"] by simp
qed

theorem stun_process_response_bounds_witness:
  "(\<exists>r. stun_process_response [1, 2, 3] 64 = Some r) \<and>
   stun_process_response (stun_header STUN_BINDING_RESPONSE 4 (replicate 12 7)) 64 = None"
  using stun_process_response_bounds [of "[1, 2, 3]" 64 "replicate 12 7"] by simp

text \<open>C13: a binding response tells the client its address: what \<open>stun_create_binding_response\<close> makes of
  a request's transaction id and the request's source address is 64 bytes long and is processed
  by \<open>stun_process_response\<close> to that address and port, whatever the password.\<close>
theorem stun_binding_response_roundtrip:
  assumes "length tid = 12" and "64 \<le> buf_size" and "16 \<le> mapped_addr_len"
    and "\<And>k m. \<exists>h. hmac k m = Some h \<and> length h = 20"
  shows "length (stun_create_binding_response hmac buf_size tid (Some (ip, port)) pw) = 64 \<and>
     stun_process_response (stun_create_binding_response hmac buf_size tid (Some (ip, port)) pw) mapped_addr_len
       = Some (TINYRTC_OK, Some (inet_ntop ip), Some port)"
proof -
  let ?head = "stun_header STUN_BINDING_RESPONSE 44 tid"
  let ?xport = "wr16 (port XOR ucast (drop_bit 16 STUN_MAGIC_COOKIE))"
  let ?xaddr = "wr32 (ip XOR STUN_MAGIC_COOKIE)"
  obtain h where h: "length h = 20" and
    r': "stun_create_binding_response hmac buf_size tid (Some (ip, port)) pw =
      stun_response_body ip port tid h @ wr32 (stun_crc32 (stun_response_body ip port tid h) XOR 0x5354554E)"
    using stun_response_bytes [of tid buf_size hmac ip port pw, OF assms(1,2,4)] .
  define crc where "crc = stun_crc32 (stun_response_body ip port tid h) XOR 0x5354554E"
  have r: "stun_create_binding_response hmac buf_size tid (Some (ip, port)) pw =
      ?head @ wr16 STUN_ATTR_XOR_MAPPED_ADDRESS @ wr16 8 @ [0, 1] @ ?xport @ ?xaddr
       @ wr16 STUN_ATTR_MESSAGE_INTEGRITY @ wr16 20 @ h @ wr16 STUN_ATTR_FINGERPRINT @ wr16 4 @ wr32 crc"
    unfolding r' crc_def [symmetric] by (simp add: stun_response_body_def)
  define d where "d = ?head @ wr16 STUN_ATTR_XOR_MAPPED_ADDRESS @ wr16 8 @ [0, 1] @ ?xport @ ?xaddr
       @ wr16 STUN_ATTR_MESSAGE_INTEGRITY @ wr16 20 @ h @ wr16 STUN_ATTR_FINGERPRINT @ wr16 4 @ wr32 crc"
  have lh: "length ?head = 20" using assms(1) by (rule length_stun_header)
  have p: "stun_padded 8 = 8" "stun_padded 20 = 20" "stun_padded 4 = 4" by (simp_all add: stun_padded_def)
  have ld: "length d = 64" using lh h by (simp add: d_def)
  let ?pre2 = "?head @ wr16 STUN_ATTR_XOR_MAPPED_ADDRESS @ wr16 8 @ [0, 1] @ ?xport @ ?xaddr"
  let ?pre3 = "?pre2 @ wr16 STUN_ATTR_MESSAGE_INTEGRITY @ wr16 20 @ h"
  have a1: "stun_attribute d mapped_addr_len 24 STUN_ATTR_XOR_MAPPED_ADDRESS 8 (None, None)
      = Some (Some (inet_ntop ip), Some port)"
    using stun_attribute_xor_mapped [of d "?head @ wr16 STUN_ATTR_XOR_MAPPED_ADDRESS @ wr16 8" port ip
        "wr16 STUN_ATTR_MESSAGE_INTEGRITY @ wr16 20 @ h @ wr16 STUN_ATTR_FINGERPRINT @ wr16 4 @ wr32 crc"
        mapped_addr_len "(None, None)"] assms(3) lh
    by (simp add: d_def)
  have i: "stun_attribute d mapped_addr_len q STUN_ATTR_MESSAGE_INTEGRITY 20 m = Some m"
    "stun_attribute d mapped_addr_len q STUN_ATTR_FINGERPRINT 4 m = Some m" for q m
    by (rule stun_attribute_ignored; simp add: stun_constants)+
  have "stun_attributes d mapped_addr_len 64 20 (None, None) =
      stun_attributes d mapped_addr_len 64 32 (Some (inet_ntop ip), Some port)"
    using stun_attributes_step [of d ?head STUN_ATTR_XOR_MAPPED_ADDRESS 8 "[0, 1] @ ?xport @ ?xaddr"
        "wr16 STUN_ATTR_MESSAGE_INTEGRITY @ wr16 20 @ h @ wr16 STUN_ATTR_FINGERPRINT @ wr16 4 @ wr32 crc"
        64 mapped_addr_len "(None, None)"] lh p a1
    by (simp add: d_def)
  also have "\<dots> = stun_attributes d mapped_addr_len 64 56 (Some (inet_ntop ip), Some port)"
    using stun_attributes_step [of d ?pre2 STUN_ATTR_MESSAGE_INTEGRITY 20 h
        "wr16 STUN_ATTR_FINGERPRINT @ wr16 4 @ wr32 crc" 64 mapped_addr_len] lh p h i
    by (simp add: d_def)
  also have "\<dots> = stun_attributes d mapped_addr_len 64 64 (Some (inet_ntop ip), Some port)"
    using stun_attributes_step [of d ?pre3 STUN_ATTR_FINGERPRINT 4 "wr32 crc" "[]" 64 mapped_addr_len] lh p h i
    by (simp add: d_def)
  finally have "stun_attributes d mapped_addr_len (20 + unat (44 :: u16)) 20 (None, None)
      = Some (Some (inet_ntop ip), Some port)"
    by (simp add: stun_attributes_end)
  then have "stun_process_response d mapped_addr_len = Some (TINYRTC_OK, Some (inet_ntop ip), Some port)"
    unfolding d_def by (subst stun_process_header [OF assms(1)]) simp_all
  with ld show ?thesis unfolding r d_def [symmetric] by simp
qed

theorem stun_binding_response_roundtrip_witness:
  "stun_process_response (stun_create_binding_response (\<lambda>k m. Some (replicate 20 1)) 512 (replicate 12 9)
      (Some (0x0A000001, 5000)) (Some [1, 2])) 64
     = Some (TINYRTC_OK, Some (inet_ntop 0x0A000001), Some 5000)"
  using stun_binding_response_roundtrip [of "replicate 12 9" 512 64 "\<lambda>k m. Some (replicate 20 1)"
      "0x0A000001" 5000 "Some [1, 2]"] by simp

text \<open>C24: the layout of a finished message.  A message of \<open>n\<close> bytes becomes \<open>n + 32\<close> bytes whose length
  field counts all but the header.  The hash is taken over the message, the header of the
  MESSAGE-INTEGRITY attribute and twenty zero bytes (RFC 5389 ends the hashed text before that
  attribute), and the checksum over everything up to and including the header of the
  FINGERPRINT attribute (RFC 5389 ends before that attribute).\<close>
theorem stun_finalize_layout:
  assumes "20 \<le> length msg" and "length msg + 32 \<le> buf_size" and "length msg < 60000"
    and "hmac password (stun_set_length msg (length msg + 4) @ wr16 STUN_ATTR_MESSAGE_INTEGRITY @ wr16 20
          @ replicate 20 0) = Some h" and "length h = 20"
  shows "\<exists>m. stun_finalize_message hmac msg buf_size password = Inr m \<and> length m = length msg + 32 \<and>
     map_option unat (rd16 m 2) = Some (length m - 20) \<and>
     take 20 (drop (length msg + 4) m) = h \<and>
     rd32 m (length msg + 28) = Some (stun_crc32 (take (length msg + 28) m) XOR 0x5354554E)"
proof -
  define body where "body = stun_set_length msg (length msg + 12) @ wr16 8 @ wr16 20 @ h @ wr16 0x8028 @ wr16 4"
  have f: "stun_finalize_message hmac msg buf_size password = Inr (body @ wr32 (stun_crc32 body XOR 0x5354554E))"
    using stun_finalize_ok [of msg buf_size hmac password h] assms
    by (simp add: body_def STUN_ATTR_MESSAGE_INTEGRITY_def)
  have l: "length (stun_set_length msg (length msg + 12)) = length msg" using assms(1) by simp
  have lb: "length body = length msg + 28" using l assms(5) by (simp add: body_def)
  have r2: "rd16 (body @ ys) 2 = Some (word_of_nat (length msg + 12))" for ys
    using assms(1) by (simp add: body_def stun_set_length_def wire_simps del: of_nat_add)
  have u: "unat (word_of_nat (length msg + 12) :: u16) = length msg + 12"
    using assms(3) by (simp add: unsigned_of_nat take_bit_nat_eq_self del: of_nat_add)
  have "take 20 (drop (length msg + 4) (body @ ys)) = h" for ys
    using l assms(5) by (simp add: body_def)
  with f lb r2 u show ?thesis
    using be32.dec_enc [of _ "[]"] by (simp add: wire_simps del: of_nat_add)
qed

theorem stun_finalize_layout_witness:
  "\<exists>m. stun_finalize_message (\<lambda>k t. Some (replicate 20 5)) (stun_header STUN_BINDING_REQUEST 0 (replicate 12 7)) 512 [1] = Inr m
     \<and> length m = 52 \<and> map_option unat (rd16 m 2) = Some 32"
proof -
  have l: "length (stun_header STUN_BINDING_REQUEST 0 (replicate 12 7)) = 20"
    by (rule length_stun_header) simp
  show ?thesis
    using stun_finalize_layout [of "stun_header STUN_BINDING_REQUEST 0 (replicate 12 7)" 512
        "\<lambda>k t. Some (replicate 20 5)" "[1]" "replicate 20 5"] l
    by auto
qed

text \<open>The checksum detects every change of a single byte, wherever it is in the message.\<close>
theorem stun_crc32_detects_byte_change:
  "stun_crc32 (pre @ [a] @ post) = stun_crc32 (pre @ [b] @ post) \<longleftrightarrow> a = b"
proof -
  have "NOT x = NOT y \<longleftrightarrow> x = y" for x y :: u32 by (metis bit.double_compl)
  then show ?thesis by (simp add: stun_crc32_def fold_stun_crc_byte_inj stun_crc_byte_inj)
qed

end
