(* ===== verification/Media_Codec.thy ===== *)
theory Media_Codec
  imports Interfaces
begin

text \<open>
  \<^verbatim>\<open>src/media_codec.c\<close> and \<^verbatim>\<open>include/tinyrtc/media_codec.h\<close>: the codec identifiers, the
  static codec table and its four lookups.  \<open>CODEC_OTHER\<close> stands for a value of the C enum
  type that is none of its enumerators.
\<close>

datatype codec_id =
    TINYRTC_CODEC_H264
  | TINYRTC_CODEC_OPUS
  | TINYRTC_CODEC_PCMA
  | TINYRTC_CODEC_PCMU
  | TINYRTC_CODEC_G722
  | CODEC_OTHER int

record codec_info =
  ci_id :: codec_id
  ci_name :: string
  ci_default_payload :: int
  ci_clock_rate :: u32
  ci_channels :: int

definition codec_info_table :: "codec_info list" where
  "codec_info_table =
    [\<lparr>ci_id = TINYRTC_CODEC_H264, ci_name = ''H264'', ci_default_payload = 100, ci_clock_rate = 90000, ci_channels = 1\<rparr>,
     \<lparr>ci_id = TINYRTC_CODEC_OPUS, ci_name = ''OPUS'', ci_default_payload = 111, ci_clock_rate = 48000, ci_channels = 2\<rparr>,
     \<lparr>ci_id = TINYRTC_CODEC_PCMA, ci_name = ''PCMA'', ci_default_payload = 8, ci_clock_rate = 8000, ci_channels = 1\<rparr>,
     \<lparr>ci_id = TINYRTC_CODEC_PCMU, ci_name = ''PCMU'', ci_default_payload = 0, ci_clock_rate = 8000, ci_channels = 1\<rparr>,
     \<lparr>ci_id = TINYRTC_CODEC_G722, ci_name = ''G722'', ci_default_payload = 9, ci_clock_rate = 8000, ci_channels = 1\<rparr>]"

definition find_codec_info :: "codec_id \<Rightarrow> codec_info option" where
  "find_codec_info codec = List.find (\<lambda>info. ci_id info = codec) codec_info_table"

definition tinyrtc_codec_get_default_payload :: "codec_id \<Rightarrow> int" where
  "tinyrtc_codec_get_default_payload codec =
     (case find_codec_info codec of None \<Rightarrow> -1 | Some info \<Rightarrow> ci_default_payload info)"

definition tinyrtc_codec_get_name :: "codec_id \<Rightarrow> string" where
  "tinyrtc_codec_get_name codec =
     (case find_codec_info codec of None \<Rightarrow> ''UNKNOWN'' | Some info \<Rightarrow> ci_name info)"

definition tinyrtc_codec_get_clock_rate :: "codec_id \<Rightarrow> u32" where
  "tinyrtc_codec_get_clock_rate codec =
     (case find_codec_info codec of None \<Rightarrow> 0 | Some info \<Rightarrow> ci_clock_rate info)"

definition tinyrtc_codec_get_channels :: "codec_id \<Rightarrow> int" where
  "tinyrtc_codec_get_channels codec =
     (case find_codec_info codec of None \<Rightarrow> 1 | Some info \<Rightarrow> ci_channels info)"

lemma find_codec_info_simps [simp]:
  "find_codec_info TINYRTC_CODEC_H264 = Some (codec_info_table ! 0)"
  "find_codec_info TINYRTC_CODEC_OPUS = Some (codec_info_table ! 1)"
  "find_codec_info TINYRTC_CODEC_PCMA = Some (codec_info_table ! 2)"
  "find_codec_info TINYRTC_CODEC_PCMU = Some (codec_info_table ! 3)"
  "find_codec_info TINYRTC_CODEC_G722 = Some (codec_info_table ! 4)"
  "find_codec_info (CODEC_OTHER n) = None"
  by (simp_all add: find_codec_info_def codec_info_table_def)

lemmas codec_lookup_defs = tinyrtc_codec_get_default_payload_def tinyrtc_codec_get_name_def
  tinyrtc_codec_get_clock_rate_def tinyrtc_codec_get_channels_def

lemma codec_lookup_simps [simp]:
  "tinyrtc_codec_get_default_payload TINYRTC_CODEC_H264 = 100"
  "tinyrtc_codec_get_default_payload TINYRTC_CODEC_OPUS = 111"
  "tinyrtc_codec_get_default_payload TINYRTC_CODEC_PCMA = 8"
  "tinyrtc_codec_get_default_payload TINYRTC_CODEC_PCMU = 0"
  "tinyrtc_codec_get_default_payload TINYRTC_CODEC_G722 = 9"
  "tinyrtc_codec_get_default_payload (CODEC_OTHER n) = -1"
  by (simp_all add: codec_lookup_defs codec_info_table_def)

lemma codec_default_payload_inject:
  "tinyrtc_codec_get_default_payload c = tinyrtc_codec_get_default_payload d \<Longrightarrow>
   tinyrtc_codec_get_default_payload c \<noteq> -1 \<Longrightarrow> c = d"
  by (cases c; cases d) simp_all

end
