(* ===== verification/Sdp.thy ===== *)
theory Sdp
  imports Interfaces C_String Media_Codec
begin

text \<open>
  The session description of \<^verbatim>\<open>src/include/sdp_internal.h\<close> and the operations of
  \<^verbatim>\<open>src/signal/sdp_parser.c\<close> that fill it without parsing (lines 189 to 195 and 470 to 536).
  An array with its counter is the list of the entries in use; a \<^verbatim>\<open>char\<close> array is its string.
\<close>

definition SDP_MAX_MEDIA :: nat where "SDP_MAX_MEDIA = 2"
definition SDP_MAX_CANDIDATES :: nat where "SDP_MAX_CANDIDATES = 32"

datatype track_kind = TINYRTC_TRACK_KIND_AUDIO | TINYRTC_TRACK_KIND_VIDEO

record sdp_media =
  sm_kind :: track_kind
  sm_port :: int
  sm_proto :: int
  sm_payload_type :: int
  sm_codec_id :: codec_id
  sm_clock_rate :: u32
  sm_channels :: int
  sm_mid :: string
  sm_direction_send :: bool
  sm_direction_recv :: bool

record sdp_candidate =
  sc_foundation :: string
  sc_priority :: u32
  sc_ip :: string
  sc_port :: u16
  sc_type :: string
  sc_protocol :: string
  sc_is_ipv6 :: bool

record sdp_session =
  ss_version :: int
  ss_username :: string
  ss_session_id :: u64
  ss_session_version :: u64
  ss_network_type :: string
  ss_address_type :: string
  ss_unicast_address :: string
  ss_session_name :: string
  ss_start_time :: u64
  ss_stop_time :: u64
  ss_ice_ufrag :: string
  ss_ice_pwd :: string
  ss_fingerprint :: string
  ss_fingerprint_type :: string
  ss_media :: "sdp_media list"
  ss_candidates :: "sdp_candidate list"
  ss_dtls_setup :: string

text \<open>The public structures: \<^verbatim>\<open>tinyrtc_track_config_t\<close> and \<^verbatim>\<open>tinyrtc_ice_candidate_t\<close>.\<close>

record track_config =
  tc_kind :: track_kind
  tc_mid :: string
  tc_codec_id :: codec_id
  tc_payload_type :: int
  tc_clock_rate :: u32
  tc_channels :: int

record ice_candidate =
  ic_foundation :: string
  ic_priority :: u32
  ic_ip :: string
  ic_port :: u16
  ic_type :: string
  ic_protocol :: string
  ic_is_ipv6 :: bool

text \<open>The same structures as a caller may fill them: their strings may be NULL.\<close>

record track_fields =
  tf_kind :: track_kind
  tf_mid :: "string option"
  tf_codec_id :: codec_id
  tf_payload_type :: int
  tf_clock_rate :: u32
  tf_channels :: int

record candidate_fields =
  cf_foundation :: "string option"
  cf_priority :: u32
  cf_ip :: "string option"
  cf_port :: u16
  cf_type :: "string option"
  cf_protocol :: "string option"
  cf_is_ipv6 :: bool

section \<open>Operations\<close>

definition sdp_session_init :: sdp_session where
  "sdp_session_init = \<lparr>ss_version = 0, ss_username = [], ss_session_id = 0, ss_session_version = 0,
     ss_network_type = [], ss_address_type = [], ss_unicast_address = [], ss_session_name = [],
     ss_start_time = 0, ss_stop_time = 0, ss_ice_ufrag = [], ss_ice_pwd = [], ss_fingerprint = [],
     ss_fingerprint_type = [], ss_media = [], ss_candidates = [], ss_dtls_setup = []\<rparr>"

text \<open>An entry after \<^verbatim>\<open>memset(media, 0, sizeof(*media))\<close>; the enumerators with value 0 are audio and H.264.\<close>

definition sdp_media_zero :: sdp_media where
  "sdp_media_zero = \<lparr>sm_kind = TINYRTC_TRACK_KIND_AUDIO, sm_port = 0, sm_proto = 0, sm_payload_type = 0,
     sm_codec_id = TINYRTC_CODEC_H264, sm_clock_rate = 0, sm_channels = 0, sm_mid = [],
     sm_direction_send = False, sm_direction_recv = False\<rparr>"

definition sdp_find_media_by_mid :: "sdp_session \<Rightarrow> string \<Rightarrow> nat option" where
  "sdp_find_media_by_mid session mid =
     (case filter (\<lambda>i. sm_mid (ss_media session ! i) = mid) [0..<length (ss_media session)] of
        [] \<Rightarrow> None | i # _ \<Rightarrow> Some i)"

definition sdp_media_of_track :: "track_config \<Rightarrow> sdp_media" where
  "sdp_media_of_track cfg =
     sdp_media_zero\<lparr>sm_kind := tc_kind cfg,
       sm_payload_type := (if tc_payload_type cfg \<noteq> 0 then tc_payload_type cfg
                           else tinyrtc_codec_get_default_payload (tc_codec_id cfg)),
       sm_clock_rate := (if tc_clock_rate cfg \<noteq> 0 then tc_clock_rate cfg
                         else tinyrtc_codec_get_clock_rate (tc_codec_id cfg)),
       sm_channels := (if tc_channels cfg \<noteq> 0 then tc_channels cfg
                       else tinyrtc_codec_get_channels (tc_codec_id cfg)),
       sm_codec_id := tc_codec_id cfg, sm_port := 9, sm_mid := strncpy_into 16 (tc_mid cfg),
       sm_direction_send := True, sm_direction_recv := True\<rparr>"

text \<open>The configuration without NULL: \<^verbatim>\<open>strncpy\<close> of \<^verbatim>\<open>mid\<close> dereferences the pointer unchecked.\<close>

definition track_config_of_fields :: "track_fields \<Rightarrow> track_config option" where
  "track_config_of_fields c =
     (case tf_mid c of
        None \<Rightarrow> None
      | Some mid \<Rightarrow>
          Some \<lparr>tc_kind = tf_kind c, tc_mid = mid, tc_codec_id = tf_codec_id c, tc_payload_type = tf_payload_type c,
                tc_clock_rate = tf_clock_rate c, tc_channels = tf_channels c\<rparr>)"

text \<open>
  \<^verbatim>\<open>sdp_add_media\<close> with a configuration whose \<^verbatim>\<open>mid\<close> is not NULL, as its callers in
  \<^verbatim>\<open>peer_connection.c\<close> have it (the \<^verbatim>\<open>mid\<close> is an array of a track or of a media entry), and with any.
\<close>

definition sdp_add_media :: "track_config \<Rightarrow> sdp_session \<Rightarrow> int \<times> sdp_session" where
  "sdp_add_media cfg session =
     (if length (ss_media session) \<ge> SDP_MAX_MEDIA then (-1, session)
      else (0, session\<lparr>ss_media := ss_media session @ [sdp_media_of_track cfg]\<rparr>))"

definition sdp_add_media_fields :: "track_fields \<Rightarrow> sdp_session \<Rightarrow> (int \<times> sdp_session) option" where
  "sdp_add_media_fields c session =
     (if length (ss_media session) \<ge> SDP_MAX_MEDIA then Some (-1, session)
      else map_option (\<lambda>cfg. sdp_add_media cfg session) (track_config_of_fields c))"

lemma sdp_add_media_fields_complete:
  "track_config_of_fields c = Some cfg \<Longrightarrow> sdp_add_media_fields c session = Some (sdp_add_media cfg session)"
  by (simp add: sdp_add_media_fields_def sdp_add_media_def)

definition sdp_candidate_of_ice :: "ice_candidate \<Rightarrow> sdp_candidate" where
  "sdp_candidate_of_ice c =
     \<lparr>sc_foundation = strncpy_into 32 (ic_foundation c), sc_priority = ic_priority c,
      sc_ip = strncpy_into 64 (ic_ip c), sc_port = ic_port c, sc_type = strncpy_into 32 (ic_type c),
      sc_protocol = strncpy_into 16 (ic_protocol c), sc_is_ipv6 = ic_is_ipv6 c\<rparr>"

definition sdp_add_candidate :: "ice_candidate \<Rightarrow> sdp_session \<Rightarrow> int \<times> sdp_session" where
  "sdp_add_candidate c session =
     (if length (ss_candidates session) \<ge> SDP_MAX_CANDIDATES then (-1, session)
      else (0, session\<lparr>ss_candidates := ss_candidates session @ [sdp_candidate_of_ice c]\<rparr>))"

section \<open>Bounded arrays\<close>

text \<open>Both arrays are bounded stores; the interface is stated for the converted elements.\<close>

definition sdp_put_media :: "sdp_media \<Rightarrow> sdp_session \<Rightarrow> sdp_session" where
  "sdp_put_media m session =
     (if length (ss_media session) \<ge> SDP_MAX_MEDIA then session
      else session\<lparr>ss_media := ss_media session @ [m]\<rparr>)"

definition sdp_put_candidate :: "sdp_candidate \<Rightarrow> sdp_session \<Rightarrow> sdp_session" where
  "sdp_put_candidate c session =
     (if length (ss_candidates session) \<ge> SDP_MAX_CANDIDATES then session
      else session\<lparr>ss_candidates := ss_candidates session @ [c]\<rparr>)"

lemma sdp_add_media_put: "snd (sdp_add_media cfg session) = sdp_put_media (sdp_media_of_track cfg) session"
  by (simp add: sdp_add_media_def sdp_put_media_def)

lemma sdp_add_candidate_put: "snd (sdp_add_candidate c session) = sdp_put_candidate (sdp_candidate_of_ice c) session"
  by (simp add: sdp_add_candidate_def sdp_put_candidate_def)

interpretation media_store: bounded_store ss_media SDP_MAX_MEDIA sdp_put_media
  by unfold_locales (simp_all add: sdp_put_media_def)

interpretation candidate_store: bounded_store ss_candidates SDP_MAX_CANDIDATES sdp_put_candidate
  by unfold_locales (simp_all add: sdp_put_candidate_def)

lemma fold_sdp_add_media:
  "fold (\<lambda>cfg s. snd (sdp_add_media cfg s)) cfgs s = fold sdp_put_media (map sdp_media_of_track cfgs) s"
  by (induction cfgs arbitrary: s) (simp_all add: sdp_add_media_put)

lemma fold_sdp_add_candidate:
  "fold (\<lambda>c s. snd (sdp_add_candidate c s)) cs s = fold sdp_put_candidate (map sdp_candidate_of_ice cs) s"
  by (induction cs arbitrary: s) (simp_all add: sdp_add_candidate_put)

section \<open>Strings that fit their arrays\<close>

definition sdp_media_fits :: "sdp_media \<Rightarrow> bool" where
  "sdp_media_fits m \<longleftrightarrow>
     length (sm_mid m) < 16 \<and> - (2 ^ 31) \<le> sm_port m \<and> sm_port m < 2 ^ 31 \<and>
     - (2 ^ 31) \<le> sm_payload_type m \<and> sm_payload_type m < 2 ^ 31 \<and>
     - (2 ^ 31) \<le> sm_channels m \<and> sm_channels m < 2 ^ 31"

definition sdp_candidate_fits :: "sdp_candidate \<Rightarrow> bool" where
  "sdp_candidate_fits c \<longleftrightarrow>
     length (sc_foundation c) < 32 \<and> length (sc_ip c) < 64 \<and> length (sc_type c) < 32 \<and> length (sc_protocol c) < 16"

definition sdp_fits :: "sdp_session \<Rightarrow> bool" where
  "sdp_fits s \<longleftrightarrow>
     - (2 ^ 31) \<le> ss_version s \<and> ss_version s < 2 ^ 31 \<and> length (ss_username s) < 256 \<and>
     length (ss_network_type s) < 16 \<and> length (ss_address_type s) < 16 \<and> length (ss_unicast_address s) < 64 \<and>
     length (ss_session_name s) < 256 \<and> length (ss_ice_ufrag s) < 64 \<and> length (ss_ice_pwd s) < 128 \<and>
     length (ss_fingerprint s) < 128 \<and> length (ss_fingerprint_type s) < 16 \<and> length (ss_dtls_setup s) < 16 \<and>
     length (ss_media s) \<le> SDP_MAX_MEDIA \<and> length (ss_candidates s) \<le> SDP_MAX_CANDIDATES \<and>
     (\<forall>m \<in> set (ss_media s). sdp_media_fits m) \<and> (\<forall>c \<in> set (ss_candidates s). sdp_candidate_fits c)"

lemma sdp_session_init_fits: "sdp_fits sdp_session_init"
  by (simp add: sdp_fits_def sdp_session_init_def)

lemma sdp_candidate_of_ice_fits: "sdp_candidate_fits (sdp_candidate_of_ice c)"
  by (simp add: sdp_candidate_fits_def sdp_candidate_of_ice_def length_strncpy_into)

lemma codec_defaults_fit:
  "- (2 ^ 31) \<le> tinyrtc_codec_get_default_payload c" "tinyrtc_codec_get_default_payload c < 2 ^ 31"
  "- (2 ^ 31) \<le> tinyrtc_codec_get_channels c" "tinyrtc_codec_get_channels c < 2 ^ 31"
  by (cases c; simp add: tinyrtc_codec_get_default_payload_def tinyrtc_codec_get_channels_def codec_info_table_def)+

text \<open>The C \<^verbatim>\<open>int\<close> fields of a track configuration.\<close>

definition track_config_int :: "track_config \<Rightarrow> bool" where
  "track_config_int cfg \<longleftrightarrow> - (2 ^ 31) \<le> tc_payload_type cfg \<and> tc_payload_type cfg < 2 ^ 31 \<and>
     - (2 ^ 31) \<le> tc_channels cfg \<and> tc_channels cfg < 2 ^ 31"

lemma sdp_media_of_track_fits: "track_config_int cfg \<Longrightarrow> sdp_media_fits (sdp_media_of_track cfg)"
  using codec_defaults_fit [of "tc_codec_id cfg"]
  by (simp add: track_config_int_def sdp_media_fits_def sdp_media_of_track_def sdp_media_zero_def length_strncpy_into)

lemma sdp_put_media_fits: "sdp_fits s \<Longrightarrow> sdp_media_fits m \<Longrightarrow> sdp_fits (sdp_put_media m s)"
  using media_store.put_bounded [of s m]
  by (auto simp: sdp_fits_def sdp_put_media_def)

lemma sdp_put_candidate_fits: "sdp_fits s \<Longrightarrow> sdp_candidate_fits c \<Longrightarrow> sdp_fits (sdp_put_candidate c s)"
  using candidate_store.put_bounded [of s c]
  by (auto simp: sdp_fits_def sdp_put_candidate_def)

section \<open>Properties\<close>

text \<open>A session's arrays cannot overflow.  Adding tracks and candidates to an empty session keeps
  every string and counter within its array, keeps exactly the first two tracks and the first
  32 candidates, in order, and only the additions beyond those report failure.\<close>
theorem sdp_add_bounded:
  assumes "\<forall>cfg \<in> set cfgs. track_config_int cfg"
  shows "let s = fold (\<lambda>c s. snd (sdp_add_candidate c s)) cands
                 (fold (\<lambda>cfg s. snd (sdp_add_media cfg s)) cfgs sdp_session_init) in
     sdp_fits s \<and>
     ss_media s = map sdp_media_of_track (take 2 cfgs) \<and>
     ss_candidates s = map sdp_candidate_of_ice (take 32 cands) \<and>
     (fst (sdp_add_media cfg s) = - 1 \<longleftrightarrow> 2 \<le> length cfgs) \<and>
     (fst (sdp_add_candidate c s) = - 1 \<longleftrightarrow> 32 \<le> length cands)"
proof -
  define s where "s = fold (\<lambda>c s. snd (sdp_add_candidate c s)) cands
                 (fold (\<lambda>cfg s. snd (sdp_add_media cfg s)) cfgs sdp_session_init)"
  define s1 where "s1 = fold sdp_put_media (map sdp_media_of_track cfgs) sdp_session_init"
  have s: "s = fold sdp_put_candidate (map sdp_candidate_of_ice cands) s1"
    by (simp add: s_def s1_def fold_sdp_add_media fold_sdp_add_candidate)
  have cand_media: "ss_media (fold sdp_put_candidate cs t) = ss_media t" for cs t
    by (induction cs arbitrary: t) (simp_all add: sdp_put_candidate_def)
  have media_cand: "ss_candidates (fold sdp_put_media ms t) = ss_candidates t" for ms t
    by (induction ms arbitrary: t) (simp_all add: sdp_put_media_def)
  have m: "ss_media s = map sdp_media_of_track (take 2 cfgs)"
    using media_store.put_all [of sdp_session_init "map sdp_media_of_track cfgs"]
    by (simp add: s cand_media s1_def sdp_session_init_def SDP_MAX_MEDIA_def take_map)
  have c: "ss_candidates s = map sdp_candidate_of_ice (take 32 cands)"
    using candidate_store.put_all [of s1 "map sdp_candidate_of_ice cands"]
    by (simp add: s s1_def media_cand sdp_session_init_def SDP_MAX_CANDIDATES_def take_map)
  have fm: "sdp_fits t \<Longrightarrow> \<forall>cfg \<in> set xs. track_config_int cfg \<Longrightarrow>
      sdp_fits (fold sdp_put_media (map sdp_media_of_track xs) t)" for xs t
    by (induction xs arbitrary: t) (simp_all add: sdp_put_media_fits sdp_media_of_track_fits)
  have fc: "sdp_fits t \<Longrightarrow> sdp_fits (fold sdp_put_candidate (map sdp_candidate_of_ice xs) t)" for xs t
    by (induction xs arbitrary: t) (simp_all add: sdp_put_candidate_fits sdp_candidate_of_ice_fits)
  have "sdp_fits s" unfolding s s1_def by (intro fc fm sdp_session_init_fits assms)
  with m c show ?thesis
    unfolding s_def [symmetric] Let_def
    by (simp add: sdp_add_media_def sdp_add_candidate_def SDP_MAX_MEDIA_def SDP_MAX_CANDIDATES_def min_def)
qed

definition track_example :: track_config where
  "track_example = \<lparr>tc_kind = TINYRTC_TRACK_KIND_VIDEO, tc_mid = ''0'', tc_codec_id = TINYRTC_CODEC_H264,
     tc_payload_type = 0, tc_clock_rate = 0, tc_channels = 0\<rparr>"

theorem sdp_add_bounded_witness:
  "ss_media (fold (\<lambda>c s. snd (sdp_add_media c s)) [track_example, track_example, track_example] sdp_session_init)
     = [sdp_media_of_track track_example, sdp_media_of_track track_example]"
  using sdp_add_bounded [of "[track_example, track_example, track_example]" "[]"]
  by (simp add: track_config_int_def track_example_def Let_def)

end
