(* ===== verification/Ice.thy ===== *)
theory Ice
  imports Stun Sdp
begin

text \<open>
  ICE, \<^verbatim>\<open>src/ice/ice.c\<close>: candidate gathering, check pairs, packet processing, connectivity checks
  and pair selection.  A pointer into the arrays \<^verbatim>\<open>local\<close>, \<^verbatim>\<open>remote\<close> or \<^verbatim>\<open>check_pairs\<close> is the index
  of the element.  What a function sends or reports is a list of events.  Sockets, interfaces, the
  name lookup, the clock and HMAC are arguments.
\<close>

definition ICE_MAX_CANDIDATES :: nat where "ICE_MAX_CANDIDATES = 32"

datatype ice_candidate_type = ICE_CANDIDATE_TYPE_HOST | ICE_CANDIDATE_TYPE_SRFLX | ICE_CANDIDATE_TYPE_RELAY

record ice_candidate_internal =
  ica_type :: ice_candidate_type
  ica_priority :: u32
  ica_ip :: string
  ica_port :: u16
  ica_protocol :: string
  ica_is_ipv6 :: bool
  ica_selected :: bool

record ice_check_pair =
  pair_local :: nat
  pair_remote :: nat
  pair_succeeded :: bool
  pair_last_ping_ms :: u64
  pair_rtt :: int
  pair_tid :: bytes
  pair_tid_valid :: bool

text \<open>The states 0 to 4 of the session, in that order.\<close>

datatype ice_state = ICE_NEW | ICE_GATHERING | ICE_GATHERED | ICE_CHECKING | ICE_DONE

fun ice_state_code :: "ice_state \<Rightarrow> nat" where
  "ice_state_code ICE_NEW = 0"
| "ice_state_code ICE_GATHERING = 1"
| "ice_state_code ICE_GATHERED = 2"
| "ice_state_code ICE_CHECKING = 3"
| "ice_state_code ICE_DONE = 4"

lemma ice_state_code_inject: "ice_state_code a = ice_state_code b \<longleftrightarrow> a = b"
  by (cases a; cases b) simp_all

instantiation ice_state :: linorder
begin

definition less_eq_ice_state :: "ice_state \<Rightarrow> ice_state \<Rightarrow> bool" where
  "less_eq_ice_state a b \<longleftrightarrow> ice_state_code a \<le> ice_state_code b"

definition less_ice_state :: "ice_state \<Rightarrow> ice_state \<Rightarrow> bool" where
  "less_ice_state a b \<longleftrightarrow> ice_state_code a < ice_state_code b"

instance
  by standard (auto simp: less_eq_ice_state_def less_ice_state_def ice_state_code_inject)

end

record ice_session =
  ice_phase :: ice_state
  ice_local :: "ice_candidate_internal list"
  ice_remote :: "ice_candidate_internal list"
  ice_pairs :: "ice_check_pair list"
  ice_selected_pair :: "nat option"
  ice_socket :: int
  ice_gathering_complete :: bool
  ice_stun_tid :: bytes
  ice_stun_tid_valid :: bool

text \<open>What the session reads of its peer connection.\<close>

record ice_credentials =
  cred_local_ufrag :: string
  cred_local_pwd :: string
  cred_remote_ufrag :: string
  cred_remote_pwd :: string
  cred_is_initiator :: bool

datatype ice_event =
    Ice_Send sockaddr bytes
  | Ice_On_Candidate sdp_candidate

section \<open>Candidates\<close>

text \<open>
  \<^verbatim>\<open>strncmp(url, "stun:", 5)\<close>; without a port in the URL the host is copied by a \<^verbatim>\<open>strncpy\<close> that
  leaves it unterminated when it has \<^verbatim>\<open>host_len - 1\<close> characters or more, which makes every later
  use undefined.
\<close>

definition parse_stun_url :: "string \<Rightarrow> nat \<Rightarrow> (bool \<times> string \<times> u16) option" where
  "parse_stun_url url0 host_len =
     (let url = (if take 5 url0 = ''stun:'' then drop 5 url0 else url0) in
      case split_at_char CHR '':'' url of
        None \<Rightarrow>
          if host_len - 1 \<le> length url then None else Some (url \<noteq> [], url, 3478)
      | Some (host_part, after) \<Rightarrow>
          (let host = (if length host_part \<ge> host_len then take (host_len - 1) host_part else host_part);
               port = word_of_int (atoi after) in
           Some (host \<noteq> [], host, if port = 0 then 3478 else port)))"

definition ice_calculate_priority :: "ice_candidate_type \<Rightarrow> u32" where
  "ice_calculate_priority t =
     (let type_pref = (case t of
        ICE_CANDIDATE_TYPE_HOST \<Rightarrow> 126
      | ICE_CANDIDATE_TYPE_SRFLX \<Rightarrow> 110
      | ICE_CANDIDATE_TYPE_RELAY \<Rightarrow> 100) in
      push_bit 24 type_pref OR push_bit 8 0 OR 255)"

text \<open>
  The macro has no parentheses: \<^verbatim>\<open>ICE_PRIORITY_HOST - x\<close> subtracts from its last operand only, in
  unsigned arithmetic.
\<close>

definition ICE_PRIORITY_HOST_minus :: "u32 \<Rightarrow> u32" where
  "ICE_PRIORITY_HOST_minus x = push_bit 24 126 OR push_bit 8 0 OR (126 - x)"

definition ice_host_candidate :: "string \<Rightarrow> u16 \<Rightarrow> u32 \<Rightarrow> ice_candidate_internal" where
  "ice_host_candidate ip port priority =
     \<lparr>ica_type = ICE_CANDIDATE_TYPE_HOST, ica_priority = priority, ica_ip = strncpy_into 64 ip, ica_port = port,
      ica_protocol = ''udp'', ica_is_ipv6 = CHR '':'' \<in> set ip, ica_selected = False\<rparr>"

definition ice_add_local_candidate :: "string \<Rightarrow> u16 \<Rightarrow> u32 \<Rightarrow> ice_session \<Rightarrow> ice_session" where
  "ice_add_local_candidate ip port priority ice =
     (if length (ice_local ice) \<ge> ICE_MAX_CANDIDATES then ice
      else if \<exists>c \<in> set (ice_local ice). ica_ip c = ip \<and> ica_port c = port then ice
      else ice\<lparr>ice_local := ice_local ice @ [ice_host_candidate ip port priority]\<rparr>)"

definition ice_new_pair :: "nat \<Rightarrow> nat \<Rightarrow> ice_check_pair" where
  "ice_new_pair l r = \<lparr>pair_local = l, pair_remote = r, pair_succeeded = False, pair_last_ping_ms = 0,
     pair_rtt = 0, pair_tid = replicate 12 0, pair_tid_valid = False\<rparr>"

text \<open>A pair is appended while there is room; both loops stop at the first pair without room.\<close>

definition ice_put_pair :: "ice_check_pair \<Rightarrow> ice_session \<Rightarrow> ice_session" where
  "ice_put_pair p ice =
     (if length (ice_pairs ice) \<ge> ICE_MAX_CANDIDATES * ICE_MAX_CANDIDATES then ice
      else ice\<lparr>ice_pairs := ice_pairs ice @ [p]\<rparr>)"

definition ice_add_check_pairs_for_local_candidate :: "nat \<Rightarrow> ice_session \<Rightarrow> ice_session" where
  "ice_add_check_pairs_for_local_candidate l ice =
     fold (\<lambda>r. ice_put_pair (ice_new_pair l r)) [0..<length (ice_remote ice)] ice"

definition ice_candidate_to_sdp :: "ice_candidate_internal \<Rightarrow> sdp_candidate" where
  "ice_candidate_to_sdp c =
     \<lparr>sc_foundation = ''tiny'', sc_priority = ica_priority c, sc_ip = ica_ip c, sc_port = ica_port c,
      sc_type = (case ica_type c of
          ICE_CANDIDATE_TYPE_HOST \<Rightarrow> ''host'' | ICE_CANDIDATE_TYPE_SRFLX \<Rightarrow> ''srflx''
        | ICE_CANDIDATE_TYPE_RELAY \<Rightarrow> ''relay''),
      sc_protocol = ica_protocol c, sc_is_ipv6 = ica_is_ipv6 c\<rparr>"

definition ice_candidate_from_sdp :: "sdp_candidate \<Rightarrow> ice_candidate_internal" where
  "ice_candidate_from_sdp c =
     \<lparr>ica_type = (if sc_type c = ''host'' then ICE_CANDIDATE_TYPE_HOST
        else if sc_type c = ''srflx'' then ICE_CANDIDATE_TYPE_SRFLX else ICE_CANDIDATE_TYPE_RELAY),
      ica_priority = sc_priority c, ica_ip = sc_ip c, ica_port = sc_port c,
      ica_protocol = sc_protocol c, ica_is_ipv6 = sc_is_ipv6 c, ica_selected = False\<rparr>"

section \<open>Sessions and gathering\<close>

definition ice_session_create :: "bool \<Rightarrow> ice_session option" where
  "ice_session_create alloc_ok =
     (if alloc_ok then Some \<lparr>ice_phase = ICE_NEW, ice_local = [], ice_remote = [], ice_pairs = [],
        ice_selected_pair = None, ice_socket = -1, ice_gathering_complete = False,
        ice_stun_tid = replicate 12 0, ice_stun_tid_valid = False\<rparr>
      else None)"

text \<open>The socket that \<^verbatim>\<open>ice_session_destroy\<close> closes before it frees the session.\<close>

definition ice_session_destroy :: "ice_session option \<Rightarrow> int option" where
  "ice_session_destroy ice =
     (case ice of None \<Rightarrow> None | Some s \<Rightarrow> if ice_socket s \<ge> 0 then Some (ice_socket s) else None)"

text \<open>
  What gathering finds: the socket, whether \<^verbatim>\<open>bind\<close> succeeds, the bound port, the interfaces
  (\<open>None\<close> when \<^verbatim>\<open>getifaddrs\<close> fails; each an IPv4 address if it has one, and whether it is up and a
  loopback) and for the STUN server the resolved address, the clock and the outcome of \<^verbatim>\<open>sendto\<close>.
\<close>

record ice_interface =
  if_ipv4 :: "u32 option"
  if_up :: bool
  if_loopback :: bool

record ice_gather_env =
  ge_socket :: int
  ge_bind_ok :: bool
  ge_port :: u16
  ge_interfaces :: "ice_interface list option"
  ge_resolve :: "string \<Rightarrow> u16 \<Rightarrow> sockaddr option"
  ge_now :: u64
  ge_sent_ok :: bool

definition ice_gather_interface :: "u16 \<Rightarrow> ice_interface \<Rightarrow> ice_session \<Rightarrow> ice_session" where
  "ice_gather_interface port i ice =
     (case if_ipv4 i of
        None \<Rightarrow> ice
      | Some ip \<Rightarrow>
          if \<not> if_up i \<or> if_loopback i then ice
          else ice_add_local_candidate (inet_ntop ip) port
                 (ICE_PRIORITY_HOST_minus (word_of_nat (length (ice_local ice) * 10))) ice)"

definition ice_gather_server :: "ice_gather_env \<Rightarrow> string \<Rightarrow> ice_session \<Rightarrow> (ice_session \<times> ice_event list) option" where
  "ice_gather_server env url ice =
     (case parse_stun_url url 128 of
        None \<Rightarrow> None
      | Some (ok, host, port) \<Rightarrow>
          if \<not> ok then Some (ice, [])
          else
            (case stun_send_binding_request (ge_now env) (ge_resolve env host port) (ge_sent_ok env) of
               (err, tid, datagram) \<Rightarrow>
                 Some (ice\<lparr>ice_stun_tid := tid, ice_stun_tid_valid := True\<rparr>,
                   case datagram of None \<Rightarrow> [] | Some (addr, bs) \<Rightarrow> [Ice_Send addr bs])))"

definition ice_start_gathering ::
  "ice_gather_env \<Rightarrow> string option \<Rightarrow> ice_session \<Rightarrow> (tinyrtc_error \<times> ice_session \<times> ice_event list) option" where
  "ice_start_gathering env stun_url ice0 =
     (let ice = ice0\<lparr>ice_phase := ICE_GATHERING\<rparr> in
      if ge_socket env < 0 \<or> \<not> ge_bind_ok env then
        Some (TINYRTC_ERROR_NETWORK, ice\<lparr>ice_phase := ICE_GATHERED, ice_gathering_complete := True\<rparr>, [])
      else
        (let ice1 = ice\<lparr>ice_socket := ge_socket env\<rparr>;
             ice2 = (case ge_interfaces env of
                None \<Rightarrow> ice1 | Some ifs \<Rightarrow> fold (ice_gather_interface (ge_port env)) ifs ice1);
             ice3 = (if ice_local ice2 = []
                     then ice_add_local_candidate ''127.0.0.1'' (ge_port env) (ICE_PRIORITY_HOST_minus 0) ice2
                     else ice2) in do {
           (ice4, evs) \<leftarrow> (case stun_url of None \<Rightarrow> Some (ice3, []) | Some url \<Rightarrow> ice_gather_server env url ice3);
           Some (TINYRTC_OK, ice4\<lparr>ice_phase := ICE_GATHERED, ice_gathering_complete := True\<rparr>, evs)
         }))"

definition ice_add_remote_candidate :: "sdp_candidate \<Rightarrow> ice_session \<Rightarrow> tinyrtc_error \<times> ice_session" where
  "ice_add_remote_candidate cand ice =
     (if length (ice_remote ice) \<ge> ICE_MAX_CANDIDATES then (TINYRTC_ERROR, ice)
      else if \<not> strcasecmp_eq (sc_protocol cand) ''udp'' then (TINYRTC_OK, ice)
      else
        (let r = length (ice_remote ice);
             ice1 = ice\<lparr>ice_remote := ice_remote ice @ [ice_candidate_from_sdp cand]\<rparr> in
         (TINYRTC_OK,
          fold (\<lambda>l. ice_put_pair (ice_new_pair l r)) [0..<length (ice_local ice1)] ice1)))"

section \<open>Packets\<close>

text \<open>\<^verbatim>\<open>memcmp\<close> of the packet's transaction id with a stored one, made only when that one is valid.\<close>

definition ice_tid_matches :: "bytes \<Rightarrow> bool \<Rightarrow> bytes \<Rightarrow> bool option" where
  "ice_tid_matches data valid tid =
     (if \<not> valid then Some False else do { t \<leftarrow> rd_bytes data 8 12; Some (t = tid) })"

text \<open>The first pair whose last transaction id is the packet's is marked.\<close>

fun ice_mark_response :: "bytes \<Rightarrow> ice_check_pair list \<Rightarrow> ice_check_pair list option" where
  "ice_mark_response data [] = Some []"
| "ice_mark_response data (p # ps) = do {
     m \<leftarrow> ice_tid_matches data (pair_tid_valid p) (pair_tid p);
     if m then Some (p\<lparr>pair_succeeded := True\<rparr> # ps)
     else do { ps' \<leftarrow> ice_mark_response data ps; Some (p # ps') }
   }"

text \<open>A binding request marks every pair whose remote candidate is the source.\<close>

definition ice_mark_request :: "ice_session \<Rightarrow> sockaddr \<Rightarrow> ice_check_pair \<Rightarrow> ice_check_pair" where
  "ice_mark_request ice source p =
     (let remote = ice_remote ice ! pair_remote p in
      if ica_port remote = snd source \<and> ica_ip remote = inet_ntop (fst source)
      then p\<lparr>pair_succeeded := True\<rparr> else p)"

definition ice_process_request ::
  "ice_credentials \<Rightarrow> mac \<Rightarrow> bytes \<Rightarrow> sockaddr option \<Rightarrow> ice_session \<Rightarrow> (int \<times> ice_session \<times> ice_event list) option" where
  "ice_process_request cred hmac data source ice = do {
     tid \<leftarrow> rd_bytes data 8 12;
     let response = stun_create_binding_response hmac 512 tid source (Some (string_bytes (cred_local_pwd cred)));
     case source of
       None \<Rightarrow> Some (0, ice, [])
     | Some addr \<Rightarrow>
         Some (0, ice\<lparr>ice_pairs := map (ice_mark_request ice addr) (ice_pairs ice)\<rparr>, [Ice_Send addr response])
   }"

definition ice_add_reflexive :: "string \<Rightarrow> u16 \<Rightarrow> ice_session \<Rightarrow> ice_session \<times> ice_event list" where
  "ice_add_reflexive ip port ice =
     (if length (ice_local ice) < ICE_MAX_CANDIDATES then
        (let cand = \<lparr>ica_type = ICE_CANDIDATE_TYPE_SRFLX,
               ica_priority = ice_calculate_priority ICE_CANDIDATE_TYPE_SRFLX, ica_ip = strncpy_into 64 ip,
               ica_port = port, ica_protocol = ''udp'', ica_is_ipv6 = CHR '':'' \<in> set ip, ica_selected = False\<rparr>;
             ice1 = ice\<lparr>ice_local := ice_local ice @ [cand]\<rparr> in
         (ice_add_check_pairs_for_local_candidate (length (ice_local ice)) ice1,
          [Ice_On_Candidate (ice_candidate_to_sdp cand)]))
      else (ice, []))"

text \<open>The return value 1 means that the packet is not STUN.\<close>

definition ice_process_packet ::
  "ice_credentials \<Rightarrow> mac \<Rightarrow> bytes \<Rightarrow> sockaddr option \<Rightarrow> ice_session \<Rightarrow> (int \<times> ice_session \<times> ice_event list) option" where
  "ice_process_packet cred hmac data source ice =
     (if length data < 8 then Some (1, ice, [])
      else do {
        magic \<leftarrow> rd32 data 4;
        if magic \<noteq> STUN_MAGIC_COOKIE then Some (1, ice, [])
        else do {
          msg_type \<leftarrow> rd16 data 0;
          if msg_type = STUN_BINDING_REQUEST then ice_process_request cred hmac data source ice
          else do {
            ice1 \<leftarrow>
              (if msg_type = STUN_BINDING_RESPONSE then do {
                 from_server \<leftarrow> ice_tid_matches data (ice_stun_tid_valid ice) (ice_stun_tid ice);
                 if from_server then Some ice
                 else do {
                   ps \<leftarrow> ice_mark_response data (ice_pairs ice);
                   Some (ice\<lparr>ice_pairs := ps\<rparr>)
                 }
               } else Some ice);
            (err, mapped) \<leftarrow> stun_process_response data 64;
            (case mapped of
               (Some ip, Some port) \<Rightarrow>
                 if err = TINYRTC_OK \<and> ip \<noteq> [] then
                   (case ice_add_reflexive ip port ice1 of (ice2, evs) \<Rightarrow> Some (0, ice2, evs))
                 else Some (0, ice1, [])
             | _ \<Rightarrow> Some (0, ice1, []))
          }
        }
      })"

section \<open>Connectivity checks\<close>

definition ice_username :: "ice_credentials \<Rightarrow> string" where
  "ice_username cred = take 255 (cred_remote_ufrag cred @ '':'' @ cred_local_ufrag cred)"

definition ice_check_message :: "ice_credentials \<Rightarrow> u64 \<Rightarrow> u32 \<Rightarrow> bytes" where
  "ice_check_message cred now_stun priority =
     (let username = ice_username cred in
      stun_header STUN_BINDING_REQUEST 0 (stun_transaction_id now_stun)
      @ wr16 0x0006 @ wr16 (word_of_nat (length username)) @ string_bytes username
      @ replicate ((4 - length username mod 4) mod 4) 0
      @ wr16 (if cred_is_initiator cred then 0x802A else 0x8029) @ wr16 8 @ wr64 now_stun
      @ wr16 0x0024 @ wr16 4 @ wr32 priority)"

definition ICE_PING_INTERVAL_MS :: u64 where "ICE_PING_INTERVAL_MS = 3000"

definition ice_ping_due :: "u64 \<Rightarrow> ice_check_pair \<Rightarrow> bool" where
  "ice_ping_due now p \<longleftrightarrow>
     \<not> pair_succeeded p \<and> (pair_last_ping_ms p = 0 \<or> now - pair_last_ping_ms p > ICE_PING_INTERVAL_MS)"

text \<open>
  One round of the loop over the pairs, at index \<open>i\<close>; \<open>clock i\<close> is the time \<^verbatim>\<open>aosl_time_ms\<close> reports
  for that pair.  An address \<^verbatim>\<open>inet_pton\<close> rejects stays 0.0.0.0.
\<close>

fun ice_ping_pairs ::
  "ice_credentials \<Rightarrow> mac \<Rightarrow> u64 \<Rightarrow> (nat \<Rightarrow> u64) \<Rightarrow> ice_session \<Rightarrow> nat \<Rightarrow> ice_check_pair list
     \<Rightarrow> (ice_check_pair list \<times> ice_event list) option" where
  "ice_ping_pairs cred hmac now clock ice i [] = Some ([], [])"
| "ice_ping_pairs cred hmac now clock ice i (p # ps) = do {
     (p', evs) \<leftarrow>
       (if ice_ping_due now p then
          (if pair_local p < length (ice_local ice) \<and> pair_remote p < length (ice_remote ice) then
             (let remote = ice_remote ice ! pair_remote p;
                  ip = (case inet_pton (ica_ip remote) of None \<Rightarrow> 0 | Some a \<Rightarrow> a);
                  p' = p\<lparr>pair_last_ping_ms := now, pair_tid := stun_transaction_id (clock i),
                         pair_tid_valid := True\<rparr> in
              case stun_finalize_message hmac
                     (ice_check_message cred (clock i) (ica_priority (ice_local ice ! pair_local p)))
                     512 (string_bytes (cred_remote_pwd cred)) of
                Inl _ \<Rightarrow> Some (p', [])
              | Inr msg \<Rightarrow> Some (p', [Ice_Send (ip, ica_port remote) msg]))
           else None)
        else Some (p, []));
     (ps', more) \<leftarrow> ice_ping_pairs cred hmac now clock ice (Suc i) ps;
     Some (p' # ps', evs @ more)
   }"

text \<open>The selection loop: the first pair that succeeded, unless one is selected already.\<close>

definition ice_select_pair :: "ice_session \<Rightarrow> ice_session" where
  "ice_select_pair ice =
     (case ice_selected_pair ice of
        Some _ \<Rightarrow> ice
      | None \<Rightarrow>
          (case filter (\<lambda>i. pair_succeeded (ice_pairs ice ! i)) [0..<length (ice_pairs ice)] of
             [] \<Rightarrow> ice
           | i # _ \<Rightarrow>
               (let l = pair_local (ice_pairs ice ! i) in
                ice\<lparr>ice_selected_pair := Some i,
                    ice_local := (ice_local ice)[l := (ice_local ice ! l)\<lparr>ica_selected := True\<rparr>],
                    ice_phase := ICE_DONE\<rparr>)))"

definition ice_check_connectivity ::
  "ice_credentials \<Rightarrow> mac \<Rightarrow> u64 \<Rightarrow> (nat \<Rightarrow> u64) \<Rightarrow> ice_session \<Rightarrow> (ice_session \<times> ice_event list) option" where
  "ice_check_connectivity cred hmac now clock ice =
     (if ice_phase ice < ICE_GATHERED then Some (ice, [])
      else
        (let ice1 = (if ice_phase ice = ICE_GATHERED then ice\<lparr>ice_phase := ICE_CHECKING\<rparr> else ice) in do {
           (ps, evs) \<leftarrow> ice_ping_pairs cred hmac now clock ice1 0 (ice_pairs ice1);
           Some (ice_select_pair (ice1\<lparr>ice_pairs := ps\<rparr>), evs)
         }))"

definition ice_is_connected :: "ice_session option \<Rightarrow> bool" where
  "ice_is_connected ice =
     (case ice of
        None \<Rightarrow> False
      | Some s \<Rightarrow>
          (case ice_selected_pair s of None \<Rightarrow> False | Some i \<Rightarrow> pair_succeeded (ice_pairs s ! i)))"

section \<open>Check pairs\<close>

abbreviation pair_key :: "ice_check_pair \<Rightarrow> nat \<times> nat" where
  "pair_key p \<equiv> (pair_local p, pair_remote p)"

interpretation pair_store: bounded_store ice_pairs "ICE_MAX_CANDIDATES * ICE_MAX_CANDIDATES" ice_put_pair
  by unfold_locales (simp_all add: ice_put_pair_def)

lemma fold_ice_put_pair_frame:
  "fold ice_put_pair ps ice = ice\<lparr>ice_pairs := ice_pairs (fold ice_put_pair ps ice)\<rparr>"
proof (induction ps arbitrary: ice)
  case Nil
  then show ?case by simp
next
  case (Cons p ps)
  show ?case
    by (simp, subst Cons.IH) (simp add: ice_put_pair_def)
qed

lemma fold_ice_put_pair:
  assumes "length (ice_pairs ice) + length xs \<le> 1024"
  shows "fold (\<lambda>x. ice_put_pair (f x)) xs ice = ice\<lparr>ice_pairs := ice_pairs ice @ map f xs\<rparr>"
proof -
  have "fold (\<lambda>x. ice_put_pair (f x)) xs ice = fold ice_put_pair (map f xs) ice"
    by (simp add: fold_map comp_def)
  moreover have "ice_pairs (fold ice_put_pair (map f xs) ice) = ice_pairs ice @ map f xs"
    using assms by (simp add: pair_store.put_all ICE_MAX_CANDIDATES_def)
  ultimately show ?thesis using fold_ice_put_pair_frame [of "map f xs" ice] by simp
qed

text \<open>The pairs are the combinations of local and remote candidates, each once.\<close>

definition ice_pairs_complete :: "ice_session \<Rightarrow> bool" where
  "ice_pairs_complete ice \<longleftrightarrow>
     distinct (map pair_key (ice_pairs ice)) \<and>
     set (map pair_key (ice_pairs ice)) = {..<length (ice_local ice)} \<times> {..<length (ice_remote ice)}"

definition ice_inv :: "ice_session \<Rightarrow> bool" where
  "ice_inv ice \<longleftrightarrow>
     length (ice_local ice) \<le> ICE_MAX_CANDIDATES \<and> length (ice_remote ice) \<le> ICE_MAX_CANDIDATES \<and>
     ice_pairs_complete ice \<and>
     (\<forall>i. ice_selected_pair ice = Some i \<longrightarrow> i < length (ice_pairs ice) \<and> pair_succeeded (ice_pairs ice ! i))"

lemma ice_pairs_count: "ice_pairs_complete ice \<Longrightarrow> length (ice_pairs ice) = length (ice_local ice) * length (ice_remote ice)"
  using distinct_card [of "map pair_key (ice_pairs ice)"]
  by (simp add: ice_pairs_complete_def card_cartesian_product)

lemma ice_pair_index:
  assumes "ice_pairs_complete ice" and "p \<in> set (ice_pairs ice)"
  shows "pair_local p < length (ice_local ice)" and "pair_remote p < length (ice_remote ice)"
proof -
  have "pair_key p \<in> {..<length (ice_local ice)} \<times> {..<length (ice_remote ice)}"
    using assms by (auto simp: ice_pairs_complete_def)
  then show "pair_local p < length (ice_local ice)" "pair_remote p < length (ice_remote ice)" by simp_all
qed

lemma pair_key_new [simp]: "pair_key (ice_new_pair l r) = (l, r)"
  by (simp add: ice_new_pair_def)

lemma ice_pairs_complete_keys:
  assumes "map pair_key ps = map pair_key (ice_pairs ice)"
    and "length ls = length (ice_local ice)"
  shows "ice_pairs_complete (ice\<lparr>ice_pairs := ps, ice_local := ls\<rparr>) \<longleftrightarrow> ice_pairs_complete ice"
  unfolding ice_pairs_complete_def using assms by (simp del: set_map)

text \<open>A new candidate on either side brings its pairs with all candidates of the other side.\<close>

lemma ice_pairs_complete_remote:
  assumes "ice_pairs_complete ice" and "length rs = Suc (length (ice_remote ice))"
  shows "ice_pairs_complete (ice\<lparr>ice_remote := rs,
    ice_pairs := ice_pairs ice @ map (\<lambda>l. ice_new_pair l (length (ice_remote ice))) [0..<length (ice_local ice)]\<rparr>)"
proof -
  let ?new = "map (\<lambda>l. ice_new_pair l (length (ice_remote ice))) [0..<length (ice_local ice)]"
  have keys: "map pair_key ?new = map (\<lambda>l. (l, length (ice_remote ice))) [0..<length (ice_local ice)]"
    by (simp add: comp_def)
  have new: "distinct (map pair_key ?new)" "set (map pair_key ?new) = {..<length (ice_local ice)} \<times> {length (ice_remote ice)}"
    unfolding keys by (auto simp: distinct_map inj_on_def)
  have d: "distinct (map pair_key (ice_pairs ice) @ map pair_key ?new)"
    using assms(1) new unfolding ice_pairs_complete_def distinct_append by auto
  have s: "set (map pair_key (ice_pairs ice) @ map pair_key ?new) =
      {..<length (ice_local ice)} \<times> {..<Suc (length (ice_remote ice))}"
    using assms(1) new unfolding ice_pairs_complete_def set_append by (simp only: lessThan_Suc) blast
  from d s show ?thesis by (simp add: ice_pairs_complete_def assms(2) del: set_map)
qed

lemma ice_pairs_complete_local:
  assumes "ice_pairs_complete ice" and "length ls = Suc (length (ice_local ice))"
  shows "ice_pairs_complete (ice\<lparr>ice_local := ls,
    ice_pairs := ice_pairs ice @ map (ice_new_pair (length (ice_local ice))) [0..<length (ice_remote ice)]\<rparr>)"
proof -
  let ?new = "map (ice_new_pair (length (ice_local ice))) [0..<length (ice_remote ice)]"
  have keys: "map pair_key ?new = map (\<lambda>r. (length (ice_local ice), r)) [0..<length (ice_remote ice)]"
    by (simp add: comp_def)
  have new: "distinct (map pair_key ?new)" "set (map pair_key ?new) = {length (ice_local ice)} \<times> {..<length (ice_remote ice)}"
    unfolding keys by (auto simp: distinct_map inj_on_def)
  have d: "distinct (map pair_key (ice_pairs ice) @ map pair_key ?new)"
    using assms(1) new unfolding ice_pairs_complete_def distinct_append by auto
  have s: "set (map pair_key (ice_pairs ice) @ map pair_key ?new) =
      {..<Suc (length (ice_local ice))} \<times> {..<length (ice_remote ice)}"
    using assms(1) new unfolding ice_pairs_complete_def set_append by (simp only: lessThan_Suc) blast
  from d s show ?thesis by (simp add: ice_pairs_complete_def assms(2) del: set_map)
qed

lemma ice_pairs_room:
  assumes "ice_inv ice" and "length (ice_local ice) < 32" and "n \<le> length (ice_remote ice)"
  shows "length (ice_pairs ice) + n \<le> 1024"
proof -
  have "Suc (length (ice_local ice)) * length (ice_remote ice) \<le> 32 * 32"
    using assms by (intro mult_le_mono) (simp_all add: ice_inv_def ICE_MAX_CANDIDATES_def)
  then show ?thesis using assms by (simp add: ice_inv_def ice_pairs_count)
qed

lemma ice_pairs_room_remote:
  assumes "ice_inv ice" and "length (ice_remote ice) < 32" and "n \<le> length (ice_local ice)"
  shows "length (ice_pairs ice) + n \<le> 1024"
proof -
  have "length (ice_local ice) * Suc (length (ice_remote ice)) \<le> 32 * 32"
    using assms by (intro mult_le_mono) (simp_all add: ice_inv_def ICE_MAX_CANDIDATES_def)
  then show ?thesis using assms by (simp add: ice_inv_def ice_pairs_count)
qed

section \<open>What every operation keeps\<close>

text \<open>
  Candidates and pairs only get more, a pair that succeeded stays so, the selection is made once
  and the session state only advances.
\<close>

definition ice_extends :: "ice_session \<Rightarrow> ice_session \<Rightarrow> bool" where
  "ice_extends a b \<longleftrightarrow>
     take (length (ice_local a)) (map (ica_selected_update (\<lambda>_. False)) (ice_local b))
       = map (ica_selected_update (\<lambda>_. False)) (ice_local a) \<and>
     take (length (ice_remote a)) (ice_remote b) = ice_remote a \<and>
     take (length (ice_pairs a)) (map pair_key (ice_pairs b)) = map pair_key (ice_pairs a) \<and>
     (\<forall>i < length (ice_pairs a). pair_succeeded (ice_pairs a ! i) \<longrightarrow> pair_succeeded (ice_pairs b ! i)) \<and>
     (\<forall>i. ice_selected_pair a = Some i \<longrightarrow> ice_selected_pair b = Some i) \<and>
     ice_phase a \<le> ice_phase b"

lemma take_prefix_length: "take (length xs) ys = xs \<Longrightarrow> length xs \<le> length ys"
  by (drule arg_cong [of _ _ length]) (simp add: min_def split: if_splits)

lemma take_prefix_trans: "take (length xs) ys = xs \<Longrightarrow> take (length ys) zs = ys \<Longrightarrow> take (length xs) zs = xs"
  by (metis min.absorb1 take_prefix_length take_take)

lemma ice_extends_refl [simp, intro]: "ice_extends a a"
  by (simp add: ice_extends_def)

lemma ice_extends_trans:
  assumes "ice_extends a b" and "ice_extends b c"
  shows "ice_extends a c"
proof -
  have n: "length (ice_pairs a) \<le> length (ice_pairs b)"
    using assms(1) take_prefix_length [of "map pair_key (ice_pairs a)" "map pair_key (ice_pairs b)"]
    by (simp add: ice_extends_def)
  have "take (length (ice_local a)) (map (ica_selected_update (\<lambda>_. False)) (ice_local c))
      = map (ica_selected_update (\<lambda>_. False)) (ice_local a)"
    using assms take_prefix_trans [of "map (ica_selected_update (\<lambda>_. False)) (ice_local a)"
        "map (ica_selected_update (\<lambda>_. False)) (ice_local b)"]
    by (simp add: ice_extends_def)
  moreover have "take (length (ice_pairs a)) (map pair_key (ice_pairs c)) = map pair_key (ice_pairs a)"
    using assms take_prefix_trans [of "map pair_key (ice_pairs a)" "map pair_key (ice_pairs b)"]
    by (simp add: ice_extends_def)
  ultimately show ?thesis
    using assms n take_prefix_trans [of "ice_remote a" "ice_remote b" "ice_remote c"]
    unfolding ice_extends_def by auto
qed

lemma take_prefix_nth: "take (length xs) ys = xs \<Longrightarrow> i < length xs \<Longrightarrow> ys ! i = xs ! i"
  by (metis nth_take)

lemma ice_extends_pair:
  "ice_extends a b \<Longrightarrow> i < length (ice_pairs a) \<Longrightarrow> pair_key (ice_pairs b ! i) = pair_key (ice_pairs a ! i)"
  using take_prefix_length [of "map pair_key (ice_pairs a)" "map pair_key (ice_pairs b)"]
    take_prefix_nth [of "map pair_key (ice_pairs a)" "map pair_key (ice_pairs b)" i]
  by (simp add: ice_extends_def)

lemma ice_extends_remote:
  "ice_extends a b \<Longrightarrow> i < length (ice_remote a) \<Longrightarrow> ice_remote b ! i = ice_remote a ! i"
  by (simp add: ice_extends_def take_prefix_nth)

lemma ice_extends_local:
  assumes "ice_extends a b" and "i < length (ice_local a)"
  shows "ica_ip (ice_local b ! i) = ica_ip (ice_local a ! i) \<and> ica_port (ice_local b ! i) = ica_port (ice_local a ! i)"
proof -
  let ?f = "ica_selected_update (\<lambda>_. False)"
  have "length (ice_local a) \<le> length (ice_local b)"
    using assms take_prefix_length [of "map ?f (ice_local a)" "map ?f (ice_local b)"] by (simp add: ice_extends_def)
  then have "?f (ice_local b ! i) = ?f (ice_local a ! i)"
    using assms take_prefix_nth [of "map ?f (ice_local a)" "map ?f (ice_local b)" i] by (simp add: ice_extends_def)
  from arg_cong [OF this, of ica_ip] arg_cong [OF this, of ica_port] show ?thesis by simp
qed

lemma ice_tid_read: "20 \<le> length data \<Longrightarrow> rd_bytes data 8 12 = Some (take 12 (drop 8 data))"
  by (simp add: rd_bytes_def)

lemma ice_add_remote_accepted:
  assumes "ice_inv ice" and "length (ice_remote ice) < 32" and "strcasecmp_eq (sc_protocol cand) ''udp''"
  shows "ice_add_remote_candidate cand ice = (TINYRTC_OK, ice\<lparr>
    ice_remote := ice_remote ice @ [ice_candidate_from_sdp cand],
    ice_pairs := ice_pairs ice @ map (\<lambda>l. ice_new_pair l (length (ice_remote ice))) [0..<length (ice_local ice)]\<rparr>)"
  using assms fold_ice_put_pair [of "ice\<lparr>ice_remote := ice_remote ice @ [ice_candidate_from_sdp cand]\<rparr>"
      "[0..<length (ice_local ice)]" "\<lambda>l. ice_new_pair l (length (ice_remote ice))"]
    ice_pairs_room_remote [of ice "length (ice_local ice)"]
  by (simp add: ice_add_remote_candidate_def ICE_MAX_CANDIDATES_def)

lemma ice_add_remote_step:
  assumes "ice_inv ice"
  shows "ice_inv (snd (ice_add_remote_candidate cand ice)) \<and> ice_extends ice (snd (ice_add_remote_candidate cand ice))"
proof (cases "length (ice_remote ice) < 32 \<and> strcasecmp_eq (sc_protocol cand) ''udp''")
  case True
  then have e: "snd (ice_add_remote_candidate cand ice) = ice\<lparr>
    ice_remote := ice_remote ice @ [ice_candidate_from_sdp cand],
    ice_pairs := ice_pairs ice @ map (\<lambda>l. ice_new_pair l (length (ice_remote ice))) [0..<length (ice_local ice)]\<rparr>"
    using ice_add_remote_accepted [OF assms] by simp
  have c: "ice_pairs_complete (snd (ice_add_remote_candidate cand ice))"
    unfolding e using assms by (intro ice_pairs_complete_remote) (simp_all add: ice_inv_def)
  show ?thesis
    using assms True c unfolding e by (auto simp: ice_inv_def ice_extends_def ICE_MAX_CANDIDATES_def nth_append)
next
  case False
  then show ?thesis using assms by (simp add: ice_add_remote_candidate_def ICE_MAX_CANDIDATES_def)
qed

definition ice_awaits :: "bytes \<Rightarrow> ice_check_pair \<Rightarrow> bool" where
  "ice_awaits tid p \<longleftrightarrow> pair_tid_valid p \<and> pair_tid p = tid"

lemma ice_tid_matches_read:
  "20 \<le> length data \<Longrightarrow> ice_tid_matches data valid tid = Some (valid \<and> tid = take 12 (drop 8 data))"
  by (auto simp: ice_tid_matches_def ice_tid_read)

text \<open>Only the first pair that awaits the response is marked.\<close>

lemma ice_mark_response_spec:
  assumes "20 \<le> length data"
  shows "\<exists>ps'. ice_mark_response data ps = Some ps' \<and> length ps' = length ps \<and>
    (\<forall>i < length ps. ps' ! i =
      (if ice_awaits (take 12 (drop 8 data)) (ps ! i) \<and> (\<forall>j < i. \<not> ice_awaits (take 12 (drop 8 data)) (ps ! j))
       then (ps ! i)\<lparr>pair_succeeded := True\<rparr> else ps ! i))"
proof (induction ps)
  case Nil
  then show ?case by simp
next
  case (Cons p ps)
  show ?case
  proof (cases "ice_awaits (take 12 (drop 8 data)) p")
    case True
    then have m: "ice_tid_matches data (pair_tid_valid p) (pair_tid p) = Some True"
      by (simp add: ice_tid_matches_read [OF assms] ice_awaits_def)
    have "ice_mark_response data (p # ps) = Some (p\<lparr>pair_succeeded := True\<rparr> # ps)" using m by simp
    then show ?thesis using True by (simp add: All_less_Suc2)
  next
    case False
    then have m: "ice_tid_matches data (pair_tid_valid p) (pair_tid p) = Some False"
      by (auto simp: ice_tid_matches_read [OF assms] ice_awaits_def)
    from Cons.IH obtain ps' where "ice_mark_response data ps = Some ps'" and "length ps' = length ps"
      and "\<forall>i < length ps. ps' ! i =
        (if ice_awaits (take 12 (drop 8 data)) (ps ! i) \<and> (\<forall>j < i. \<not> ice_awaits (take 12 (drop 8 data)) (ps ! j))
         then (ps ! i)\<lparr>pair_succeeded := True\<rparr> else ps ! i)" by blast
    with m False show ?thesis by (auto simp: All_less_Suc2)
  qed
qed

lemma ice_add_reflexive_step:
  assumes "ice_inv ice"
  shows "ice_inv (fst (ice_add_reflexive ip port ice)) \<and> ice_extends ice (fst (ice_add_reflexive ip port ice))"
proof (cases "length (ice_local ice) < 32")
  case True
  then obtain cand where e: "fst (ice_add_reflexive ip port ice) = ice\<lparr>
      ice_local := ice_local ice @ [cand],
      ice_pairs := ice_pairs ice @ map (ice_new_pair (length (ice_local ice))) [0..<length (ice_remote ice)]\<rparr>"
    using ice_pairs_room [OF assms, of "length (ice_remote ice)"]
    by (simp add: ice_add_reflexive_def ice_add_check_pairs_for_local_candidate_def Let_def ICE_MAX_CANDIDATES_def
        fold_ice_put_pair)
  have c: "ice_pairs_complete (fst (ice_add_reflexive ip port ice))"
    unfolding e using assms by (intro ice_pairs_complete_local) (simp_all add: ice_inv_def)
  show ?thesis
    using assms True c unfolding e by (auto simp: ice_inv_def ice_extends_def ICE_MAX_CANDIDATES_def nth_append)
next
  case False
  then show ?thesis using assms by (simp add: ice_add_reflexive_def ICE_MAX_CANDIDATES_def)
qed

text \<open>Pairs that keep their candidates and what succeeded.\<close>

lemma ice_pairs_update_step:
  assumes "ice_inv ice" and "length ps = length (ice_pairs ice)"
    and "\<And>i. i < length ps \<Longrightarrow> pair_key (ps ! i) = pair_key (ice_pairs ice ! i)"
    and "\<And>i. i < length ps \<Longrightarrow> pair_succeeded (ice_pairs ice ! i) \<Longrightarrow> pair_succeeded (ps ! i)"
  shows "ice_inv (ice\<lparr>ice_pairs := ps\<rparr>) \<and> ice_extends ice (ice\<lparr>ice_pairs := ps\<rparr>)"
proof -
  have keys: "map pair_key ps = map pair_key (ice_pairs ice)"
    using assms(2,3) by (intro nth_equalityI) simp_all
  then show ?thesis
    using assms ice_pairs_complete_keys [OF keys, of "ice_local ice"]
    by (auto simp: ice_inv_def ice_extends_def)
qed

section \<open>Packets and checks keep the invariant\<close>

text \<open>
  A datagram that claims to be STUN is only processed within its bounds when it has a header
  and the length field fits it.
\<close>

definition ice_packet_ok :: "bytes \<Rightarrow> bool" where
  "ice_packet_ok data \<longleftrightarrow>
     length data < 8 \<or> rd32 data 4 \<noteq> Some STUN_MAGIC_COOKIE \<or>
     (20 \<le> length data \<and> (\<forall>l. rd16 data 2 = Some l \<longrightarrow> 20 + unat l \<le> length data))"

lemma ice_packet_not_stun:
  assumes "length data < 8 \<or> rd32 data 4 \<noteq> Some STUN_MAGIC_COOKIE"
  shows "ice_process_packet cred hmac data source ice = Some (1, ice, [])"
  using assms be32.dec_in_bounds [of 4 data] by (auto simp: ice_process_packet_def not_less)

lemma ice_packet_request:
  assumes "20 \<le> length data" and "rd32 data 4 = Some STUN_MAGIC_COOKIE" and "rd16 data 0 = Some STUN_BINDING_REQUEST"
  shows "ice_process_packet cred hmac data source ice = Some
    (case source of
       None \<Rightarrow> (0, ice, [])
     | Some addr \<Rightarrow> (0, ice\<lparr>ice_pairs := map (ice_mark_request ice addr) (ice_pairs ice)\<rparr>,
         [Ice_Send addr (stun_create_binding_response hmac 512 (take 12 (drop 8 data)) source
            (Some (string_bytes (cred_local_pwd cred))))]))"
  using assms by (simp add: ice_process_packet_def ice_process_request_def ice_tid_read Let_def split: option.splits)

lemma ice_mark_request_keeps [simp]:
  "pair_key (ice_mark_request ice addr p) = pair_key p"
  "pair_succeeded p \<Longrightarrow> pair_succeeded (ice_mark_request ice addr p)"
  by (simp_all add: ice_mark_request_def Let_def)

text \<open>The session after the transaction id of a packet that is not a request was looked up.\<close>

definition ice_marked :: "bytes \<Rightarrow> ice_session \<Rightarrow> ice_session option" where
  "ice_marked data ice =
     (if rd16 data 0 = Some STUN_BINDING_RESPONSE then do {
        from_server \<leftarrow> ice_tid_matches data (ice_stun_tid_valid ice) (ice_stun_tid ice);
        if from_server then Some ice
        else do {
          ps \<leftarrow> ice_mark_response data (ice_pairs ice);
          Some (ice\<lparr>ice_pairs := ps\<rparr>)
        }
      } else Some ice)"

lemma ice_marked_pairs:
  assumes "20 \<le> length data"
  shows "\<exists>ps. ice_marked data ice = Some (ice\<lparr>ice_pairs := ps\<rparr>) \<and> length ps = length (ice_pairs ice) \<and>
    (\<forall>i < length ps. ps ! i =
      (if rd16 data 0 = Some STUN_BINDING_RESPONSE
          \<and> \<not> (ice_stun_tid_valid ice \<and> ice_stun_tid ice = take 12 (drop 8 data))
          \<and> ice_awaits (take 12 (drop 8 data)) (ice_pairs ice ! i)
          \<and> (\<forall>j < i. \<not> ice_awaits (take 12 (drop 8 data)) (ice_pairs ice ! j))
       then (ice_pairs ice ! i)\<lparr>pair_succeeded := True\<rparr> else ice_pairs ice ! i))"
proof -
  obtain ps' where ps': "ice_mark_response data (ice_pairs ice) = Some ps'" "length ps' = length (ice_pairs ice)"
    "\<forall>i < length ps'. ps' ! i =
      (if ice_awaits (take 12 (drop 8 data)) (ice_pairs ice ! i)
          \<and> (\<forall>j < i. \<not> ice_awaits (take 12 (drop 8 data)) (ice_pairs ice ! j))
       then (ice_pairs ice ! i)\<lparr>pair_succeeded := True\<rparr> else ice_pairs ice ! i)"
    using ice_mark_response_spec [OF assms, of "ice_pairs ice"] by auto
  show ?thesis
  proof (cases "rd16 data 0 = Some STUN_BINDING_RESPONSE \<and> \<not> (ice_stun_tid_valid ice \<and> ice_stun_tid ice = take 12 (drop 8 data))")
    case True
    then have "ice_marked data ice = Some (ice\<lparr>ice_pairs := ps'\<rparr>)"
      using ps'(1) by (auto simp: ice_marked_def ice_tid_matches_read [OF assms])
    moreover have "\<forall>i < length ps'. ps' ! i = (if rd16 data 0 = Some STUN_BINDING_RESPONSE
        \<and> \<not> (ice_stun_tid_valid ice \<and> ice_stun_tid ice = take 12 (drop 8 data))
        \<and> ice_awaits (take 12 (drop 8 data)) (ice_pairs ice ! i)
        \<and> (\<forall>j < i. \<not> ice_awaits (take 12 (drop 8 data)) (ice_pairs ice ! j))
       then (ice_pairs ice ! i)\<lparr>pair_succeeded := True\<rparr> else ice_pairs ice ! i)"
      using ps'(3) by (simp only: True simp_thms)
    ultimately show ?thesis using ps'(2) by blast
  next
    case False
    then have "ice_marked data ice = Some (ice\<lparr>ice_pairs := ice_pairs ice\<rparr>)"
      by (simp add: ice_marked_def ice_tid_matches_read [OF assms])
    with False show ?thesis by (intro exI [of _ "ice_pairs ice"]) auto
  qed
qed

lemma ice_packet_other:
  assumes "20 \<le> length data" and "rd32 data 4 = Some STUN_MAGIC_COOKIE" and "rd16 data 0 \<noteq> Some STUN_BINDING_REQUEST"
  shows "ice_process_packet cred hmac data source ice = do {
    ice1 \<leftarrow> ice_marked data ice;
    (err, mapped) \<leftarrow> stun_process_response data 64;
    (case mapped of
       (Some ip, Some port) \<Rightarrow>
         if err = TINYRTC_OK \<and> ip \<noteq> [] then
           (case ice_add_reflexive ip port ice1 of (ice2, evs) \<Rightarrow> Some (0, ice2, evs))
         else Some (0, ice1, [])
     | _ \<Rightarrow> Some (0, ice1, []))
  }"
proof -
  obtain t where "rd16 data 0 = Some t" using be16.dec_in_bounds [of 0 data] assms(1) by auto
  with assms show ?thesis by (simp add: ice_process_packet_def ice_marked_def)
qed

lemma ice_process_packet_step:
  assumes "ice_inv ice" and "ice_packet_ok data"
  shows "\<exists>r ice' evs. ice_process_packet cred hmac data source ice = Some (r, ice', evs) \<and>
    ice_inv ice' \<and> ice_extends ice ice'"
proof (cases "length data < 8 \<or> rd32 data 4 \<noteq> Some STUN_MAGIC_COOKIE")
  case True
  then show ?thesis using assms(1) by (simp add: ice_packet_not_stun)
next
  case False
  with assms(2) have stun: "20 \<le> length data" "rd32 data 4 = Some STUN_MAGIC_COOKIE"
    "\<forall>l. rd16 data 2 = Some l \<longrightarrow> 20 + unat l \<le> length data"
    by (auto simp: ice_packet_ok_def)
  show ?thesis
  proof (cases "rd16 data 0 = Some STUN_BINDING_REQUEST")
    case True
    have "ice_inv (ice\<lparr>ice_pairs := map (ice_mark_request ice addr) (ice_pairs ice)\<rparr>) \<and>
        ice_extends ice (ice\<lparr>ice_pairs := map (ice_mark_request ice addr) (ice_pairs ice)\<rparr>)" for addr
      by (rule ice_pairs_update_step [OF assms(1)]) simp_all
    then show ?thesis
      using assms(1) unfolding ice_packet_request [OF stun(1,2) True] by (cases source) simp_all
  next
    case False
    obtain ps where ps: "ice_marked data ice = Some (ice\<lparr>ice_pairs := ps\<rparr>)" "length ps = length (ice_pairs ice)"
      "\<forall>i < length ps. ps ! i = ice_pairs ice ! i \<or> ps ! i = (ice_pairs ice ! i)\<lparr>pair_succeeded := True\<rparr>"
      using ice_marked_pairs [OF stun(1), of ice] by metis
    have 1: "ice_inv (ice\<lparr>ice_pairs := ps\<rparr>) \<and> ice_extends ice (ice\<lparr>ice_pairs := ps\<rparr>)"
      using ps(2,3) by (intro ice_pairs_update_step [OF assms(1)]) fastforce+
    obtain l where l: "rd16 data 2 = Some l" using be16.dec_in_bounds [of 2 data] stun(1) by auto
    with stun obtain err m where r: "stun_process_response data 64 = Some (err, m)"
      using stun_process_response_defined [of data l 64] by auto
    show ?thesis
    proof (cases "\<exists>ip port. m = (Some ip, Some port) \<and> err = TINYRTC_OK \<and> ip \<noteq> []")
      case True
      then obtain ip port where m: "m = (Some ip, Some port)" "err = TINYRTC_OK" "ip \<noteq> []" by blast
      obtain ice2 evs where a: "ice_add_reflexive ip port (ice\<lparr>ice_pairs := ps\<rparr>) = (ice2, evs)" by fastforce
      have "ice_inv ice2 \<and> ice_extends (ice\<lparr>ice_pairs := ps\<rparr>) ice2"
        using ice_add_reflexive_step [of "ice\<lparr>ice_pairs := ps\<rparr>" ip port] 1 a by simp
      with 1 show ?thesis
        unfolding ice_packet_other [OF stun(1,2) False]
        by (simp add: ps(1) r m a) (blast intro: ice_extends_trans)
    next
      case False2: False
      show ?thesis
        unfolding ice_packet_other [OF stun(1,2) False]
        using 1 False2 by (cases m) (auto simp: ps(1) r split: option.splits)
    qed
  qed
qed

text \<open>A round of checks, pair by pair.\<close>

definition ice_pinged :: "u64 \<Rightarrow> (nat \<Rightarrow> u64) \<Rightarrow> nat \<times> ice_check_pair \<Rightarrow> ice_check_pair" where
  "ice_pinged now clock = (\<lambda>(i, p).
     if ice_ping_due now p
     then p\<lparr>pair_last_ping_ms := now, pair_tid := stun_transaction_id (clock i), pair_tid_valid := True\<rparr>
     else p)"

definition ice_pair_address :: "ice_session \<Rightarrow> ice_check_pair \<Rightarrow> sockaddr" where
  "ice_pair_address ice p =
     (let remote = ice_remote ice ! pair_remote p in
      (case inet_pton (ica_ip remote) of None \<Rightarrow> 0 | Some a \<Rightarrow> a, ica_port remote))"

definition ice_ping_events ::
  "ice_credentials \<Rightarrow> mac \<Rightarrow> u64 \<Rightarrow> (nat \<Rightarrow> u64) \<Rightarrow> ice_session \<Rightarrow> nat \<times> ice_check_pair \<Rightarrow> ice_event list" where
  "ice_ping_events cred hmac now clock ice = (\<lambda>(i, p).
     if \<not> ice_ping_due now p then []
     else case stun_finalize_message hmac
                 (ice_check_message cred (clock i) (ica_priority (ice_local ice ! pair_local p)))
                 512 (string_bytes (cred_remote_pwd cred)) of
            Inl _ \<Rightarrow> []
          | Inr msg \<Rightarrow> [Ice_Send (ice_pair_address ice p) msg])"

lemma ice_ping_pairs_eq:
  assumes "\<forall>p \<in> set ps. pair_local p < length (ice_local ice) \<and> pair_remote p < length (ice_remote ice)"
  shows "ice_ping_pairs cred hmac now clock ice i ps =
    Some (map (ice_pinged now clock) (enumerate i ps),
          concat (map (ice_ping_events cred hmac now clock ice) (enumerate i ps)))"
  using assms
  by (induction ps arbitrary: i)
    (auto simp: ice_pinged_def ice_ping_events_def ice_pair_address_def Let_def split: sum.split)

lemma ice_pinged_keeps [simp]:
  "pair_key (ice_pinged now clock ip) = pair_key (snd ip)"
  "pair_succeeded (ice_pinged now clock ip) = pair_succeeded (snd ip)"
  by (simp_all add: ice_pinged_def split: prod.split)

text \<open>The session that the pairs are checked in.\<close>

definition ice_checking :: "ice_session \<Rightarrow> ice_session" where
  "ice_checking ice = (if ice_phase ice = ICE_GATHERED then ice\<lparr>ice_phase := ICE_CHECKING\<rparr> else ice)"

lemma ice_phase_less [simp]:
  "ice_phase ice < ICE_GATHERED \<longleftrightarrow> ice_phase ice = ICE_NEW \<or> ice_phase ice = ICE_GATHERING"
  by (cases "ice_phase ice") (simp_all add: less_ice_state_def)

lemma ice_phase_ge [simp]:
  "ICE_GATHERED \<le> ice_phase ice \<longleftrightarrow> ice_phase ice \<noteq> ICE_NEW \<and> ice_phase ice \<noteq> ICE_GATHERING"
  by (cases "ice_phase ice") (simp_all add: less_eq_ice_state_def)

lemma ice_checking_step:
  "ice_inv ice \<Longrightarrow> ice_inv (ice_checking ice) \<and> ice_extends ice (ice_checking ice)"
  by (auto simp: ice_checking_def ice_inv_def ice_pairs_complete_def ice_extends_def less_eq_ice_state_def)

lemma ice_checking_fields [simp]:
  "ice_local (ice_checking ice) = ice_local ice" "ice_remote (ice_checking ice) = ice_remote ice"
  "ice_pairs (ice_checking ice) = ice_pairs ice" "ice_selected_pair (ice_checking ice) = ice_selected_pair ice"
  by (simp_all add: ice_checking_def)

lemma ice_ping_events_checking [simp]:
  "ice_ping_events cred hmac now clock (ice_checking ice) = ice_ping_events cred hmac now clock ice"
  unfolding ice_ping_events_def ice_pair_address_def ice_checking_fields ..

lemma ice_check_connectivity_eq:
  assumes "ice_inv ice"
  shows "ice_check_connectivity cred hmac now clock ice =
    (if ice_phase ice < ICE_GATHERED then Some (ice, [])
     else Some (ice_select_pair ((ice_checking ice)\<lparr>ice_pairs :=
                  map (ice_pinged now clock) (enumerate 0 (ice_pairs ice))\<rparr>),
                concat (map (ice_ping_events cred hmac now clock ice) (enumerate 0 (ice_pairs ice)))))"
proof -
  have "\<forall>p \<in> set (ice_pairs ice). pair_local p < length (ice_local ice) \<and> pair_remote p < length (ice_remote ice)"
    using assms ice_pair_index by (auto simp: ice_inv_def)
  then have "ice_ping_pairs cred hmac now clock (ice_checking ice) 0 (ice_pairs ice) =
    Some (map (ice_pinged now clock) (enumerate 0 (ice_pairs ice)),
          concat (map (ice_ping_events cred hmac now clock ice) (enumerate 0 (ice_pairs ice))))"
    using ice_ping_pairs_eq [of "ice_pairs ice" "ice_checking ice" cred hmac now clock 0] by simp
  then show ?thesis
    unfolding ice_check_connectivity_def ice_checking_def [symmetric] Let_def by simp
qed

text \<open>The first index at which a property holds.\<close>

lemma filter_upt_first:
  "filter P [m..<n] = i # is \<Longrightarrow> P i \<and> m \<le> i \<and> i < n \<and> (\<forall>j. m \<le> j \<longrightarrow> j < i \<longrightarrow> \<not> P j)"
proof (induction n arbitrary: "is")
  case 0
  then show ?case by simp
next
  case (Suc n)
  then show ?case
    by (cases "filter P [m..<n]") (auto simp: filter_empty_conv split: if_splits)
qed

lemma ice_select_none:
  "ice_selected_pair ice = None \<Longrightarrow> \<forall>i < length (ice_pairs ice). \<not> pair_succeeded (ice_pairs ice ! i) \<Longrightarrow>
   ice_select_pair ice = ice"
  by (simp add: ice_select_pair_def filter_empty_conv)

lemma ice_select_first:
  assumes "ice_selected_pair ice = None" and "i < length (ice_pairs ice)" and "pair_succeeded (ice_pairs ice ! i)"
    and "\<forall>j < i. \<not> pair_succeeded (ice_pairs ice ! j)"
  shows "ice_select_pair ice =
    (let l = pair_local (ice_pairs ice ! i) in
     ice\<lparr>ice_selected_pair := Some i, ice_local := (ice_local ice)[l := (ice_local ice ! l)\<lparr>ica_selected := True\<rparr>],
         ice_phase := ICE_DONE\<rparr>)"
proof -
  obtain k ks where k: "filter (\<lambda>i. pair_succeeded (ice_pairs ice ! i)) [0..<length (ice_pairs ice)] = k # ks"
    using assms(2,3) by (cases "filter (\<lambda>i. pair_succeeded (ice_pairs ice ! i)) [0..<length (ice_pairs ice)]")
      (auto simp: filter_empty_conv)
  from filter_upt_first [OF k] assms(3,4) have "k = i"
    by (meson le0 linorder_neqE_nat)
  with k assms(1) show ?thesis by (simp add: ice_select_pair_def)
qed

lemma first_succeeded_cases:
  obtains "\<forall>i < length ps. \<not> pair_succeeded (ps ! i)"
  | i where "i < length ps" and "pair_succeeded (ps ! i)" and "\<forall>j < i. \<not> pair_succeeded (ps ! j)"
proof (cases "\<exists>i. i < length ps \<and> pair_succeeded (ps ! i)")
  case True
  then have "(LEAST i. i < length ps \<and> pair_succeeded (ps ! i)) < length ps
      \<and> pair_succeeded (ps ! (LEAST i. i < length ps \<and> pair_succeeded (ps ! i)))"
    by (rule LeastI_ex)
  moreover have "\<not> pair_succeeded (ps ! j)" if "j < (LEAST i. i < length ps \<and> pair_succeeded (ps ! i))" for j
    using not_less_Least [OF that] calculation that by simp
  ultimately show ?thesis using that(2) by blast
next
  case False
  with that(1) show ?thesis by blast
qed

lemma ice_select_step:
  assumes "ice_inv ice"
  shows "ice_inv (ice_select_pair ice) \<and> ice_extends ice (ice_select_pair ice)"
proof (cases "ice_selected_pair ice")
  case None
  show ?thesis
  proof (rule first_succeeded_cases [of "ice_pairs ice"])
    assume "\<forall>i < length (ice_pairs ice). \<not> pair_succeeded (ice_pairs ice ! i)"
    with None assms show ?thesis by (simp add: ice_select_none)
  next
    fix i assume i: "i < length (ice_pairs ice)" "pair_succeeded (ice_pairs ice ! i)"
      "\<forall>j < i. \<not> pair_succeeded (ice_pairs ice ! j)"
    let ?l = "pair_local (ice_pairs ice ! i)"
    have l: "?l < length (ice_local ice)"
      using assms i(1) by (intro ice_pair_index) (simp_all add: ice_inv_def)
    have "map (ica_selected_update (\<lambda>_. False)) ((ice_local ice)[?l := (ice_local ice ! ?l)\<lparr>ica_selected := True\<rparr>])
        = map (ica_selected_update (\<lambda>_. False)) (ice_local ice)"
      using l by (intro nth_equalityI) (auto simp: nth_list_update)
    moreover have "ice_phase ice \<le> ICE_DONE" by (cases "ice_phase ice") (simp_all add: less_eq_ice_state_def)
    ultimately show ?thesis
      unfolding ice_select_first [OF None i] Let_def
      using assms i None by (auto simp: ice_inv_def ice_extends_def ice_pairs_complete_def)
  qed
next
  case (Some i)
  with assms show ?thesis by (simp add: ice_select_pair_def)
qed

lemma ice_check_connectivity_step:
  assumes "ice_inv ice"
  shows "\<exists>ice' evs. ice_check_connectivity cred hmac now clock ice = Some (ice', evs) \<and>
    ice_inv ice' \<and> ice_extends ice ice'"
proof (cases "ice_phase ice < ICE_GATHERED")
  case True
  with assms show ?thesis by (simp add: ice_check_connectivity_eq)
next
  case False
  let ?ps = "map (ice_pinged now clock) (enumerate 0 (ice_pairs ice))"
  let ?c = "ice_checking ice"
  have 1: "ice_inv (?c\<lparr>ice_pairs := ?ps\<rparr>) \<and> ice_extends ?c (?c\<lparr>ice_pairs := ?ps\<rparr>)"
    using ice_checking_step [OF assms]
    by (intro ice_pairs_update_step) (simp_all add: nth_enumerate_eq)
  then have "ice_inv (ice_select_pair (?c\<lparr>ice_pairs := ?ps\<rparr>)) \<and>
      ice_extends (?c\<lparr>ice_pairs := ?ps\<rparr>) (ice_select_pair (?c\<lparr>ice_pairs := ?ps\<rparr>))"
    by (intro ice_select_step) simp
  with 1 ice_checking_step [OF assms] False show ?thesis
    unfolding ice_check_connectivity_eq [OF assms] by (auto intro: ice_extends_trans)
qed

section \<open>The session as a machine\<close>

datatype ice_input =
    Ice_Remote sdp_candidate
  | Ice_Packet bytes "sockaddr option"
  | Ice_Check u64 "nat \<Rightarrow> u64"

fun ice_step :: "ice_credentials \<Rightarrow> mac \<Rightarrow> ice_input \<Rightarrow> ice_session \<Rightarrow> ice_session option" where
  "ice_step cred hmac (Ice_Remote cand) ice = Some (snd (ice_add_remote_candidate cand ice))"
| "ice_step cred hmac (Ice_Packet data source) ice =
     map_option (\<lambda>(r, ice', evs). ice') (ice_process_packet cred hmac data source ice)"
| "ice_step cred hmac (Ice_Check now clock) ice =
     map_option fst (ice_check_connectivity cred hmac now clock ice)"

fun ice_input_ok :: "ice_input \<Rightarrow> bool" where
  "ice_input_ok (Ice_Packet data source) = ice_packet_ok data"
| "ice_input_ok _ = True"

interpretation ice: safe_machine "ice_step cred hmac" "\<lambda>s. ice_inv s \<and> ice_extends s0 s" ice_input_ok
proof
  fix s e assume s: "ice_inv s \<and> ice_extends s0 s" and e: "ice_input_ok e"
  have "\<exists>s'. ice_step cred hmac e s = Some s' \<and> ice_inv s' \<and> ice_extends s s'"
  proof (cases e)
    case (Ice_Remote cand)
    then show ?thesis using ice_add_remote_step [of s cand] s by simp
  next
    case (Ice_Packet data source)
    then show ?thesis using ice_process_packet_step [of s data cred hmac source] s e by auto
  next
    case (Ice_Check now clock)
    then show ?thesis using ice_check_connectivity_step [of s cred hmac now clock] s by auto
  qed
  with s show "\<exists>s'. ice_step cred hmac e s = Some s' \<and> ice_inv s' \<and> ice_extends s0 s'"
    by (blast intro: ice_extends_trans)
qed

text \<open>Gathering before any remote candidate is known starts the machine.\<close>

definition ice_fresh :: "ice_session \<Rightarrow> bool" where
  "ice_fresh ice \<longleftrightarrow> ice_remote ice = [] \<and> ice_pairs ice = [] \<and> ice_selected_pair ice = None \<and>
     length (ice_local ice) \<le> ICE_MAX_CANDIDATES"

lemma ice_fresh_inv: "ice_fresh ice \<Longrightarrow> ice_inv ice"
  by (simp add: ice_fresh_def ice_inv_def ice_pairs_complete_def)

lemma ice_fresh_updates [simp]:
  "ice_fresh (ice\<lparr>ice_phase := st\<rparr>) = ice_fresh ice" "ice_fresh (ice\<lparr>ice_socket := sk\<rparr>) = ice_fresh ice"
  "ice_fresh (ice\<lparr>ice_gathering_complete := g\<rparr>) = ice_fresh ice"
  "ice_fresh (ice\<lparr>ice_stun_tid := t\<rparr>) = ice_fresh ice" "ice_fresh (ice\<lparr>ice_stun_tid_valid := v\<rparr>) = ice_fresh ice"
  by (simp_all add: ice_fresh_def)

lemma ice_add_local_fresh [simp]: "ice_fresh ice \<Longrightarrow> ice_fresh (ice_add_local_candidate ip port priority ice)"
  by (simp add: ice_add_local_candidate_def ice_fresh_def)

lemma ice_gather_interfaces_fresh: "ice_fresh ice \<Longrightarrow> ice_fresh (fold (ice_gather_interface port) ifs ice)"
  by (induction ifs arbitrary: ice) (simp_all add: ice_gather_interface_def split: option.split)

lemma ice_start_gathering_fresh:
  assumes "ice_start_gathering env stun_url ice = Some (err, ice', evs)" and "ice_fresh ice"
  shows "ice_fresh ice'"
proof -
  have server: "ice_fresh s'" if "ice_gather_server env url s = Some (s', ev)" "ice_fresh s" for s url s' ev
    using that by (auto simp: ice_gather_server_def split: option.splits prod.splits if_splits)
  show ?thesis
    using assms
    by (auto simp: ice_start_gathering_def Let_def ice_gather_interfaces_fresh split: if_splits option.splits bind_splits
        elim!: server)
qed

lemma ice_session_create_fresh: "ice_session_create ok = Some ice \<Longrightarrow> ice_fresh ice"
  by (auto simp: ice_session_create_def ice_fresh_def split: if_splits)

lemma ice_run_from_start:
  assumes "ice_session_create True = Some ice0" and "ice_start_gathering env stun_url ice0 = Some (err, ice1, evs)"
    and "\<forall>e \<in> set inputs. ice_input_ok e"
  shows "\<exists>ice. run_machine (ice_step cred hmac) inputs ice1 = Some ice \<and> ice_inv ice"
  using ice.run_safe [of ice1 ice1 inputs cred hmac] assms(3)
    ice_fresh_inv [OF ice_start_gathering_fresh [OF assms(2) ice_session_create_fresh [OF assms(1)]]]
  by blast

section \<open>Sizes and selections\<close>

lemma length_ice_check_message: "length (ice_check_message cred now priority) \<le> 302"
proof -
  have "length (ice_username cred) \<le> 255" by (simp add: ice_username_def)
  moreover have "(4 - length (ice_username cred) mod 4) mod 4 < 4" by simp
  ultimately show ?thesis
    by (simp add: ice_check_message_def Let_def length_stun_header stun_transaction_id_def)
qed

lemma ice_add_reflexive_pairs:
  assumes "length (ice_pairs ice) \<le> 1024" and "j < length (ice_pairs ice)"
  shows "ice_pairs (fst (ice_add_reflexive ip port ice)) ! j = ice_pairs ice ! j"
proof -
  have "ice_pairs (fold (\<lambda>r. ice_put_pair (ice_new_pair l r)) rs s) ! j = ice_pairs s ! j"
    if "length (ice_pairs s) \<le> 1024" "j < length (ice_pairs s)" for l rs s
    using that pair_store.put_all [of s "map (ice_new_pair l) rs"]
    by (simp add: fold_map comp_def ICE_MAX_CANDIDATES_def nth_append)
  with assms show ?thesis
    by (simp add: ice_add_reflexive_def ice_add_check_pairs_for_local_candidate_def Let_def)
qed

lemma ice_select_pair_pairs [simp]: "ice_pairs (ice_select_pair ice) = ice_pairs ice"
  by (simp add: ice_select_pair_def Let_def split: option.split list.split)

lemma ice_select_pair_stun_tid [simp]:
  "ice_stun_tid (ice_select_pair ice) = ice_stun_tid ice"
  "ice_stun_tid_valid (ice_select_pair ice) = ice_stun_tid_valid ice"
  by (simp_all add: ice_select_pair_def Let_def split: option.split list.split)

lemma ice_pairs_bound: "ice_inv ice \<Longrightarrow> length (ice_pairs ice) \<le> 1024"
  using mult_le_mono [of "length (ice_local ice)" 32 "length (ice_remote ice)" 32]
  by (simp add: ice_inv_def ice_pairs_count ICE_MAX_CANDIDATES_def)

text \<open>With an HMAC that works every due pair sends its request.\<close>

lemma ice_ping_event_sent:
  assumes "\<forall>k m. \<exists>h. hmac k m = Some h \<and> length h = 20" and "ice_ping_due now p"
  shows "\<exists>msg. ice_ping_events cred hmac now clock ice (i, p) = [Ice_Send (ice_pair_address ice p) msg] \<and>
    length msg \<le> 334 \<and>
    stun_finalize_message hmac (ice_check_message cred (clock i) (ica_priority (ice_local ice ! pair_local p)))
      512 (string_bytes (cred_remote_pwd cred)) = Inr msg"
proof -
  let ?m = "ice_check_message cred (clock i) (ica_priority (ice_local ice ! pair_local p))"
  have len: "length ?m \<le> 302" by (rule length_ice_check_message)
  have four: "4 \<le> length ?m"
    by (simp add: ice_check_message_def Let_def length_stun_header stun_transaction_id_def)
  obtain h where h: "hmac (string_bytes (cred_remote_pwd cred))
      (stun_set_length ?m (length ?m + 4) @ wr16 8 @ wr16 20 @ replicate 20 0) = Some h" "length h = 20"
    using assms(1) by blast
  have "\<exists>msg. stun_finalize_message hmac ?m 512 (string_bytes (cred_remote_pwd cred)) = Inr msg \<and> length msg = length ?m + 32"
    using stun_finalize_ok [of ?m 512 hmac "string_bytes (cred_remote_pwd cred)" h] len four h by simp
  then obtain msg where "stun_finalize_message hmac ?m 512 (string_bytes (cred_remote_pwd cred)) = Inr msg"
    "length msg = length ?m + 32" by blast
  with len assms(2) show ?thesis by (simp add: ice_ping_events_def)
qed

lemma ice_ping_events_sent:
  assumes "\<forall>k m. \<exists>h. hmac k m = Some h \<and> length h = 20"
  shows "list_all2 (\<lambda>(i, p) ev. \<exists>msg. ev = Ice_Send (ice_pair_address ice p) msg \<and> length msg \<le> 334 \<and>
        stun_finalize_message hmac (ice_check_message cred (clock i) (ica_priority (ice_local ice ! pair_local p)))
          512 (string_bytes (cred_remote_pwd cred)) = Inr msg)
      (filter (\<lambda>(i, p). ice_ping_due now p) ips) (concat (map (ice_ping_events cred hmac now clock ice) ips))"
proof (induction ips)
  case Nil
  then show ?case by simp
next
  case (Cons ip ips)
  obtain i p where ip: "ip = (i, p)" by fastforce
  show ?case
  proof (cases "ice_ping_due now p")
    case True
    then obtain msg where "ice_ping_events cred hmac now clock ice (i, p) = [Ice_Send (ice_pair_address ice p) msg]"
      "length msg \<le> 334"
      "stun_finalize_message hmac (ice_check_message cred (clock i) (ica_priority (ice_local ice ! pair_local p)))
        512 (string_bytes (cred_remote_pwd cred)) = Inr msg"
      using ice_ping_event_sent [OF assms True] by blast
    with Cons.IH True ip show ?thesis by simp
  next
    case False
    with Cons.IH ip show ?thesis by (simp add: ice_ping_events_def)
  qed
qed

lemma ice_selected_by_select:
  "ice_selected_pair (ice_select_pair ice) = Some i \<longleftrightarrow>
     ice_selected_pair ice = Some i \<or>
     ice_selected_pair ice = None \<and> i < length (ice_pairs ice) \<and> pair_succeeded (ice_pairs ice ! i) \<and>
       (\<forall>j < i. \<not> pair_succeeded (ice_pairs ice ! j))"
proof (cases "ice_selected_pair ice")
  case None
  show ?thesis
  proof (rule first_succeeded_cases [of "ice_pairs ice"])
    assume "\<forall>i < length (ice_pairs ice). \<not> pair_succeeded (ice_pairs ice ! i)"
    with None show ?thesis by (auto simp: ice_select_none)
  next
    fix k assume k: "k < length (ice_pairs ice)" "pair_succeeded (ice_pairs ice ! k)"
      "\<forall>j < k. \<not> pair_succeeded (ice_pairs ice ! j)"
    then show ?thesis
      unfolding ice_select_first [OF None k] Let_def using None by (auto intro: linorder_neqE_nat)
  qed
next
  case (Some k)
  then show ?thesis by (simp add: ice_select_pair_def)
qed

section \<open>Properties\<close>

definition ice_credentials_example :: ice_credentials where
  "ice_credentials_example = \<lparr>cred_local_ufrag = ''abcd'', cred_local_pwd = ''secret'', cred_remote_ufrag = ''efgh'',
     cred_remote_pwd = ''hidden'', cred_is_initiator = True\<rparr>"

definition ice_remote_example :: "u16 \<Rightarrow> sdp_candidate" where
  "ice_remote_example port = \<lparr>sc_foundation = ''1'', sc_priority = 1, sc_ip = ''10.0.0.2'', sc_port = port,
     sc_type = ''host'', sc_protocol = ''udp'', sc_is_ipv6 = False\<rparr>"

definition ice_env_example :: ice_gather_env where
  "ice_env_example = \<lparr>ge_socket = 3, ge_bind_ok = True, ge_port = 5000, ge_interfaces = None,
     ge_resolve = (\<lambda>_ _. None), ge_now = 7, ge_sent_ok = True\<rparr>"

text \<open>One local and two remote candidates; both check pairs wait for their first check.\<close>

definition ice_session_example :: ice_session where
  "ice_session_example =
     \<lparr>ice_phase = ICE_GATHERED, ice_local = [ice_host_candidate ''10.0.0.1'' 5000 (ICE_PRIORITY_HOST_minus 0)],
      ice_remote = map (\<lambda>p. ice_candidate_from_sdp (ice_remote_example p)) [6000, 6001],
      ice_pairs = [ice_new_pair 0 0, ice_new_pair 0 1], ice_selected_pair = None, ice_socket = 3,
      ice_gathering_complete = True, ice_stun_tid = replicate 12 0, ice_stun_tid_valid = False\<rparr>"

lemma ice_session_example_inv: "ice_inv ice_session_example"
  by (auto simp: ice_session_example_def ice_inv_def ice_pairs_complete_def ICE_MAX_CANDIDATES_def)

text \<open>C28: after gathering, no sequence of remote candidates, datagrams and connectivity checks makes
  the session access a candidate or pair outside its arrays, and at all times every combination of a
  local and a remote candidate is exactly one check pair; a selected pair is one that succeeded.
  Datagrams with the STUN cookie need a complete header and a length field that fits the datagram.\<close>

theorem ice_session_safe:
  assumes "ice_session_create True = Some ice0" and "ice_start_gathering env stun_url ice0 = Some (err, ice1, evs)"
    and "\<forall>data source. Ice_Packet data source \<in> set inputs \<longrightarrow> ice_packet_ok data"
  shows "\<exists>ice. run_machine (ice_step cred hmac) inputs ice1 = Some ice \<and>
    length (ice_local ice) \<le> ICE_MAX_CANDIDATES \<and> length (ice_remote ice) \<le> ICE_MAX_CANDIDATES \<and>
    length (ice_pairs ice) = length (ice_local ice) * length (ice_remote ice) \<and>
    (\<forall>l < length (ice_local ice). \<forall>r < length (ice_remote ice).
       \<exists>!i. i < length (ice_pairs ice) \<and> pair_key (ice_pairs ice ! i) = (l, r)) \<and>
    (\<forall>i. ice_selected_pair ice = Some i \<longrightarrow> i < length (ice_pairs ice) \<and> pair_succeeded (ice_pairs ice ! i))"
proof -
  have "\<forall>e \<in> set inputs. ice_input_ok e"
  proof
    fix e assume "e \<in> set inputs"
    with assms(3) show "ice_input_ok e" by (cases e) auto
  qed
  then obtain ice where run: "run_machine (ice_step cred hmac) inputs ice1 = Some ice" and inv: "ice_inv ice"
    using ice_run_from_start [OF assms(1,2)] by blast
  have "\<exists>!i. i < length (ice_pairs ice) \<and> pair_key (ice_pairs ice ! i) = (l, r)"
    if "l < length (ice_local ice)" "r < length (ice_remote ice)" for l r
  proof -
    have "(l, r) \<in> set (map pair_key (ice_pairs ice))" and d: "distinct (map pair_key (ice_pairs ice))"
      using inv that by (simp_all add: ice_inv_def ice_pairs_complete_def del: set_map)
    then obtain i where i: "i < length (ice_pairs ice)" "pair_key (ice_pairs ice ! i) = (l, r)"
      by (metis (no_types, lifting) in_set_conv_nth length_map nth_map)
    moreover have "j = i" if "j < length (ice_pairs ice)" "pair_key (ice_pairs ice ! j) = (l, r)" for j
      using d i that nth_eq_iff_index_eq [OF d, of i j] by simp
    ultimately show ?thesis by blast
  qed
  then show ?thesis
    using run inv ice_pairs_count [of ice] by (intro exI [of _ ice]) (simp add: ice_inv_def)
qed

theorem ice_session_safe_witness:
  "\<exists>ice1. ice_start_gathering ice_env_example None (the (ice_session_create True)) = Some (TINYRTC_OK, ice1, []) \<and>
    (\<exists>ice. run_machine (ice_step ice_credentials_example (\<lambda>_ _. None))
       [Ice_Remote (ice_remote_example 6000), Ice_Check 100 (\<lambda>_. 100)] ice1 = Some ice \<and>
     length (ice_pairs ice) = length (ice_local ice) * length (ice_remote ice))"
proof -
  obtain ice0 where c: "ice_session_create True = Some ice0" by (simp add: ice_session_create_def)
  obtain ice1 where g: "ice_start_gathering ice_env_example None ice0 = Some (TINYRTC_OK, ice1, [])"
    by (simp add: ice_start_gathering_def ice_env_example_def Let_def)
  show ?thesis
    using ice_session_safe [OF c g, of "[Ice_Remote (ice_remote_example 6000), Ice_Check 100 (\<lambda>_. 100)]"
        ice_credentials_example "\<lambda>_ _. None"] c g by auto
qed



text \<open>C30: one round of connectivity checks sends exactly one signed request per pair that is due, in the
  order of the pairs, to the pair's remote address; every request fits its 512-byte buffer.  Only the
  due pairs change, and the first pair that has succeeded is selected if none was.\<close>

theorem ice_check_round:
  assumes "ice_inv ice" and "ICE_GATHERED \<le> ice_phase ice"
    and "\<forall>k m. \<exists>h. hmac k m = Some h \<and> length h = 20"
  shows "\<exists>ice' evs. ice_check_connectivity cred hmac now clock ice = Some (ice', evs) \<and>
    list_all2 (\<lambda>(i, p) ev. \<exists>msg. ev = Ice_Send (ice_pair_address ice p) msg \<and> length msg \<le> 334 \<and>
        stun_finalize_message hmac (ice_check_message cred (clock i) (ica_priority (ice_local ice ! pair_local p)))
          512 (string_bytes (cred_remote_pwd cred)) = Inr msg)
      (filter (\<lambda>(i, p). ice_ping_due now p) (enumerate 0 (ice_pairs ice))) evs \<and>
    ice_pairs ice' = map (\<lambda>(i, p).
      if ice_ping_due now p
      then p\<lparr>pair_last_ping_ms := now, pair_tid := stun_transaction_id (clock i), pair_tid_valid := True\<rparr>
      else p) (enumerate 0 (ice_pairs ice)) \<and>
    (\<forall>i. ice_selected_pair ice' = Some i \<longleftrightarrow>
       ice_selected_pair ice = Some i \<or>
       ice_selected_pair ice = None \<and> i < length (ice_pairs ice) \<and> pair_succeeded (ice_pairs ice ! i) \<and>
         (\<forall>j < i. \<not> pair_succeeded (ice_pairs ice ! j)))"
proof -
  let ?ps = "map (ice_pinged now clock) (enumerate 0 (ice_pairs ice))"
  let ?s = "(ice_checking ice)\<lparr>ice_pairs := ?ps\<rparr>"
  let ?evs = "concat (map (ice_ping_events cred hmac now clock ice) (enumerate 0 (ice_pairs ice)))"
  have phase: "\<not> ice_phase ice < ICE_GATHERED" using assms(2) by simp
  have events: "list_all2 (\<lambda>(i, p) ev. \<exists>msg. ev = Ice_Send (ice_pair_address ice p) msg \<and> length msg \<le> 334 \<and>
        stun_finalize_message hmac (ice_check_message cred (clock i) (ica_priority (ice_local ice ! pair_local p)))
          512 (string_bytes (cred_remote_pwd cred)) = Inr msg)
      (filter (\<lambda>(i, p). ice_ping_due now p) ips) (concat (map (ice_ping_events cred hmac now clock ice) ips))" for ips
    by (rule ice_ping_events_sent [OF assms(3)])
  have "ice_selected_pair (ice_select_pair ?s) = Some i \<longleftrightarrow>
       ice_selected_pair ice = Some i \<or>
       ice_selected_pair ice = None \<and> i < length (ice_pairs ice) \<and> pair_succeeded (ice_pairs ice ! i) \<and>
         (\<forall>j < i. \<not> pair_succeeded (ice_pairs ice ! j))" for i
    using ice_selected_by_select [of ?s i] by (auto simp: nth_enumerate_eq)
  then show ?thesis
    using events phase unfolding ice_check_connectivity_eq [OF assms(1)] ice_pinged_def by simp
qed

theorem ice_check_round_witness:
  "\<exists>ice' evs. ice_check_connectivity ice_credentials_example (\<lambda>_ _. Some (replicate 20 0)) 9 (\<lambda>_. 9) ice_session_example
      = Some (ice', evs) \<and> ice_selected_pair ice' = None"
proof -
  have phase: "ICE_GATHERED \<le> ice_phase ice_session_example" by (simp add: ice_session_example_def)
  have hmac: "\<forall>k m. \<exists>h. (\<lambda>_ _. Some (replicate 20 0)) k m = Some h \<and> length h = 20" by simp
  show ?thesis
    using ice_check_round [OF ice_session_example_inv phase hmac, of ice_credentials_example 9 "\<lambda>_. 9"]
  proof (elim exE conjE)
    fix ice' evs
    assume "ice_check_connectivity ice_credentials_example (\<lambda>_ _. Some (replicate 20 0)) 9 (\<lambda>_. 9) ice_session_example
        = Some (ice', evs)"
      and "\<forall>i. ice_selected_pair ice' = Some i \<longleftrightarrow> ice_selected_pair ice_session_example = Some i \<or>
        ice_selected_pair ice_session_example = None \<and> i < length (ice_pairs ice_session_example) \<and>
        pair_succeeded (ice_pairs ice_session_example ! i) \<and> (\<forall>j < i. \<not> pair_succeeded (ice_pairs ice_session_example ! j))"
    moreover have "\<not> pair_succeeded (ice_pairs ice_session_example ! i)"
      if "i < length (ice_pairs ice_session_example)" for i
      using that by (cases i) (simp_all add: ice_session_example_def ice_new_pair_def)
    moreover have "ice_selected_pair ice_session_example = None" by (simp add: ice_session_example_def)
    ultimately show ?thesis by (metis option.distinct(1) option.exhaust)
  qed
qed

text \<open>C32: the transaction id is the clock in milliseconds, so two due pairs checked at the same clock
  value store the same id.  A response to the check of the later one is then credited to the first
  pair that stores the id, which is at or before the earlier one: that pair is marked as succeeded,
  whichever of the two checks the response answers, and no other pair's mark changes, the later
  pair's in particular.  (The id is assumed not to be that of the request to the STUN server, which
  is compared first.)\<close>

theorem ice_same_clock_check_lost:
  assumes "ice_inv ice" and "ice_check_connectivity cred hmac now clock ice = Some (ice1, evs)"
    and "ICE_GATHERED \<le> ice_phase ice" and "i < j" and "j < length (ice_pairs ice)"
    and "ice_ping_due now (ice_pairs ice ! i)" and "ice_ping_due now (ice_pairs ice ! j)" and "clock i = clock j"
    and "20 \<le> length data" and "rd16 data 0 = Some STUN_BINDING_RESPONSE" and "rd32 data 4 = Some STUN_MAGIC_COOKIE"
    and "take 12 (drop 8 data) = stun_transaction_id (clock j)"
    and "ice_stun_tid_valid ice \<Longrightarrow> ice_stun_tid ice \<noteq> stun_transaction_id (clock j)"
    and "ice_process_packet cred hmac data source ice1 = Some (r, ice2, evs2)"
  shows "ice_awaits (stun_transaction_id (clock j)) (ice_pairs ice1 ! i) \<and>
     ice_awaits (stun_transaction_id (clock j)) (ice_pairs ice1 ! j) \<and>
     (\<exists>k \<le> i. ice_awaits (stun_transaction_id (clock j)) (ice_pairs ice1 ! k) \<and>
        (\<forall>m < k. \<not> ice_awaits (stun_transaction_id (clock j)) (ice_pairs ice1 ! m)) \<and>
        pair_succeeded (ice_pairs ice2 ! k) \<and>
        (\<forall>m < length (ice_pairs ice). m \<noteq> k \<longrightarrow>
           pair_succeeded (ice_pairs ice2 ! m) = pair_succeeded (ice_pairs ice ! m))) \<and>
     \<not> pair_succeeded (ice_pairs ice2 ! j)"
proof -
  let ?id = "stun_transaction_id (clock j)"
  have ice1: "ice1 = ice_select_pair ((ice_checking ice)\<lparr>ice_pairs := map (ice_pinged now clock) (enumerate 0 (ice_pairs ice))\<rparr>)"
    using assms(2,3) by (auto simp: ice_check_connectivity_eq [OF assms(1)])
  then have ps1: "ice_pairs ice1 = map (ice_pinged now clock) (enumerate 0 (ice_pairs ice))" by simp
  have n1: "length (ice_pairs ice1) = length (ice_pairs ice)" by (simp add: ps1)
  have kept: "pair_succeeded (ice_pairs ice1 ! m) = pair_succeeded (ice_pairs ice ! m)"
    if "m < length (ice_pairs ice)" for m using that by (simp add: ps1 nth_enumerate_eq)
  have await: "ice_awaits ?id (ice_pairs ice1 ! i)" "ice_awaits ?id (ice_pairs ice1 ! j)"
    using assms(4-8) by (simp_all add: ps1 nth_enumerate_eq ice_pinged_def ice_awaits_def)
  define k where "k = (LEAST k. ice_awaits ?id (ice_pairs ice1 ! k))"
  have k: "ice_awaits ?id (ice_pairs ice1 ! k)" "k \<le> i" "\<forall>m < k. \<not> ice_awaits ?id (ice_pairs ice1 ! m)"
    unfolding k_def by (auto intro: LeastI Least_le await dest: not_less_Least)
  have "\<not> (ice_stun_tid_valid ice1 \<and> ice_stun_tid ice1 = take 12 (drop 8 data))"
    using assms(13) by (auto simp: ice1 assms(12) ice_checking_def)
  with ice_marked_pairs [OF assms(9), of ice1] obtain ps where
      ps: "ice_marked data ice1 = Some (ice1\<lparr>ice_pairs := ps\<rparr>)" "length ps = length (ice_pairs ice1)"
    and marked: "\<forall>m < length ps. ps ! m = (if m = k then (ice_pairs ice1 ! m)\<lparr>pair_succeeded := True\<rparr> else ice_pairs ice1 ! m)"
    using k assms(10) unfolding assms(12) by (metis linorder_neqE_nat)
  have "ice_inv ice1" using ice_check_connectivity_step [OF assms(1), of cred hmac now clock] assms(2) by auto
  then have "length (ice_pairs ice1) \<le> 1024" using ice_pairs_bound by blast
  with ps n1 have "ice_pairs (fst (ice_add_reflexive ip port (ice1\<lparr>ice_pairs := ps\<rparr>))) ! m = ps ! m"
    if "m < length (ice_pairs ice)" for ip port m using that by (simp add: ice_add_reflexive_pairs)
  moreover have "ice2 = ice1\<lparr>ice_pairs := ps\<rparr> \<or> (\<exists>ip port. ice2 = fst (ice_add_reflexive ip port (ice1\<lparr>ice_pairs := ps\<rparr>)))"
    using assms(14) ice_packet_other [OF assms(9,11), of cred hmac source ice1] assms(10)
    by (auto simp: ps(1) stun_constants split: bind_splits option.splits if_splits prod.splits) (metis fst_conv)+
  ultimately have ps2: "ice_pairs ice2 ! m = ps ! m" if "m < length (ice_pairs ice)" for m
    using that by auto
  have "pair_succeeded (ice_pairs ice2 ! k)"
    using ps2 [of k] marked ps(2) n1 k(2) assms(4,5) by simp
  moreover have others: "pair_succeeded (ice_pairs ice2 ! m) = pair_succeeded (ice_pairs ice ! m)"
    if "m < length (ice_pairs ice)" "m \<noteq> k" for m
    using ps2 [OF that(1)] marked ps(2) n1 that kept by simp
  moreover have "\<not> pair_succeeded (ice_pairs ice2 ! j)"
    using others [of j] k(2) assms(4,5,7) by (simp add: ice_ping_due_def)
  ultimately show ?thesis using await k by blast
qed

theorem ice_same_clock_check_lost_witness:
  "\<exists>ice1 ice2 evs r evs2.
    ice_check_connectivity ice_credentials_example (\<lambda>_ _. None) 100 (\<lambda>_. 42) ice_session_example = Some (ice1, evs) \<and>
    ice_process_packet ice_credentials_example (\<lambda>_ _. None)
      (stun_header STUN_BINDING_RESPONSE 0 (stun_transaction_id 42)) None ice1 = Some (r, ice2, evs2) \<and>
    pair_succeeded (ice_pairs ice2 ! 0) \<and> \<not> pair_succeeded (ice_pairs ice2 ! 1)"
proof -
  let ?data = "stun_header STUN_BINDING_RESPONSE 0 (stun_transaction_id 42)"
  have data: "20 \<le> length ?data" "rd16 ?data 0 = Some STUN_BINDING_RESPONSE" "rd32 ?data 4 = Some STUN_MAGIC_COOKIE"
    "take 12 (drop 8 ?data) = stun_transaction_id 42" "rd16 ?data 2 = Some 0"
    by (simp_all add: stun_header_def stun_transaction_id_def wire_simps)
  obtain ice1 evs where 1: "ice_check_connectivity ice_credentials_example (\<lambda>_ _. None) 100 (\<lambda>_. 42) ice_session_example
      = Some (ice1, evs)" and inv: "ice_inv ice1"
    using ice_check_connectivity_step [OF ice_session_example_inv] by blast
  have "ice_packet_ok ?data" using data by (simp add: ice_packet_ok_def)
  then obtain r ice2 evs2 where 2: "ice_process_packet ice_credentials_example (\<lambda>_ _. None) ?data None ice1 = Some (r, ice2, evs2)"
    using ice_process_packet_step [OF inv] by blast
  have ex: "0 < (1::nat)" "1 < length (ice_pairs ice_session_example)" "ICE_GATHERED \<le> ice_phase ice_session_example"
    "ice_ping_due 100 (ice_pairs ice_session_example ! 0)" "ice_ping_due 100 (ice_pairs ice_session_example ! 1)"
    "\<not> ice_stun_tid_valid ice_session_example"
    by (simp_all add: ice_session_example_def ice_ping_due_def ice_new_pair_def)
  from ice_same_clock_check_lost [OF ice_session_example_inv 1 ex(3,1,2,4,5) refl data(1-4) _ 2] ex(6) 1 2
  show ?thesis by auto
qed

text \<open>C31: a binding request from an address is answered to that address with one binding response, it
  marks exactly the pairs whose remote candidate has that address, and it never adds a candidate; a
  datagram without the STUN cookie is left to the media path untouched.\<close>

theorem ice_binding_request_answered:
  assumes "20 \<le> length data" and "rd32 data 4 = Some STUN_MAGIC_COOKIE" and "rd16 data 0 = Some STUN_BINDING_REQUEST"
    and "ice_inv ice"
  shows "\<exists>ice'. ice_process_packet cred hmac data (Some (ip, port)) ice = Some (0, ice',
      [Ice_Send (ip, port) (stun_create_binding_response hmac 512 (take 12 (drop 8 data)) (Some (ip, port))
         (Some (string_bytes (cred_local_pwd cred))))]) \<and>
    ice_local ice' = ice_local ice \<and> ice_remote ice' = ice_remote ice \<and>
    length (ice_pairs ice') = length (ice_pairs ice) \<and>
    (\<forall>i < length (ice_pairs ice). pair_succeeded (ice_pairs ice' ! i) \<longleftrightarrow>
       pair_succeeded (ice_pairs ice ! i) \<or>
       (ica_port (ice_remote ice ! pair_remote (ice_pairs ice ! i)) = port \<and>
        ica_ip (ice_remote ice ! pair_remote (ice_pairs ice ! i)) = inet_ntop ip)) \<and>
    (\<forall>media. length media < 8 \<or> rd32 media 4 \<noteq> Some STUN_MAGIC_COOKIE \<longrightarrow>
       ice_process_packet cred hmac media (Some (ip, port)) ice = Some (1, ice, []))"
  unfolding ice_packet_request [OF assms(1-3)] using assms(4)
  by (auto simp: ice_mark_request_def ice_packet_not_stun Let_def)

theorem ice_binding_request_answered_witness:
  "\<exists>ice' evs. ice_process_packet ice_credentials_example (\<lambda>_ _. None)
      (stun_header STUN_BINDING_REQUEST 0 (replicate 12 0)) (Some (0x0A000002, 6001)) ice_session_example = Some (0, ice', evs) \<and>
    pair_succeeded (ice_pairs ice' ! 1) \<and> \<not> pair_succeeded (ice_pairs ice' ! 0)"
proof -
  let ?data = "stun_header STUN_BINDING_REQUEST 0 (replicate 12 0)"
  have data: "20 \<le> length ?data" "rd32 ?data 4 = Some STUN_MAGIC_COOKIE" "rd16 ?data 0 = Some STUN_BINDING_REQUEST"
    by (simp_all add: stun_header_def wire_simps)
  have ip: "inet_ntop 0x0A000002 = ''10.0.0.2''"
    by (simp add: inet_ntop_def show_eval)
  show ?thesis
    using ice_binding_request_answered [OF data ice_session_example_inv, of ice_credentials_example "\<lambda>_ _. None" "0x0A000002" 6001]
    by (auto simp: ip ice_session_example_def ice_new_pair_def ice_candidate_from_sdp_def ice_remote_example_def)
qed

text \<open>The priority macro has no parentheses, so the amount subtracted for later interfaces reaches
  only its lowest part: the first thirteen host candidates have falling priorities below every
  computed priority of type host, and from the fourteenth on the priority exceeds all others.\<close>

theorem ice_host_priority_inverts:
  assumes "n < ICE_MAX_CANDIDATES"
  shows "if n < 13 then ICE_PRIORITY_HOST_minus (word_of_nat (n * 10)) = 0x7E00007E - word_of_nat (n * 10) \<and>
      ICE_PRIORITY_HOST_minus (word_of_nat (n * 10)) < ice_calculate_priority ICE_CANDIDATE_TYPE_HOST
    else ice_calculate_priority t < ICE_PRIORITY_HOST_minus (word_of_nat (n * 10)) \<and>
      ICE_PRIORITY_HOST_minus 0 < ICE_PRIORITY_HOST_minus (word_of_nat (n * 10))"
proof -
  have "\<forall>k \<in> set [0..<32]. if k < 13 then ICE_PRIORITY_HOST_minus (word_of_nat (k * 10)) = 0x7E00007E - word_of_nat (k * 10) \<and>
      ICE_PRIORITY_HOST_minus (word_of_nat (k * 10)) < ice_calculate_priority ICE_CANDIDATE_TYPE_HOST
    else ice_calculate_priority t < ICE_PRIORITY_HOST_minus (word_of_nat (k * 10)) \<and>
      ICE_PRIORITY_HOST_minus 0 < ICE_PRIORITY_HOST_minus (word_of_nat (k * 10))"
    by (cases t) (simp_all add: upt_rec ICE_PRIORITY_HOST_minus_def ice_calculate_priority_def)
  from bspec [OF this, of n] assms show ?thesis
    unfolding ICE_MAX_CANDIDATES_def set_upt atLeastLessThan_iff by (simp only: le0 simp_thms(6,21-22) conj_absorb True_implies_equals)
qed

theorem ice_host_priority_inverts_witness:
  "ice_calculate_priority ICE_CANDIDATE_TYPE_HOST < ICE_PRIORITY_HOST_minus (word_of_nat (13 * 10))"
  using ice_host_priority_inverts [of 13 ICE_CANDIDATE_TYPE_HOST] by (simp add: ICE_MAX_CANDIDATES_def)

end
