(* ===== verification/Ice_Exchange.thy ===== *)
theory Ice_Exchange
  imports Ice
begin

text \<open>
  Two ICE sessions that exchange a connectivity check: the request of one, the answer of the other
  and the round of checks after that connect both.
\<close>

section \<open>The messages of an exchange\<close>

lemma stun_header_reads:
  assumes "length tid = 12"
  shows "20 \<le> length (stun_header t l tid @ rest)" and "rd16 (stun_header t l tid @ rest) 0 = Some t"
    and "rd16 (stun_header t l tid @ rest) 2 = Some l"
    and "rd32 (stun_header t l tid @ rest) 4 = Some STUN_MAGIC_COOKIE" and "take 12 (drop 8 (stun_header t l tid @ rest)) = tid"
  using assms by (simp_all add: stun_header_def wire_simps)

lemma length_stun_transaction_id [simp]: "length (stun_transaction_id now) = 12"
  by (simp add: stun_transaction_id_def)

lemma stun_finalized_header:
  assumes "\<forall>k m. \<exists>h. hmac k m = Some h \<and> length h = 20" and "msg = stun_header t 0 tid @ attrs" and "length tid = 12"
    and "stun_finalize_message hmac msg buf_size password = Inr m"
  shows "\<exists>l rest. m = stun_header t l tid @ rest"
proof -
  have fits: "length msg + 32 \<le> buf_size"
    using assms(4) by (auto simp: stun_finalize_message_def Let_def split: if_splits option.splits)
  obtain h where h: "hmac password (stun_set_length msg (length msg + 4) @ wr16 8 @ wr16 20 @ replicate 20 0) = Some h" "length h = 20"
    using assms(1) by blast
  have "4 \<le> length msg" using assms(2,3) by (simp add: length_stun_header)
  from stun_finalize_ok [of msg buf_size hmac password h, OF this fits h] assms(4) show ?thesis
    unfolding assms(2) stun_set_length_header by (simp add: Let_def) blast
qed

lemma stun_response_header:
  assumes "\<forall>k m. \<exists>h. hmac k m = Some h \<and> length h = 20" and "length tid = 12"
  shows "\<exists>body. stun_create_binding_response hmac 512 tid (Some (ip, port)) pw = stun_header STUN_BINDING_RESPONSE 44 tid @ body
    \<and> length body = 44"
proof -
  have "\<And>k m. \<exists>h. hmac k m = Some h \<and> length h = 20" using assms(1) by blast
  then obtain h where "length h = 20" and "stun_create_binding_response hmac 512 tid (Some (ip, port)) pw =
      stun_response_body ip port tid h @ wr32 (stun_crc32 (stun_response_body ip port tid h) XOR 0x5354554E)"
    by (rule stun_response_bytes [OF assms(2), of 512 hmac ip port pw, rotated]) simp_all
  then show ?thesis by (simp add: stun_response_body_def)
qed

text \<open>Every request of a round of checks is a binding request that awaits its transaction id.\<close>

lemma ice_sent_request:
  assumes hmac: "\<forall>k m. \<exists>h. hmac k m = Some h \<and> length h = 20"
    and inv: "ice_inv a" and phase: "ICE_GATHERED \<le> ice_phase a"
    and check: "ice_check_connectivity cred hmac now clock a = Some (a1, sent)" and "Ice_Send dst request \<in> set sent"
  obtains i l rest where "i < length (ice_pairs a1)" and "ice_awaits (stun_transaction_id (clock i)) (ice_pairs a1 ! i)"
    and "request = stun_header STUN_BINDING_REQUEST l (stun_transaction_id (clock i)) @ rest"
proof -
  have check_eq: "ice_pairs a1 = map (ice_pinged now clock) (enumerate 0 (ice_pairs a))"
    "sent = concat (map (ice_ping_events cred hmac now clock a) (enumerate 0 (ice_pairs a)))"
    using check phase by (auto simp: ice_check_connectivity_eq [OF inv])
  then obtain i p where ip: "(i, p) \<in> set (enumerate 0 (ice_pairs a))"
    and ev: "Ice_Send dst request \<in> set (ice_ping_events cred hmac now clock a (i, p))"
    using assms(5) by auto
  have p: "i < length (ice_pairs a)" "p = ice_pairs a ! i" using ip by (auto simp: in_set_enumerate_eq)
  from ev have due: "ice_ping_due now p" and msg: "stun_finalize_message hmac
      (ice_check_message cred (clock i) (ica_priority (ice_local a ! pair_local p))) 512 (string_bytes (cred_remote_pwd cred)) = Inr request"
    by (auto simp: ice_ping_events_def split: if_splits sum.splits)
  obtain attrs where "ice_check_message cred (clock i) (ica_priority (ice_local a ! pair_local p))
      = stun_header STUN_BINDING_REQUEST 0 (stun_transaction_id (clock i)) @ attrs"
    by (simp add: ice_check_message_def Let_def)
  from stun_finalized_header [OF hmac this _ msg] obtain l rest where
    "request = stun_header STUN_BINDING_REQUEST l (stun_transaction_id (clock i)) @ rest" by auto
  moreover have "ice_awaits (stun_transaction_id (clock i)) (ice_pairs a1 ! i)"
    using p due by (simp add: check_eq nth_enumerate_eq ice_pinged_def ice_awaits_def)
  ultimately show ?thesis using that p(1) by (simp add: check_eq)
qed

lemma ice_check_keeps_server_tid:
  assumes "ice_inv a" and "ice_check_connectivity cred hmac now clock a = Some (a1, sent)"
  shows "ice_stun_tid a1 = ice_stun_tid a" and "ice_stun_tid_valid a1 = ice_stun_tid_valid a"
  using assms(2) unfolding ice_check_connectivity_eq [OF assms(1)]
  by (auto simp: ice_select_pair_def ice_checking_def Let_def split: if_splits option.splits list.splits)

section \<open>A pair that succeeded connects\<close>

lemma ice_succeeded_connects:
  assumes "ice_inv s" and "ICE_GATHERED \<le> ice_phase s" and "j < length (ice_pairs s)" and "pair_succeeded (ice_pairs s ! j)"
  shows "\<exists>s' sent. ice_check_connectivity cred hmac now clock s = Some (s', sent) \<and> ice_is_connected (Some s')"
proof -
  obtain s' sent where check: "ice_check_connectivity cred hmac now clock s = Some (s', sent)" and inv: "ice_inv s'"
    using ice_check_connectivity_step [OF assms(1)] by blast
  let ?ps = "map (ice_pinged now clock) (enumerate 0 (ice_pairs s))"
  let ?c = "(ice_checking s)\<lparr>ice_pairs := ?ps\<rparr>"
  have s': "s' = ice_select_pair ?c"
    using check assms(2) by (auto simp: ice_check_connectivity_eq [OF assms(1)])
  have "\<exists>i. ice_selected_pair s' = Some i"
  proof (cases "ice_selected_pair s")
    case None
    have succ: "pair_succeeded (ice_pairs ?c ! j)" "j < length (ice_pairs ?c)"
      using assms(3,4) by (simp_all add: nth_enumerate_eq)
    obtain i where "i < length (ice_pairs ?c)" "pair_succeeded (ice_pairs ?c ! i)" "\<forall>k < i. \<not> pair_succeeded (ice_pairs ?c ! k)"
      using succ by (rule_tac ps = "ice_pairs ?c" in first_succeeded_cases) blast+
    with None show ?thesis unfolding s' ice_selected_by_select by auto
  next
    case (Some i)
    then show ?thesis unfolding s' ice_selected_by_select by simp
  qed
  then obtain i where "ice_selected_pair s' = Some i" by blast
  with inv check show ?thesis by (simp add: ice_inv_def ice_is_connected_def)
qed

text \<open>The response with an awaited transaction id marks a pair.\<close>

lemma ice_response_marks:
  assumes inv: "ice_inv a" and data: "20 \<le> length data" "rd32 data 4 = Some STUN_MAGIC_COOKIE" "rd16 data 0 = Some STUN_BINDING_RESPONSE"
    and ok: "ice_packet_ok data"
    and server: "\<not> (ice_stun_tid_valid a \<and> ice_stun_tid a = take 12 (drop 8 data))"
    and i: "i < length (ice_pairs a)" "ice_awaits (take 12 (drop 8 data)) (ice_pairs a ! i)"
  shows "\<exists>r a2 evs j. ice_process_packet cred hmac data source a = Some (r, a2, evs) \<and> ice_inv a2 \<and> ice_extends a a2 \<and>
    j < length (ice_pairs a2) \<and> pair_succeeded (ice_pairs a2 ! j)"
proof -
  define tid where "tid = take 12 (drop 8 data)"
  define j where "j = (LEAST j. ice_awaits tid (ice_pairs a ! j))"
  have "ice_awaits tid (ice_pairs a ! i)" using i(2) by (simp only: tid_def)
  then have awaits: "ice_awaits tid (ice_pairs a ! j)" and "j \<le> i"
    unfolding j_def by (rule LeastI, rule Least_le)
  moreover have "\<not> ice_awaits tid (ice_pairs a ! k)" if "k < j" for k
    using not_less_Least [of k "\<lambda>j. ice_awaits tid (ice_pairs a ! j)"] that unfolding j_def by blast
  ultimately have j: "ice_awaits tid (ice_pairs a ! j)" "\<forall>k < j. \<not> ice_awaits tid (ice_pairs a ! k)" "j < length (ice_pairs a)"
    using i(1) by auto
  obtain ps where ps: "ice_marked data a = Some (a\<lparr>ice_pairs := ps\<rparr>)" "length ps = length (ice_pairs a)"
    and marked: "\<forall>i < length ps. ps ! i =
      (if rd16 data 0 = Some STUN_BINDING_RESPONSE \<and> \<not> (ice_stun_tid_valid a \<and> ice_stun_tid a = tid)
          \<and> ice_awaits tid (ice_pairs a ! i) \<and> (\<forall>j < i. \<not> ice_awaits tid (ice_pairs a ! j))
       then (ice_pairs a ! i)\<lparr>pair_succeeded := True\<rparr> else ice_pairs a ! i)"
    using ice_marked_pairs [OF data(1), of a] unfolding tid_def by blast
  have "ps ! j = (ice_pairs a ! j)\<lparr>pair_succeeded := True\<rparr>"
    using marked j ps(2) data(3) server by (simp add: tid_def)
  then have succ: "pair_succeeded (ps ! j)" by simp
  obtain r a2 evs where step: "ice_process_packet cred hmac data source a = Some (r, a2, evs)" "ice_inv a2" "ice_extends a a2"
    using ice_process_packet_step [OF inv ok, of cred hmac source] by blast
  have "length (ice_pairs a) \<le> 1024" using inv by (rule ice_pairs_bound)
  then have refl: "ice_pairs (fst (ice_add_reflexive ip port (a\<lparr>ice_pairs := ps\<rparr>))) ! j = ps ! j" for ip port
    using ps(2) j(3) by (subst ice_add_reflexive_pairs) simp_all
  have "a2 = a\<lparr>ice_pairs := ps\<rparr> \<or> (\<exists>ip port. a2 = fst (ice_add_reflexive ip port (a\<lparr>ice_pairs := ps\<rparr>)))"
    using step(1) ice_packet_other [OF data(1,2), of cred hmac source a] data(3)
    by (auto simp: ps(1) stun_constants split: bind_splits option.splits if_splits prod.splits) (metis fst_conv)+
  then have "pair_succeeded (ice_pairs a2 ! j)" using refl succ by auto
  moreover have "j < length (ice_pairs a2)"
    using step(3) j(3) take_prefix_length [of "map pair_key (ice_pairs a)" "map pair_key (ice_pairs a2)"]
    by (simp add: ice_extends_def)
  ultimately show ?thesis using step by blast
qed

section \<open>The exchange\<close>

text \<open>C39: a connectivity check that is answered connects both sides.  When a request that a session sent
  reaches a peer, the peer answers it with one binding response; that response, brought back, makes
  the session connected at its next round of checks, whatever the time, and the peer is connected at
  its own next round if one of its pairs has the source address of the request.  The transaction id
  of the request must not be that of a pending request to the STUN server.\<close>

theorem ice_exchange_connects:
  assumes "\<forall>k m. \<exists>h. hmac k m = Some h \<and> length h = 20"
    and "ice_inv a" and "ICE_GATHERED \<le> ice_phase a" and "ice_inv b" and "ICE_GATHERED \<le> ice_phase b"
    and "ice_check_connectivity cred_a hmac now clock a = Some (a1, sent)" and "Ice_Send dst request \<in> set sent"
    and "\<not> (ice_stun_tid_valid a \<and> ice_stun_tid a = take 12 (drop 8 request))"
  shows "\<exists>b1 response a2 evs r. ice_process_packet cred_b hmac request (Some (ip, port)) b = Some (0, b1, [Ice_Send (ip, port) response]) \<and>
    ice_process_packet cred_a hmac response source a1 = Some (r, a2, evs) \<and>
    (\<forall>now clock. \<exists>a3 sent. ice_check_connectivity cred_a hmac now clock a2 = Some (a3, sent) \<and> ice_is_connected (Some a3)) \<and>
    ((\<exists>p \<in> set (ice_pairs b). ica_port (ice_remote b ! pair_remote p) = port \<and> ica_ip (ice_remote b ! pair_remote p) = inet_ntop ip) \<longrightarrow>
     (\<forall>now clock. \<exists>b2 sent. ice_check_connectivity cred_b hmac now clock b1 = Some (b2, sent) \<and> ice_is_connected (Some b2)))"
proof -
  obtain i l rest where i: "i < length (ice_pairs a1)" "ice_awaits (stun_transaction_id (clock i)) (ice_pairs a1 ! i)"
    and request: "request = stun_header STUN_BINDING_REQUEST l (stun_transaction_id (clock i)) @ rest"
    using ice_sent_request [OF assms(1-3,6,7)] by blast
  define tid where "tid = stun_transaction_id (clock i)"
  have tid: "length tid = 12" by (simp add: tid_def)
  note request_reads = stun_header_reads [OF tid, of STUN_BINDING_REQUEST l rest, folded request [folded tid_def]]
  define b1 where "b1 = b\<lparr>ice_pairs := map (ice_mark_request b (ip, port)) (ice_pairs b)\<rparr>"
  define response where "response = stun_create_binding_response hmac 512 tid (Some (ip, port)) (Some (string_bytes (cred_local_pwd cred_b)))"
  have answer: "ice_process_packet cred_b hmac request (Some (ip, port)) b = Some (0, b1, [Ice_Send (ip, port) response])"
    using ice_packet_request [OF request_reads(1,4,2)] request_reads(5) by (simp add: b1_def response_def)
  obtain body where body: "response = stun_header STUN_BINDING_RESPONSE 44 tid @ body" and len: "length body = 44"
    using stun_response_header [OF assms(1) tid] unfolding response_def by blast
  note response_reads = stun_header_reads [OF tid, of STUN_BINDING_RESPONSE 44 body, folded body]
  have ok: "ice_packet_ok response"
    using response_reads(3) len length_stun_header [OF tid, of STUN_BINDING_RESPONSE 44] unfolding body by (simp add: ice_packet_ok_def)
  have a1: "ice_inv a1" "ice_extends a a1"
    using ice_check_connectivity_step [OF assms(2), of cred_a hmac now clock] assms(6) by auto
  have "\<not> (ice_stun_tid_valid a1 \<and> ice_stun_tid a1 = take 12 (drop 8 response))"
    using assms(8) ice_check_keeps_server_tid [OF assms(2,6)] request_reads(5) response_reads(5) by simp
  then obtain r a2 evs j where a2: "ice_process_packet cred_a hmac response source a1 = Some (r, a2, evs)" "ice_inv a2" "ice_extends a1 a2"
    "j < length (ice_pairs a2)" "pair_succeeded (ice_pairs a2 ! j)"
    using ice_response_marks [OF a1(1) response_reads(1,4,2) ok, of i cred_a hmac source] i response_reads(5) by (auto simp: tid_def)
  have "ICE_GATHERED \<le> ice_phase a2"
    using assms(3) a1(2) a2(3) unfolding ice_extends_def by (meson order_trans)
  then have connected: "\<exists>a3 sent. ice_check_connectivity cred_a hmac now clock a2 = Some (a3, sent) \<and> ice_is_connected (Some a3)" for now clock
    using ice_succeeded_connects a2 by blast
  have b1: "ice_inv b1" unfolding b1_def by (rule conjunct1, rule ice_pairs_update_step [OF assms(4)]) simp_all
  have "\<exists>b2 sent. ice_check_connectivity cred_b hmac now clock b1 = Some (b2, sent) \<and> ice_is_connected (Some b2)"
    if p: "p \<in> set (ice_pairs b)" "ica_port (ice_remote b ! pair_remote p) = port" "ica_ip (ice_remote b ! pair_remote p) = inet_ntop ip" for p now clock
  proof -
    obtain k where k: "k < length (ice_pairs b)" "ice_pairs b ! k = p" using p(1) by (auto simp: in_set_conv_nth)
    then have "pair_succeeded (ice_pairs b1 ! k)" using p(2,3) by (simp add: b1_def ice_mark_request_def)
    then show ?thesis using ice_succeeded_connects [OF b1, of k] assms(5) k(1) by (simp add: b1_def)
  qed
  with answer a2(1) connected show ?thesis by blast
qed

lemma ice_example_sends:
  assumes "\<forall>k m. \<exists>h. hmac k m = Some h \<and> length h = 20"
  shows "\<exists>a1 sent dst request. ice_check_connectivity cred hmac 100 clock ice_session_example = Some (a1, sent) \<and>
    Ice_Send dst request \<in> set sent"
proof -
  have "ice_ping_due 100 (ice_new_pair 0 0)" by (simp add: ice_ping_due_def ice_new_pair_def)
  then obtain msg where "ice_ping_events cred hmac 100 clock ice_session_example (0, ice_new_pair 0 0)
      = [Ice_Send (ice_pair_address ice_session_example (ice_new_pair 0 0)) msg]"
    using ice_ping_event_sent [OF assms] by blast
  moreover have "(0, ice_new_pair 0 0) \<in> set (enumerate 0 (ice_pairs ice_session_example))"
    by (simp add: ice_session_example_def)
  ultimately have "Ice_Send (ice_pair_address ice_session_example (ice_new_pair 0 0)) msg \<in>
      set (concat (map (ice_ping_events cred hmac 100 clock ice_session_example) (enumerate 0 (ice_pairs ice_session_example))))"
    by force
  moreover have "\<not> ice_phase ice_session_example < ICE_GATHERED" by (simp add: ice_session_example_def)
  ultimately show ?thesis unfolding ice_check_connectivity_eq [OF ice_session_example_inv] by (simp only: if_False) blast
qed

theorem ice_exchange_connects_witness:
  "\<exists>a1 sent dst request b1 response a2 evs r a3 sent3 b2 sent2.
     ice_check_connectivity ice_credentials_example (\<lambda>_ _. Some (replicate 20 0)) 100 (\<lambda>_. 42) ice_session_example = Some (a1, sent) \<and>
     Ice_Send dst request \<in> set sent \<and>
     ice_process_packet ice_credentials_example (\<lambda>_ _. Some (replicate 20 0)) request (Some (0x0A000002, 6000)) ice_session_example
       = Some (0, b1, [Ice_Send (0x0A000002, 6000) response]) \<and>
     ice_process_packet ice_credentials_example (\<lambda>_ _. Some (replicate 20 0)) response None a1 = Some (r, a2, evs) \<and>
     ice_check_connectivity ice_credentials_example (\<lambda>_ _. Some (replicate 20 0)) 200 (\<lambda>_. 43) a2 = Some (a3, sent3) \<and>
     ice_is_connected (Some a3) \<and>
     ice_check_connectivity ice_credentials_example (\<lambda>_ _. Some (replicate 20 0)) 200 (\<lambda>_. 43) b1 = Some (b2, sent2) \<and>
     ice_is_connected (Some b2)"
proof -
  have hmac: "\<forall>k m. \<exists>h. (\<lambda>_ _. Some (replicate 20 0)) k m = Some h \<and> length h = 20" by simp
  obtain a1 sent dst request where sent: "ice_check_connectivity ice_credentials_example (\<lambda>_ _. Some (replicate 20 0)) 100 (\<lambda>_. 42)
      ice_session_example = Some (a1, sent)" "Ice_Send dst request \<in> set sent"
    using ice_example_sends [OF hmac] by blast
  have ex: "ICE_GATHERED \<le> ice_phase ice_session_example" "\<not> ice_stun_tid_valid ice_session_example"
    by (simp_all add: ice_session_example_def)
  have ip: "inet_ntop 0x0A000002 = ''10.0.0.2''" by (simp add: inet_ntop_def show_eval)
  have "\<exists>p \<in> set (ice_pairs ice_session_example). ica_port (ice_remote ice_session_example ! pair_remote p) = 6000
      \<and> ica_ip (ice_remote ice_session_example ! pair_remote p) = inet_ntop 0x0A000002"
    by (simp add: ip ice_session_example_def ice_new_pair_def ice_candidate_from_sdp_def ice_remote_example_def)
  with ice_exchange_connects [OF hmac ice_session_example_inv ex(1) ice_session_example_inv ex(1) sent,
      of ice_credentials_example "0x0A000002" 6000 None] ex(2) sent
  show ?thesis by blast
qed

end
