(* ===== verification/Sdp_Parser.thy ===== *)
theory Sdp_Parser
  imports Sdp "HOL-Library.Sublist"
begin

text \<open>
  The SDP parser, \<^verbatim>\<open>src/signal/sdp_parser.c\<close>.  A pointer into the text is the rest of the text from
  there, the terminating NUL its end; moving past the NUL is undefined.  The session being
  filled is passed along.  A local array that keeps its old value when a number is missing is
  an argument.
\<close>

abbreviation c_nl :: char where "c_nl \<equiv> CHR 0x0A"
abbreviation c_cr :: char where "c_cr \<equiv> CHR 0x0D"
abbreviation c_tab :: char where "c_tab \<equiv> CHR 0x09"

definition is_eol :: "char \<Rightarrow> bool" where
  "is_eol c \<longleftrightarrow> c = c_nl \<or> c = c_cr"

section \<open>Helpers\<close>

definition skip_whitespace :: "string \<Rightarrow> string" where
  "skip_whitespace p = dropWhile (\<lambda>c. c = CHR '' '' \<or> c = c_tab) p"

definition find_eol :: "string \<Rightarrow> string" where
  "find_eol p = dropWhile (\<lambda>c. \<not> is_eol c) p"

fun copy_until_loop :: "nat \<Rightarrow> char \<Rightarrow> string \<Rightarrow> string \<Rightarrow> string \<times> string" where
  "copy_until_loop dst_len sep dst [] = (dst, [])"
| "copy_until_loop dst_len sep dst (c # cs) =
     (if is_eol c \<or> c = sep then (dst, c # cs)
      else copy_until_loop dst_len sep
             (if (c \<noteq> CHR '' '' \<or> dst \<noteq> []) \<and> length dst < dst_len - 1 then dst @ [c] else dst) cs)"

definition strip_trailing :: "string \<Rightarrow> string" where
  "strip_trailing dst = rev (dropWhile (\<lambda>c. c = CHR '' '') (rev dst))"

text \<open>What is copied into the array of \<open>dst_len\<close> bytes and where \<^verbatim>\<open>*start\<close> is left.\<close>

definition copy_until :: "nat \<Rightarrow> char \<Rightarrow> string \<Rightarrow> string \<times> string" where
  "copy_until dst_len sep start =
     (case copy_until_loop dst_len sep [] (skip_whitespace start) of (dst, p) \<Rightarrow> (strip_trailing dst, p))"

text \<open>\<open>None\<close>: the result -1, the output is left alone.\<close>

definition parse_int :: "string \<Rightarrow> int option" where
  "parse_int str = map_option (\<lambda>(v, end). to_int32 v) (strtol str)"

definition parse_uint64 :: "string \<Rightarrow> u64 option" where
  "parse_uint64 str = map_option fst (strtoull str)"

text \<open>\<^verbatim>\<open>strtoul\<close> of a 64-bit \<^verbatim>\<open>long\<close>, 0 when there is no number.\<close>

definition strtoul :: "string \<Rightarrow> u64" where
  "strtoul str = (case strtoull str of None \<Rightarrow> 0 | Some (v, _) \<Rightarrow> v)"

definition parse_candidate :: "string \<Rightarrow> sdp_candidate option" where
  "parse_candidate line =
     (let (foundation, line) = copy_until 32 CHR '' '' line in
      if foundation = [] then None else
      let (comp_str, line) = copy_until 16 CHR '' '' line in
      if parse_int comp_str = None then None else
      let (protocol0, line) = copy_until 16 CHR '' '' line;
          protocol = (if protocol0 = [] then ''udp'' else protocol0);
          (prio_str, line) = copy_until 32 CHR '' '' line;
          prio = strtoul prio_str in
      if prio = 0 \<and> take 1 prio_str \<noteq> ''0'' then None else
      let (ip, line) = copy_until 64 CHR '' '' line in
      if ip = [] then None else
      let (port_str, line) = copy_until 16 CHR '' '' line in
      case parse_int port_str of
        None \<Rightarrow> None
      | Some port \<Rightarrow>
          (let (token, line) = copy_until 32 CHR '' '' line in
           if token \<noteq> ''typ'' then None else
           let (type, line) = copy_until 32 CHR '' '' line in
           if type = [] then None
           else Some \<lparr>sc_foundation = foundation, sc_priority = ucast prio, sc_ip = ip, sc_port = word_of_int port,
                      sc_type = type, sc_protocol = protocol, sc_is_ipv6 = CHR '':'' \<in> set ip\<rparr>))"

text \<open>The fingerprint type and, when there is one, the fingerprint.\<close>

definition parse_fingerprint :: "string \<Rightarrow> nat \<Rightarrow> nat \<Rightarrow> string \<times> string option" where
  "parse_fingerprint line type_len fp_len =
     (let (type, line) = copy_until type_len CHR '' '' line in
      if type = [] then (type, None)
      else (type, Some (take (fp_len - 1) (takeWhile (\<lambda>c. \<not> is_eol c) (skip_whitespace line)))))"

section \<open>Lines\<close>

definition skip_char :: "char \<Rightarrow> string \<Rightarrow> string" where
  "skip_char x p = (case p of [] \<Rightarrow> [] | c # cs \<Rightarrow> if c = x then cs else p)"

definition sdp_codec_of_name :: "string \<Rightarrow> codec_id \<Rightarrow> codec_id" where
  "sdp_codec_of_name name old =
     (if strcasecmp_eq name ''H264'' then TINYRTC_CODEC_H264
      else if strcasecmp_eq name ''OPUS'' then TINYRTC_CODEC_OPUS
      else if strcasecmp_eq name ''PCMA'' then TINYRTC_CODEC_PCMA
      else if strcasecmp_eq name ''PCMU'' then TINYRTC_CODEC_PCMU
      else if strcasecmp_eq name ''G722'' then TINYRTC_CODEC_G722
      else old)"

text \<open>The first media entry with the payload type is updated.\<close>

fun sdp_apply_rtpmap :: "int \<Rightarrow> string \<Rightarrow> u32 \<Rightarrow> int \<Rightarrow> sdp_media list \<Rightarrow> sdp_media list" where
  "sdp_apply_rtpmap pt codec_name clock_rate channels [] = []"
| "sdp_apply_rtpmap pt codec_name clock_rate channels (m # ms) =
     (if sm_payload_type m = pt then
        m\<lparr>sm_codec_id := sdp_codec_of_name codec_name (sm_codec_id m),
          sm_clock_rate := (if clock_rate > 0 then clock_rate else sm_clock_rate m),
          sm_channels := channels\<rparr> # ms
      else m # sdp_apply_rtpmap pt codec_name clock_rate channels ms)"

definition sdp_parse_rtpmap :: "string \<Rightarrow> sdp_session \<Rightarrow> string \<times> sdp_session" where
  "sdp_parse_rtpmap p0 session =
     (let p = skip_char CHR '':'' p0 in
      case parse_int p of
        None \<Rightarrow> (p, session)
      | Some pt \<Rightarrow>
          (let p = skip_char CHR '' '' (dropWhile (\<lambda>c. c \<noteq> CHR '' '' \<and> c \<noteq> c_nl) p);
               (codec_name, p) = copy_until 64 CHR ''/'' p;
               (encoding_params, p) = copy_until 64 c_nl (skip_char CHR ''/'' p);
               (clock_rate, channels) =
                 (case split_at_char CHR ''/'' encoding_params of
                    Some (clock, chans) \<Rightarrow> (word_of_int (atoi clock), atoi chans)
                  | None \<Rightarrow> (word_of_int (atoi encoding_params), 1)) in
           (p, session\<lparr>ss_media := sdp_apply_rtpmap pt codec_name clock_rate channels (ss_media session)\<rparr>)))"

definition sdp_set_last_mid :: "string \<Rightarrow> sdp_media list \<Rightarrow> sdp_media list" where
  "sdp_set_last_mid mid ms = butlast ms @ [(last ms)\<lparr>sm_mid := take 15 mid\<rparr>]"

definition sdp_parse_attribute :: "string \<Rightarrow> sdp_session \<Rightarrow> string \<times> sdp_session" where
  "sdp_parse_attribute p0 session =
     (let (attr_name, p) = copy_until 64 CHR '':'' p0; q = skip_char CHR '':'' p in
      if attr_name = ''ice-ufrag'' then
        (let (v, p) = copy_until 64 c_nl q in (p, session\<lparr>ss_ice_ufrag := v\<rparr>))
      else if attr_name = ''ice-pwd'' then
        (let (v, p) = copy_until 128 c_nl q in (p, session\<lparr>ss_ice_pwd := v\<rparr>))
      else if attr_name = ''fingerprint'' then
        (case parse_fingerprint q 16 128 of
           (type, fp) \<Rightarrow> (q, session\<lparr>ss_fingerprint_type := type,
             ss_fingerprint := (case fp of None \<Rightarrow> ss_fingerprint session | Some f \<Rightarrow> f)\<rparr>))
      else if attr_name = ''candidate'' then
        (if length (ss_candidates session) < SDP_MAX_CANDIDATES then
           (case parse_candidate q of
              None \<Rightarrow> (q, session)
            | Some cand \<Rightarrow> (q, session\<lparr>ss_candidates := ss_candidates session @ [cand]\<rparr>))
         else (p, session))
      else if attr_name = ''setup'' then
        (let (v, p) = copy_until 16 c_nl q in (p, session\<lparr>ss_dtls_setup := v\<rparr>))
      else if attr_name = ''mid'' then
        (if ss_media session \<noteq> [] then
           (let (v, p) = copy_until 32 c_nl q in
            (p, session\<lparr>ss_media := sdp_set_last_mid v (ss_media session)\<rparr>))
         else (p, session))
      else if attr_name = ''rtpmap'' then sdp_parse_rtpmap p session
      else (p, session))"

text \<open>The codec the payload type stands for until an \<^verbatim>\<open>a=rtpmap\<close> line follows.\<close>

definition sdp_payload_defaults :: "sdp_media \<Rightarrow> sdp_media" where
  "sdp_payload_defaults m =
     (if sm_payload_type m = 0 then m\<lparr>sm_codec_id := TINYRTC_CODEC_PCMU, sm_clock_rate := 8000, sm_channels := 1\<rparr>
      else if sm_payload_type m = 8 then m\<lparr>sm_codec_id := TINYRTC_CODEC_PCMA, sm_clock_rate := 8000, sm_channels := 1\<rparr>
      else if sm_payload_type m = 9 then m\<lparr>sm_codec_id := TINYRTC_CODEC_G722, sm_clock_rate := 8000, sm_channels := 1\<rparr>
      else if sm_payload_type m = 100 then m\<lparr>sm_codec_id := TINYRTC_CODEC_H264, sm_clock_rate := 90000, sm_channels := 1\<rparr>
      else if sm_payload_type m = 111 then m\<lparr>sm_codec_id := TINYRTC_CODEC_OPUS, sm_clock_rate := 48000, sm_channels := 2\<rparr>
      else m)"

definition sdp_parse_media :: "string \<Rightarrow> sdp_session \<Rightarrow> string \<times> sdp_session" where
  "sdp_parse_media p session =
     (if length (ss_media session) \<ge> SDP_MAX_MEDIA then (p, session)
      else
        (let (media_type, p) = copy_until 16 CHR '' '' p;
             (port_str, p) = copy_until 16 CHR '' '' p;
             (proto_str, p) = copy_until 16 CHR '' '' p;
             media = sdp_media_zero\<lparr>sm_port := (case parse_int port_str of None \<Rightarrow> 0 | Some v \<Rightarrow> v)\<rparr> in
         if media_type \<noteq> ''audio'' \<and> media_type \<noteq> ''video'' then (p, session)
         else
           (let kind = (if media_type = ''audio'' then TINYRTC_TRACK_KIND_AUDIO else TINYRTC_TRACK_KIND_VIDEO);
                (pt, p) = (case strtol p of None \<Rightarrow> (0, p) | Some (v, end_ptr) \<Rightarrow> (to_int32 v, end_ptr));
                media = sdp_payload_defaults (media\<lparr>sm_kind := kind, sm_payload_type := pt\<rparr>) in
            (p, session\<lparr>ss_media := ss_media session @ [media\<lparr>sm_direction_send := True, sm_direction_recv := True\<rparr>]\<rparr>))))"

text \<open>\<open>uninit\<close> is what \<^verbatim>\<open>sess_id\<close> and \<^verbatim>\<open>sess_ver\<close> hold when the line has no numbers.\<close>

definition sdp_parse_origin :: "u64 \<times> u64 \<Rightarrow> string \<Rightarrow> sdp_session \<Rightarrow> string \<times> sdp_session" where
  "sdp_parse_origin uninit p session =
     (let (username, p) = copy_until 256 CHR '' '' p;
          (buf, p) = copy_until 64 CHR '' '' p;
          sess_id = (case parse_uint64 buf of None \<Rightarrow> fst uninit | Some v \<Rightarrow> v);
          (buf, p) = copy_until 64 CHR '' '' p;
          sess_ver = (case parse_uint64 buf of None \<Rightarrow> snd uninit | Some v \<Rightarrow> v);
          (network_type, p) = copy_until 16 CHR '' '' p;
          (address_type, p) = copy_until 16 CHR '' '' p;
          (unicast_address, p) = copy_until 64 c_nl p in
      (p, session\<lparr>ss_username := username, ss_session_id := sess_id, ss_session_version := sess_ver,
            ss_network_type := network_type, ss_address_type := address_type,
            ss_unicast_address := unicast_address\<rparr>))"

definition sdp_parse_timing :: "string \<Rightarrow> sdp_session \<Rightarrow> string \<times> sdp_session" where
  "sdp_parse_timing p session =
     (let (buf, p) = copy_until 64 CHR '' '' p;
          start = (case parse_uint64 buf of None \<Rightarrow> ss_start_time session | Some v \<Rightarrow> v);
          (buf, p) = copy_until 64 c_nl p;
          stop = (case parse_uint64 buf of None \<Rightarrow> ss_stop_time session | Some v \<Rightarrow> v) in
      (p, session\<lparr>ss_start_time := start, ss_stop_time := stop\<rparr>))"

definition sdp_parse_line :: "u64 \<times> u64 \<Rightarrow> char \<Rightarrow> string \<Rightarrow> sdp_session \<Rightarrow> string \<times> sdp_session" where
  "sdp_parse_line uninit type p session =
     (if type = CHR ''v'' then
        (find_eol p, case parse_int p of None \<Rightarrow> session | Some v \<Rightarrow> session\<lparr>ss_version := v\<rparr>)
      else if type = CHR ''o'' then sdp_parse_origin uninit p session
      else if type = CHR ''s'' then
        (let (v, p) = copy_until 256 c_nl p in (p, session\<lparr>ss_session_name := v\<rparr>))
      else if type = CHR ''t'' then sdp_parse_timing p session
      else if type = CHR ''a'' then sdp_parse_attribute p session
      else if type = CHR ''m'' then sdp_parse_media p session
      else (p, session))"

text \<open>The step to the next line, over a line feed that follows the end of the line.\<close>

definition next_line :: "string \<Rightarrow> string" where
  "next_line p = (case find_eol p of [] \<Rightarrow> [] | _ # q \<Rightarrow> skip_char c_nl q)"

section \<open>No operation moves backwards\<close>

text \<open>Every pointer an operation returns points into the text it was given.\<close>

lemma suffix_dropWhile_le [simp]: "suffix (dropWhile P p) p"
  by (simp add: suffix_dropWhile)

lemma suffix_skip_whitespace [simp]: "suffix (skip_whitespace p) p"
  by (simp add: skip_whitespace_def)

lemma suffix_find_eol [simp]: "suffix (find_eol p) p"
  by (simp add: find_eol_def)

lemma suffix_skip_char [simp]: "suffix (skip_char x p) p"
  by (simp add: skip_char_def suffix_Cons split: list.split)

lemma copy_until_loop_suffix: "suffix (snd (copy_until_loop n sep dst p)) p"
  by (induction n sep dst p rule: copy_until_loop.induct) (simp_all add: suffix_Cons)

lemma copy_until_suffix: "copy_until n sep p = (v, q) \<Longrightarrow> suffix q p"
  using copy_until_loop_suffix [of n sep "[]" "skip_whitespace p"] suffix_skip_whitespace [of p]
  by (auto simp: copy_until_def split: prod.splits intro: suffix_order.trans)

lemma scan_digits_suffix: "suffix (snd (scan_digits acc p)) p"
  by (induction acc p rule: scan_digits.induct) (simp_all add: suffix_Cons)

lemma skip_c_space_suffix: "suffix (skip_c_space p) p"
  by (induction p) (simp_all add: suffix_Cons)

lemma scan_number_suffix:
  assumes "scan_number p = Some (neg, n, q)"
  shows "suffix q p"
proof (cases "skip_c_space p")
  case Nil
  with assms show ?thesis by (simp add: scan_number_def)
next
  case (Cons c cs)
  define u where "u = (if c = CHR ''-'' \<or> c = CHR ''+'' then cs else c # cs)"
  have "q = snd (scan_digits 0 u)"
    using assms Cons by (simp add: scan_number_def u_def split: list.splits prod.splits if_splits)
  then have "suffix q u" using scan_digits_suffix by simp
  moreover have "suffix u (skip_c_space p)" by (simp add: u_def Cons suffix_Cons)
  ultimately show ?thesis using skip_c_space_suffix by (blast intro: suffix_order.trans)
qed

lemma strtol_suffix: "strtol p = Some (v, q) \<Longrightarrow> suffix q p"
  by (auto simp: strtol_def split: option.splits dest: scan_number_suffix)

lemma suffix_via_char: "suffix q (skip_char x p) \<Longrightarrow> suffix q p"
  by (rule suffix_order.trans [OF _ suffix_skip_char])

lemma suffix_skip_char_of: "suffix q p \<Longrightarrow> suffix (skip_char x q) p"
  by (rule suffix_order.trans [OF suffix_skip_char])

lemma suffix_via_drop: "suffix q (dropWhile P p) \<Longrightarrow> suffix q p"
  by (rule suffix_order.trans [OF _ suffix_dropWhile_le])

lemmas suffix_steps = copy_until_suffix strtol_suffix suffix_via_char suffix_via_drop

lemma sdp_parse_origin_suffix: "sdp_parse_origin u p s = (q, s') \<Longrightarrow> suffix q p"
  unfolding sdp_parse_origin_def Let_def
  by (clarsimp split: prod.splits dest!: copy_until_suffix) (meson suffix_order.trans)

lemma sdp_parse_timing_suffix: "sdp_parse_timing p s = (q, s') \<Longrightarrow> suffix q p"
  unfolding sdp_parse_timing_def Let_def
  by (clarsimp split: prod.splits dest!: copy_until_suffix) (meson suffix_order.trans)

lemma sdp_parse_rtpmap_suffix: "sdp_parse_rtpmap p s = (q, s') \<Longrightarrow> suffix q p"
  unfolding sdp_parse_rtpmap_def Let_def
  by (auto split: prod.splits option.splits dest!: suffix_steps intro: suffix_order.trans)

lemma sdp_parse_media_suffix: "sdp_parse_media p s = (q, s') \<Longrightarrow> suffix q p"
  unfolding sdp_parse_media_def Let_def
  by (auto split: prod.splits option.splits if_splits dest!: suffix_steps intro: suffix_order.trans)

lemma sdp_parse_attribute_suffix: "sdp_parse_attribute p s = (q, s') \<Longrightarrow> suffix q p"
  unfolding sdp_parse_attribute_def Let_def
  by (auto split: prod.splits option.splits if_splits dest!: suffix_steps sdp_parse_rtpmap_suffix
      intro: suffix_order.trans suffix_skip_char_of)

lemma sdp_parse_line_suffix: "sdp_parse_line u type p s = (q, s') \<Longrightarrow> suffix q p"
  unfolding sdp_parse_line_def Let_def
  by (auto split: prod.splits option.splits if_splits dest!: suffix_steps sdp_parse_attribute_suffix
      sdp_parse_origin_suffix sdp_parse_timing_suffix sdp_parse_media_suffix)

lemma next_line_suffix: "suffix (next_line p) p"
proof (cases "find_eol p")
  case (Cons c q)
  then have "suffix q p" using suffix_find_eol [of p] by (metis suffix_ConsD)
  with Cons show ?thesis by (simp add: next_line_def) (meson suffix_order.trans suffix_skip_char)
qed (simp add: next_line_def)

lemma sdp_parse_line_length: "length (next_line (fst (sdp_parse_line u type p s))) \<le> length p"
  using suffix_length_le [OF next_line_suffix] suffix_length_le [OF sdp_parse_line_suffix [OF surjective_pairing]]
  by (rule le_trans)

section \<open>The parser\<close>

text \<open>
  A line without \<^verbatim>\<open>=\<close> after its first character is left by a step past its end, which is past the
  NUL when no line end follows.
\<close>

function sdp_parse_lines :: "u64 \<times> u64 \<Rightarrow> string \<Rightarrow> sdp_session \<Rightarrow> sdp_session option" where
  "sdp_parse_lines uninit [] session = Some session"
| "sdp_parse_lines uninit (c # p) session =
     (if is_eol c then sdp_parse_lines uninit p session
      else if take 1 p \<noteq> ''='' then
        (case find_eol p of [] \<Rightarrow> None | _ # q \<Rightarrow> sdp_parse_lines uninit q session)
      else
        sdp_parse_lines uninit (next_line (fst (sdp_parse_line uninit c (drop 1 p) session)))
          (snd (sdp_parse_line uninit c (drop 1 p) session)))"
  by pat_completeness auto
termination
proof (relation "measure (\<lambda>(u, p, s). length p)", goal_cases)
  case (3 u c p s e q)
  then show ?case using suffix_length_le [OF suffix_find_eol, of p] by simp
next
  case (4 u c p s)
  then show ?case using sdp_parse_line_length [of u c "drop 1 p" s] by simp
qed simp_all

declare sdp_parse_lines.simps [simp del]

definition sdp_parse :: "u64 \<times> u64 \<Rightarrow> string \<Rightarrow> (tinyrtc_error \<times> sdp_session) option" where
  "sdp_parse uninit text = do {
     session \<leftarrow> sdp_parse_lines uninit text sdp_session_init;
     Some (if ss_version session = 0 then TINYRTC_OK else TINYRTC_ERROR, session)
   }"

section \<open>Everything read fits its array\<close>

lemma copy_until_loop_length:
  "length dst \<le> n - 1 \<Longrightarrow> length (fst (copy_until_loop n sep dst p)) \<le> n - 1"
  by (induction n sep dst p rule: copy_until_loop.induct) auto

lemma length_strip_trailing: "length (strip_trailing w) \<le> length w"
  by (simp add: strip_trailing_def length_dropWhile_le [of _ "rev w", simplified])

lemma copy_until_length: "copy_until n sep p = (v, q) \<Longrightarrow> 0 < n \<Longrightarrow> length v < n"
  using copy_until_loop_length [of "[]" n sep "skip_whitespace p"]
    length_strip_trailing [of "fst (copy_until_loop n sep [] (skip_whitespace p))"]
  by (auto simp: copy_until_def split: prod.splits)

lemma to_int32_range: "- (2 ^ 31) \<le> to_int32 i" "to_int32 i < 2 ^ 31"
  using signed_take_bit_int_greater_eq_minus_exp [of 31 i] signed_take_bit_int_less_exp [of 31 i]
  by (simp_all add: to_int32_def)

lemma parse_int_range: "parse_int p = Some v \<Longrightarrow> - (2 ^ 31) \<le> v \<and> v < 2 ^ 31"
  using to_int32_range by (auto simp: parse_int_def)

lemma atoi_range: "- (2 ^ 31) \<le> atoi p" "atoi p < 2 ^ 31"
  using to_int32_range by (auto simp: atoi_def split: option.splits)

lemma length_copy_until [simp]: "0 < n \<Longrightarrow> length (fst (copy_until n sep p)) < n"
  by (rule copy_until_length [of n sep p _ "snd (copy_until n sep p)"]) simp_all

lemma parse_candidate_fits: "parse_candidate p = Some c \<Longrightarrow> sdp_candidate_fits c"
  unfolding parse_candidate_def Let_def case_prod_beta
  by (auto simp: sdp_candidate_fits_def split: if_splits option.splits)

lemma parse_fingerprint_fits:
  "length (fst (parse_fingerprint p 16 128)) < 16"
  "snd (parse_fingerprint p 16 128) = Some f \<Longrightarrow> length f < 128"
  unfolding parse_fingerprint_def Let_def case_prod_beta
  by (auto split: if_splits simp: min_def)

text \<open>The fields of a session that fits can be replaced one by one.\<close>

lemma sdp_fits_updates [simp]:
  assumes "sdp_fits s"
  shows "- (2 ^ 31) \<le> i \<and> i < 2 ^ 31 \<Longrightarrow> sdp_fits (s\<lparr>ss_version := i\<rparr>)"
    "length v < 256 \<Longrightarrow> sdp_fits (s\<lparr>ss_username := v\<rparr>)" "sdp_fits (s\<lparr>ss_session_id := w\<rparr>)"
    "sdp_fits (s\<lparr>ss_session_version := w\<rparr>)" "length v < 16 \<Longrightarrow> sdp_fits (s\<lparr>ss_network_type := v\<rparr>)"
    "length v < 16 \<Longrightarrow> sdp_fits (s\<lparr>ss_address_type := v\<rparr>)" "length v < 64 \<Longrightarrow> sdp_fits (s\<lparr>ss_unicast_address := v\<rparr>)"
    "length v < 256 \<Longrightarrow> sdp_fits (s\<lparr>ss_session_name := v\<rparr>)" "sdp_fits (s\<lparr>ss_start_time := w\<rparr>)"
    "sdp_fits (s\<lparr>ss_stop_time := w\<rparr>)" "length v < 64 \<Longrightarrow> sdp_fits (s\<lparr>ss_ice_ufrag := v\<rparr>)"
    "length v < 128 \<Longrightarrow> sdp_fits (s\<lparr>ss_ice_pwd := v\<rparr>)" "length v < 128 \<Longrightarrow> sdp_fits (s\<lparr>ss_fingerprint := v\<rparr>)"
    "length v < 16 \<Longrightarrow> sdp_fits (s\<lparr>ss_fingerprint_type := v\<rparr>)" "length v < 16 \<Longrightarrow> sdp_fits (s\<lparr>ss_dtls_setup := v\<rparr>)"
    "length ms \<le> SDP_MAX_MEDIA \<Longrightarrow> \<forall>m \<in> set ms. sdp_media_fits m \<Longrightarrow> sdp_fits (s\<lparr>ss_media := ms\<rparr>)"
    "length cs \<le> SDP_MAX_CANDIDATES \<Longrightarrow> \<forall>c \<in> set cs. sdp_candidate_fits c \<Longrightarrow> sdp_fits (s\<lparr>ss_candidates := cs\<rparr>)"
  using assms by (simp_all add: sdp_fits_def)

lemma sdp_fits_fields:
  "sdp_fits s \<Longrightarrow> length (ss_media s) \<le> SDP_MAX_MEDIA" "sdp_fits s \<Longrightarrow> m \<in> set (ss_media s) \<Longrightarrow> sdp_media_fits m"
  "sdp_fits s \<Longrightarrow> c \<in> set (ss_candidates s) \<Longrightarrow> sdp_candidate_fits c" "sdp_fits s \<Longrightarrow> length (ss_fingerprint s) < 128"
  by (simp_all add: sdp_fits_def)

lemma sdp_media_fits_codec:
  "sdp_media_fits m \<Longrightarrow> - (2 ^ 31) \<le> ch \<Longrightarrow> ch < 2 ^ 31 \<Longrightarrow>
   sdp_media_fits (m\<lparr>sm_codec_id := c, sm_clock_rate := r, sm_channels := ch\<rparr>)"
  by (simp add: sdp_media_fits_def)

lemma sdp_apply_rtpmap_fits:
  assumes "- (2 ^ 31) \<le> ch" and "ch < 2 ^ 31"
  shows "\<forall>m \<in> set ms. sdp_media_fits m \<Longrightarrow> \<forall>m \<in> set (sdp_apply_rtpmap pt name rate ch ms). sdp_media_fits m"
  using sdp_media_fits_codec [OF _ assms] by (induction ms) simp_all

lemma length_sdp_apply_rtpmap [simp]: "length (sdp_apply_rtpmap pt name rate ch ms) = length ms"
  by (induction ms) simp_all

lemma sdp_set_last_mid_fits:
  assumes "ms \<noteq> []" and "\<forall>m \<in> set ms. sdp_media_fits m"
  shows "\<forall>m \<in> set (sdp_set_last_mid v ms). sdp_media_fits m"
proof -
  have "sdp_media_fits (last ms)" using assms by simp
  then have "sdp_media_fits ((last ms)\<lparr>sm_mid := take 15 v\<rparr>)" by (simp add: sdp_media_fits_def)
  with assms show ?thesis by (auto simp: sdp_set_last_mid_def dest: in_set_butlastD)
qed

lemma sdp_parse_rtpmap_fits:
  assumes "sdp_fits s"
  shows "sdp_fits (snd (sdp_parse_rtpmap p s))"
proof -
  have "sdp_fits (s\<lparr>ss_media := sdp_apply_rtpmap pt name rate ch (ss_media s)\<rparr>)"
    if "- (2 ^ 31) \<le> ch" "ch < 2 ^ 31" for pt name rate ch
    using sdp_apply_rtpmap_fits [OF that, of "ss_media s"] sdp_fits_fields [OF assms]
    by (intro sdp_fits_updates(16) [OF assms]) simp_all
  then show ?thesis
    using assms atoi_range unfolding sdp_parse_rtpmap_def Let_def case_prod_beta
    by (simp split: option.split)
qed

lemma sdp_payload_defaults_fits: "sdp_media_fits m \<Longrightarrow> sdp_media_fits (sdp_payload_defaults m)"
  by (simp add: sdp_payload_defaults_def sdp_media_fits_def)

lemma sdp_parse_media_fits:
  assumes "sdp_fits s"
  shows "sdp_fits (snd (sdp_parse_media p s))"
proof -
  have m: "sdp_media_fits ((sdp_payload_defaults (sdp_media_zero\<lparr>sm_port := (case parse_int q of None \<Rightarrow> 0 | Some v \<Rightarrow> v),
      sm_kind := k, sm_payload_type := t\<rparr>))\<lparr>sm_direction_send := True, sm_direction_recv := True\<rparr>)"
    if "- (2 ^ 31) \<le> t \<and> t < 2 ^ 31" for q k t
    using that parse_int_range [of q] sdp_payload_defaults_fits [of "sdp_media_zero\<lparr>sm_port :=
      (case parse_int q of None \<Rightarrow> 0 | Some v \<Rightarrow> v), sm_kind := k, sm_payload_type := t\<rparr>"]
    by (simp add: sdp_media_fits_def sdp_media_zero_def split: option.splits)
  have "sdp_fits (s\<lparr>ss_media := ss_media s @ [m]\<rparr>)" if "sdp_media_fits m" "length (ss_media s) < SDP_MAX_MEDIA" for m
    using that sdp_fits_fields [OF assms] by (intro sdp_fits_updates(16) [OF assms]) auto
  then show ?thesis
    using assms m to_int32_range unfolding sdp_parse_media_def Let_def case_prod_beta
    by (simp add: not_le split: option.split)
qed

lemma sdp_parse_attribute_fits:
  assumes "sdp_fits s"
  shows "sdp_fits (snd (sdp_parse_attribute p s))"
proof -
  have cand: "sdp_fits (s\<lparr>ss_candidates := ss_candidates s @ [c]\<rparr>)"
    if "sdp_candidate_fits c" "length (ss_candidates s) < SDP_MAX_CANDIDATES" for c
    using that sdp_fits_fields [OF assms] by (intro sdp_fits_updates(17) [OF assms]) auto
  have mid: "sdp_fits (s\<lparr>ss_media := sdp_set_last_mid v (ss_media s)\<rparr>)" if "ss_media s \<noteq> []" for v
    using sdp_set_last_mid_fits [OF that, of v] sdp_fits_fields [OF assms] that
    by (intro sdp_fits_updates(16) [OF assms]) (simp_all add: sdp_set_last_mid_def)
  have fp: "sdp_fits (s\<lparr>ss_fingerprint_type := fst (parse_fingerprint q 16 128),
      ss_fingerprint := case snd (parse_fingerprint q 16 128) of None \<Rightarrow> ss_fingerprint s | Some g \<Rightarrow> g\<rparr>)" for q
    using assms parse_fingerprint_fits [of q] sdp_fits_fields [OF assms] by (simp split: option.split)
  show ?thesis
    unfolding sdp_parse_attribute_def Let_def case_prod_beta
    using assms cand mid fp sdp_parse_rtpmap_fits [OF assms] parse_candidate_fits
    by (simp split: option.split)
qed

lemma sdp_parse_line_fits:
  assumes "sdp_fits s"
  shows "sdp_fits (snd (sdp_parse_line u type p s))"
proof -
  have o: "sdp_fits (snd (sdp_parse_origin u p s))"
    using assms unfolding sdp_parse_origin_def Let_def case_prod_beta by simp
  have t: "sdp_fits (snd (sdp_parse_timing p s))"
    using assms unfolding sdp_parse_timing_def Let_def case_prod_beta by simp
  have v: "sdp_fits (case parse_int p of None \<Rightarrow> s | Some v \<Rightarrow> s\<lparr>ss_version := v\<rparr>)"
    using assms parse_int_range [of p] by (simp split: option.split)
  show ?thesis
    unfolding sdp_parse_line_def Let_def case_prod_beta
    using assms o t v sdp_parse_attribute_fits [OF assms] sdp_parse_media_fits [OF assms] by simp
qed

lemma sdp_parse_lines_fits: "sdp_fits s \<Longrightarrow> sdp_parse_lines u p s = Some s' \<Longrightarrow> sdp_fits s'"
proof (induction u p s rule: sdp_parse_lines.induct)
  case (1 u s)
  then show ?case by (simp add: sdp_parse_lines.simps)
next
  case (2 u c p s)
  then show ?case
    by (simp add: sdp_parse_lines.simps(2) [of u c] sdp_parse_line_fits split: if_splits list.splits)
qed

section \<open>Texts that end in a line end\<close>

definition text_ends :: "string \<Rightarrow> bool" where
  "text_ends p \<longleftrightarrow> p = [] \<or> is_eol (last p)"

lemma text_ends_suffix: "suffix q p \<Longrightarrow> text_ends p \<Longrightarrow> text_ends q"
  by (auto simp: text_ends_def suffix_def last_append split: if_splits)

lemma text_ends_Cons: "text_ends (c # p) \<Longrightarrow> text_ends p"
  by (simp add: text_ends_def split: if_splits)

lemma find_eol_found: "text_ends (c # p) \<Longrightarrow> \<not> is_eol c \<Longrightarrow> find_eol p \<noteq> []"
  by (auto simp: text_ends_def find_eol_def dropWhile_eq_Nil_conv split: if_splits)

lemma sdp_parse_lines_defined: "text_ends p \<Longrightarrow> \<exists>s'. sdp_parse_lines u p s = Some s'"
proof (induction u p s rule: sdp_parse_lines.induct)
  case (1 u s)
  then show ?case by (simp add: sdp_parse_lines.simps)
next
  case (2 u c p s)
  have p: "text_ends p" using "2.prems" by (rule text_ends_Cons)
  consider "is_eol c" | q e where "\<not> is_eol c" "take 1 p \<noteq> ''=''" "find_eol p = e # q"
    | "\<not> is_eol c" "take 1 p = ''=''"
    using find_eol_found [OF "2.prems"] by (cases "find_eol p") auto
  then show ?case
  proof cases
    case 1
    then show ?thesis using "2.IH"(1) p by (simp add: sdp_parse_lines.simps)
  next
    case (2 q e)
    then have "suffix q p" using suffix_find_eol [of p] suffix_ConsD by fastforce
    then show ?thesis using 2 "2.IH"(2) text_ends_suffix p by (simp add: sdp_parse_lines.simps)
  next
    case 3
    let ?r = "sdp_parse_line u c (drop 1 p) s"
    have "suffix (next_line (fst ?r)) p"
      using next_line_suffix [of "fst ?r"] sdp_parse_line_suffix [of u c "drop 1 p" s "fst ?r" "snd ?r"] suffix_drop [of 1 p]
      by (auto intro: suffix_order.trans)
    then show ?thesis using 3 "2.IH"(3) text_ends_suffix p by (simp add: sdp_parse_lines.simps)
  qed
qed

section \<open>Properties\<close>

text \<open>C22: a text that is empty or ends with a line end is parsed without leaving it, whatever it
  contains, and the session that results stays within all its arrays.\<close>

theorem sdp_parse_safe:
  assumes "text = [] \<or> last text = c_nl \<or> last text = c_cr"
  shows "\<exists>err s. sdp_parse uninit text = Some (err, s) \<and> sdp_fits s"
proof -
  have "text_ends text" using assms by (auto simp: text_ends_def is_eol_def)
  then obtain s where s: "sdp_parse_lines uninit text sdp_session_init = Some s"
    using sdp_parse_lines_defined by blast
  with sdp_parse_lines_fits [OF sdp_session_init_fits s] show ?thesis by (simp add: sdp_parse_def)
qed

theorem sdp_parse_safe_witness: "\<exists>err s. sdp_parse (0, 0) [CHR ''v'', c_nl] = Some (err, s) \<and> sdp_fits s"
  by (rule sdp_parse_safe) simp

text \<open>A text whose last line has no \<^verbatim>\<open>=\<close> after its first character and no line end makes the parser
  step over the terminating NUL.\<close>

theorem sdp_parse_overruns_last_line:
  assumes "\<forall>c \<in> set eols. c = c_nl \<or> c = c_cr" and "\<forall>c \<in> set line. c \<noteq> c_nl \<and> c \<noteq> c_cr"
    and "line \<noteq> []" and "take 1 (drop 1 line) \<noteq> ''=''"
  shows "sdp_parse uninit (eols @ line) = None"
proof -
  obtain c p where l: "line = c # p" using assms(3) by (cases line) auto
  have "sdp_parse_lines uninit (eols @ line) sdp_session_init = None"
    using assms(1)
  proof (induction eols)
    case Nil
    have "find_eol p = []" using assms(2) by (auto simp: find_eol_def is_eol_def l)
    moreover have "\<not> is_eol c" using assms(2) by (simp add: is_eol_def l)
    ultimately show ?case using assms(4) by (simp add: sdp_parse_lines.simps l)
  next
    case (Cons e eols)
    then show ?case by (simp add: sdp_parse_lines.simps is_eol_def)
  qed
  then show ?thesis by (simp add: sdp_parse_def)
qed

theorem sdp_parse_overruns_last_line_witness: "sdp_parse (0, 0) (c_nl # ''v'') = None"
  using sdp_parse_overruns_last_line [of "[c_nl]" "''v''" "(0, 0)"] by simp

end
