(* ===== verification/Sdp_Roundtrip.thy ===== *)
theory Sdp_Roundtrip
  imports Sdp_Generator
begin

text \<open>
  What the parser reads from the generator's text: lemmas that read one printed word, one line, one
  media section and one candidate back, and the round trip of a whole session.
\<close>

section \<open>Words\<close>

definition sdp_value :: "string \<Rightarrow> bool" where
  "sdp_value w \<longleftrightarrow> w \<noteq> [] \<and> (\<forall>c \<in> set w. \<not> is_eol c) \<and> hd w \<noteq> CHR '' '' \<and> hd w \<noteq> c_tab \<and> last w \<noteq> CHR '' ''"

definition sdp_token :: "string \<Rightarrow> bool" where
  "sdp_token w \<longleftrightarrow> sdp_value w \<and> CHR '' '' \<notin> set w"

lemma sdp_value_literal:
  "sdp_value w \<longleftrightarrow> w \<noteq> [] \<and> list_all (\<lambda>c. \<not> is_eol c) w \<and> hd w \<noteq> CHR '' '' \<and> hd w \<noteq> c_tab \<and> last w \<noteq> CHR '' ''"
  by (simp add: sdp_value_def list_all_iff)

lemma sdp_token_value: "sdp_token w \<Longrightarrow> sdp_value w"
  by (simp add: sdp_token_def)

lemma is_eol_simps [simp]: "is_eol c_nl" "is_eol c_cr" "\<not> is_eol CHR '' ''"
  by (simp_all add: is_eol_def)

lemma c_isdigit_not_blank: "c_isdigit c \<Longrightarrow> \<not> is_eol c \<and> c \<noteq> CHR '' '' \<and> c \<noteq> c_tab \<and> c \<noteq> CHR ''/''"
  by (auto simp: is_eol_def c_isdigit_def)

lemma digits_token:
  assumes "w \<noteq> []" and "\<forall>c \<in> set w. c_isdigit c"
  shows "sdp_token w"
proof -
  have "c_isdigit (hd w)" "c_isdigit (last w)" using assms by simp_all
  then show ?thesis using assms c_isdigit_not_blank by (auto simp: sdp_token_def sdp_value_def)
qed

lemma show_nat_token: "sdp_token (show_nat n)"
  by (rule digits_token) (auto dest: show_nat_digits)

lemma show_word_token [simp]: "sdp_token (show_word w)"
  by (simp add: show_word_def show_nat_token)

lemma show_int_token [simp]: "sdp_token (show_int i)"
  using show_nat_token [of "nat (- i)"] show_nat_token [of "nat i"]
  by (auto simp: show_int_def sdp_token_def sdp_value_def is_eol_def)

lemma skip_whitespace_value: "sdp_value w \<Longrightarrow> skip_whitespace (w @ rest) = w @ rest"
  by (cases w) (simp_all add: skip_whitespace_def sdp_value_def)

lemma copy_until_loop_word:
  assumes "\<forall>c \<in> set w. \<not> is_eol c \<and> c \<noteq> sep" and "dst \<noteq> [] \<or> w = [] \<or> hd w \<noteq> CHR '' ''"
    and "length dst + length w < n" and "rest = [] \<or> is_eol (hd rest) \<or> hd rest = sep"
  shows "copy_until_loop n sep dst (w @ rest) = (dst @ w, rest)"
  using assms
proof (induction w arbitrary: dst)
  case Nil
  then show ?case by (cases rest) auto
next
  case (Cons c w)
  then have "copy_until_loop n sep (dst @ [c]) (w @ rest) = ((dst @ [c]) @ w, rest)"
    by (intro Cons.IH) auto
  with Cons.prems show ?case by auto
qed

lemma strip_trailing_value: "sdp_value w \<Longrightarrow> strip_trailing w = w"
  by (cases w rule: rev_cases) (simp_all add: strip_trailing_def sdp_value_def)

lemma copy_until_value:
  assumes "sdp_value w" and "sep \<notin> set w" and "length w < n" and "rest \<noteq> []" and "is_eol (hd rest) \<or> hd rest = sep"
  shows "copy_until n sep (w @ rest) = (w, rest)"
proof -
  have "copy_until_loop n sep [] (w @ rest) = (w, rest)"
    using copy_until_loop_word [of w sep "[]" n rest] assms by (auto simp: sdp_value_def)
  then show ?thesis using assms(1) by (simp add: copy_until_def skip_whitespace_value strip_trailing_value)
qed

lemma copy_until_blank: "copy_until n sep (CHR '' '' # p) = copy_until n sep p"
  by (simp add: copy_until_def skip_whitespace_def)

lemma copy_until_token:
  "sdp_token w \<Longrightarrow> length w < n \<Longrightarrow> rest \<noteq> [] \<Longrightarrow> is_eol (hd rest) \<or> hd rest = CHR '' '' \<Longrightarrow>
   copy_until n CHR '' '' (w @ rest) = (w, rest)"
  by (rule copy_until_value) (simp_all add: sdp_token_def)

lemma copy_until_line:
  "sdp_value w \<Longrightarrow> length w < n \<Longrightarrow> rest \<noteq> [] \<Longrightarrow> is_eol (hd rest) \<Longrightarrow> copy_until n c_nl (w @ rest) = (w, rest)"
  by (rule copy_until_value) (auto simp: sdp_value_def is_eol_def)

section \<open>Lines\<close>

lemma crlf_simps [simp]: "crlf \<noteq> []" "hd (crlf @ rest) = c_cr"
  by (simp_all add: crlf_def)

lemma number_ends_crlf [simp]: "number_ends (crlf @ rest)"
  by (simp add: crlf_def)

lemma find_eol_line: "\<forall>c \<in> set w. \<not> is_eol c \<Longrightarrow> find_eol (w @ crlf @ rest) = crlf @ rest"
  by (induction w) (simp_all add: find_eol_def crlf_def)

lemma next_line_crlf:
  assumes "\<forall>c \<in> set w. \<not> is_eol c"
  shows "next_line (w @ crlf @ rest) = rest"
  using find_eol_line [OF assms] by (simp add: next_line_def crlf_def skip_char_def)

text \<open>A printed line takes the parser to the next line when its handler stops inside the line.\<close>

lemma sdp_parse_lines_line:
  assumes "\<not> is_eol c" and "sdp_parse_line u c (body @ crlf @ rest) s = (w @ crlf @ rest, s')"
    and "\<forall>x \<in> set w. \<not> is_eol x"
  shows "sdp_parse_lines u (c # CHR ''='' # body @ crlf @ rest) s = sdp_parse_lines u rest s'"
  using assms by (simp add: sdp_parse_lines.simps next_line_crlf)

lemma attribute_name:
  assumes "sdp_value name" and "CHR '':'' \<notin> set name" and "length name < 64"
  shows "copy_until 64 CHR '':'' (name @ CHR '':'' # v) = (name, CHR '':'' # v)"
    and "copy_until 64 CHR '':'' (name @ crlf @ rest) = (name, crlf @ rest)"
  using assms by (auto intro!: copy_until_value simp: crlf_def)

text \<open>An attribute the parser has no use for.\<close>

lemma sdp_attribute_ignored:
  assumes "sdp_value name" and "CHR '':'' \<notin> set name" and "length name < 64" and "\<forall>c \<in> set v. \<not> is_eol c"
    and "name \<notin> {''ice-ufrag'', ''ice-pwd'', ''fingerprint'', ''candidate'', ''setup'', ''mid'', ''rtpmap''}"
    and "v = [] \<or> hd v = CHR '':''"
  shows "sdp_parse_lines u (''a='' @ name @ v @ crlf @ rest) s = sdp_parse_lines u rest s"
proof -
  have "copy_until 64 CHR '':'' (name @ v @ crlf @ rest) = (name, v @ crlf @ rest)"
    using assms(6) attribute_name [OF assms(1-3)] by (cases v) auto
  then have "sdp_parse_line u CHR ''a'' ((name @ v) @ crlf @ rest) s = (v @ crlf @ rest, s)"
    using assms(5) by (simp add: sdp_parse_line_def sdp_parse_attribute_def Let_def)
  from sdp_parse_lines_line [OF _ this assms(4)] show ?thesis by (simp add: is_eol_def)
qed

text \<open>An attribute whose value is one word up to the end of the line.\<close>

lemma sdp_value_attributes:
  assumes "sdp_value v"
  shows "length v < 64 \<Longrightarrow> sdp_parse_lines u (''a=ice-ufrag:'' @ v @ crlf @ rest) s = sdp_parse_lines u rest (s\<lparr>ss_ice_ufrag := v\<rparr>)"
    and "length v < 128 \<Longrightarrow> sdp_parse_lines u (''a=ice-pwd:'' @ v @ crlf @ rest) s = sdp_parse_lines u rest (s\<lparr>ss_ice_pwd := v\<rparr>)"
    and "length v < 16 \<Longrightarrow> sdp_parse_lines u (''a=setup:'' @ v @ crlf @ rest) s = sdp_parse_lines u rest (s\<lparr>ss_dtls_setup := v\<rparr>)"
    and "length v < 16 \<Longrightarrow> ss_media s \<noteq> [] \<Longrightarrow> sdp_parse_lines u (''a=mid:'' @ v @ crlf @ rest) s
      = sdp_parse_lines u rest (s\<lparr>ss_media := sdp_set_last_mid v (ss_media s)\<rparr>)"
proof -
  have e: "is_eol (hd (crlf @ rest))" "crlf @ rest \<noteq> []" by simp_all
  show "sdp_parse_lines u (''a=ice-ufrag:'' @ v @ crlf @ rest) s = sdp_parse_lines u rest (s\<lparr>ss_ice_ufrag := v\<rparr>)"
    if "length v < 64"
    using sdp_parse_lines_line [of "CHR ''a''" u "''ice-ufrag:'' @ v" rest s "[]" "s\<lparr>ss_ice_ufrag := v\<rparr>"]
      attribute_name(1) [of "''ice-ufrag''" "v @ crlf @ rest"] copy_until_line [OF assms that e(2,1)]
    by (simp add: sdp_parse_line_def sdp_parse_attribute_def Let_def skip_char_def sdp_value_def is_eol_def)
  show "sdp_parse_lines u (''a=ice-pwd:'' @ v @ crlf @ rest) s = sdp_parse_lines u rest (s\<lparr>ss_ice_pwd := v\<rparr>)"
    if "length v < 128"
    using sdp_parse_lines_line [of "CHR ''a''" u "''ice-pwd:'' @ v" rest s "[]" "s\<lparr>ss_ice_pwd := v\<rparr>"]
      attribute_name(1) [of "''ice-pwd''" "v @ crlf @ rest"] copy_until_line [OF assms that e(2,1)]
    by (simp add: sdp_parse_line_def sdp_parse_attribute_def Let_def skip_char_def sdp_value_def is_eol_def)
  show "sdp_parse_lines u (''a=setup:'' @ v @ crlf @ rest) s = sdp_parse_lines u rest (s\<lparr>ss_dtls_setup := v\<rparr>)"
    if "length v < 16"
    using sdp_parse_lines_line [of "CHR ''a''" u "''setup:'' @ v" rest s "[]" "s\<lparr>ss_dtls_setup := v\<rparr>"]
      attribute_name(1) [of "''setup''" "v @ crlf @ rest"] copy_until_line [OF assms that e(2,1)]
    by (simp add: sdp_parse_line_def sdp_parse_attribute_def Let_def skip_char_def sdp_value_def is_eol_def)
  show "sdp_parse_lines u (''a=mid:'' @ v @ crlf @ rest) s
      = sdp_parse_lines u rest (s\<lparr>ss_media := sdp_set_last_mid v (ss_media s)\<rparr>)"
    if "length v < 16" "ss_media s \<noteq> []"
    using sdp_parse_lines_line [of "CHR ''a''" u "''mid:'' @ v" rest s "[]" "s\<lparr>ss_media := sdp_set_last_mid v (ss_media s)\<rparr>"]
      attribute_name(1) [of "''mid''" "v @ crlf @ rest"] copy_until_line [OF assms _ e(2,1), of 32] that
    by (simp add: sdp_parse_line_def sdp_parse_attribute_def Let_def skip_char_def sdp_value_def is_eol_def)
qed

lemma sdp_fingerprint_attribute:
  assumes "sdp_token t" and "length t < 16" and "sdp_value v" and "length v < 128"
  shows "sdp_parse_lines u (''a=fingerprint:'' @ t @ '' '' @ v @ crlf @ rest) s
    = sdp_parse_lines u rest (s\<lparr>ss_fingerprint_type := t, ss_fingerprint := v\<rparr>)"
proof -
  have t: "copy_until 16 CHR '' '' (t @ CHR '' '' # v @ crlf @ rest) = (t, CHR '' '' # v @ crlf @ rest)"
    using assms(1,2) by (intro copy_until_token) simp_all
  have "\<forall>c \<in> set v. \<not> is_eol c" using assms(3) by (simp add: sdp_value_def)
  then have "takeWhile (\<lambda>c. \<not> is_eol c) (v @ crlf @ rest) = v"
    by (induction v) (simp_all add: crlf_def)
  moreover have "skip_whitespace (CHR '' '' # v @ crlf @ rest) = v @ crlf @ rest"
    using skip_whitespace_value [OF assms(3)] by (simp add: skip_whitespace_def)
  ultimately have "parse_fingerprint (t @ CHR '' '' # v @ crlf @ rest) 16 128 = (t, Some v)"
    using assms t by (simp add: parse_fingerprint_def sdp_token_def sdp_value_def)
  then show ?thesis
    using sdp_parse_lines_line [of "CHR ''a''" u "''fingerprint:'' @ t @ '' '' @ v" rest s "t @ '' '' @ v"
        "s\<lparr>ss_fingerprint_type := t, ss_fingerprint := v\<rparr>"]
      attribute_name(1) [of "''fingerprint''" "t @ CHR '' '' # v @ crlf @ rest"] assms(1,3)
    by (auto simp add: sdp_parse_line_def sdp_parse_attribute_def Let_def skip_char_def sdp_value_def is_eol_def sdp_token_def)
qed

section \<open>The session lines\<close>

lemma sdp_version_line:
  assumes "- (2 ^ 31) \<le> i" and "i < 2 ^ 31"
  shows "sdp_parse_lines u (''v='' @ show_int i @ crlf @ rest) s = sdp_parse_lines u rest (s\<lparr>ss_version := i\<rparr>)"
proof -
  have eol: "\<forall>c \<in> set (show_int i). \<not> is_eol c" using show_int_token [of i] by (simp add: sdp_token_def sdp_value_def)
  have "parse_int (show_int i @ crlf @ rest) = Some i"
    using assms by (simp add: parse_int_def strtol_show_int to_int32_id)
  then have "sdp_parse_line u CHR ''v'' (show_int i @ crlf @ rest) s = ([] @ crlf @ rest, s\<lparr>ss_version := i\<rparr>)"
    using find_eol_line [OF eol] by (simp add: sdp_parse_line_def)
  from sdp_parse_lines_line [OF _ this] show ?thesis by (simp add: is_eol_def)
qed

lemma parse_uint64_show: "parse_uint64 (show_word w) = Some w"
  using strtoull_show_word [of "[]" w] by (simp add: parse_uint64_def)

lemma copy_until_number:
  "length (show_word (w :: 'a::len word)) < n \<Longrightarrow> rest \<noteq> [] \<Longrightarrow> is_eol (hd rest) \<or> hd rest = CHR '' '' \<Longrightarrow>
   copy_until n CHR '' '' (show_word w @ rest) = (show_word w, rest)"
  by (rule copy_until_token) simp_all

lemma sdp_origin_lines:
  assumes "sdp_token name" and "length name < 256" and "sdp_token net" and "length net < 16"
    and "sdp_token type" and "length type < 16" and "sdp_value addr" and "length addr < 64"
  shows "sdp_parse_lines u (''o='' @ name @ '' '' @ show_word i @ '' '' @ show_word v @ '' '' @ net @ '' '' @ type @ '' ''
      @ addr @ crlf @ rest) s
    = sdp_parse_lines u rest (s\<lparr>ss_username := name, ss_session_id := i, ss_session_version := v, ss_network_type := net,
        ss_address_type := type, ss_unicast_address := addr\<rparr>)"
proof -
  let ?body = "name @ '' '' @ show_word i @ '' '' @ show_word v @ '' '' @ net @ '' '' @ type @ '' '' @ addr"
  have "copy_until 256 CHR '' '' (name @ CHR '' '' # q) = (name, CHR '' '' # q)" for q
    using assms by (intro copy_until_token) simp_all
  moreover have "copy_until 64 CHR '' '' (show_word (w :: u64) @ CHR '' '' # q) = (show_word w, CHR '' '' # q)" for w q
    using length_show_word64 [of w] by (intro copy_until_number) simp_all
  moreover have "copy_until 16 CHR '' '' (net @ CHR '' '' # q) = (net, CHR '' '' # q)"
    "copy_until 16 CHR '' '' (type @ CHR '' '' # q) = (type, CHR '' '' # q)" for q
    using assms by (auto intro!: copy_until_token)
  moreover have "copy_until 64 c_nl (addr @ crlf @ rest) = (addr, crlf @ rest)"
    using assms by (intro copy_until_line) simp_all
  ultimately have "sdp_parse_origin u (?body @ crlf @ rest) s = ([] @ crlf @ rest, s\<lparr>ss_username := name,
      ss_session_id := i, ss_session_version := v, ss_network_type := net, ss_address_type := type, ss_unicast_address := addr\<rparr>)"
    by (simp add: sdp_parse_origin_def copy_until_blank parse_uint64_show)
  then show ?thesis
    using sdp_parse_lines_line [of "CHR ''o''" u ?body rest s "[]"] by (simp add: sdp_parse_line_def is_eol_def)
qed

lemma sdp_name_line:
  assumes "sdp_value name" and "length name < 256"
  shows "sdp_parse_lines u (''s='' @ name @ crlf @ rest) s = sdp_parse_lines u rest (s\<lparr>ss_session_name := name\<rparr>)"
proof -
  have "copy_until 256 c_nl (name @ crlf @ rest) = (name, crlf @ rest)"
    using assms by (intro copy_until_line) simp_all
  then show ?thesis
    using sdp_parse_lines_line [of "CHR ''s''" u name rest s "[]"] by (simp add: sdp_parse_line_def is_eol_def)
qed

lemma sdp_timing_line:
  "sdp_parse_lines u (''t='' @ show_word a @ '' '' @ show_word b @ crlf @ rest) s
    = sdp_parse_lines u rest (s\<lparr>ss_start_time := a, ss_stop_time := b\<rparr>)"
proof -
  have "copy_until 64 CHR '' '' (show_word a @ CHR '' '' # q) = (show_word a, CHR '' '' # q)" for q
    using length_show_word64 [of a] by (intro copy_until_number) simp_all
  moreover have "copy_until 64 c_nl (show_word b @ crlf @ rest) = (show_word b, crlf @ rest)"
    using length_show_word64 [of b] by (intro copy_until_line) (simp_all add: sdp_token_value)
  ultimately have "sdp_parse_timing (show_word a @ '' '' @ show_word b @ crlf @ rest) s
      = ([] @ crlf @ rest, s\<lparr>ss_start_time := a, ss_stop_time := b\<rparr>)"
    by (simp add: sdp_parse_timing_def copy_until_blank parse_uint64_show)
  then show ?thesis
    using sdp_parse_lines_line [of "CHR ''t''" u "show_word a @ '' '' @ show_word b" rest s "[]"]
    by (simp add: sdp_parse_line_def is_eol_def)
qed

section \<open>Candidates\<close>

definition sdp_candidate_ok :: "sdp_candidate \<Rightarrow> bool" where
  "sdp_candidate_ok c \<longleftrightarrow>
     sdp_candidate_fits c \<and> sdp_token (sc_foundation c) \<and> sdp_token (sc_protocol c) \<and> sdp_token (sc_ip c) \<and>
     sdp_token (sc_type c) \<and> sc_is_ipv6 c = (CHR '':'' \<in> set (sc_ip c))"

lemma parse_int_word16: "parse_int (show_word (w :: u16)) = Some (uint w)"
proof -
  have u: "uint w < 65536" using uint_lt2p [of w] by simp
  have "show_word w = show_int (uint w)" by (simp add: show_word_def show_int_def)
  then show ?thesis
    using strtol_show_int [of "uint w" "[]"] to_int32_id [of "uint w"] u by (simp add: parse_int_def order_trans [of "- 2147483648" 0])
qed

lemma strtoul_show: "strtoul (show_word (w :: u32)) = ucast w"
proof -
  have "show_word w = show_word (ucast w :: u64)" by (simp add: show_word_def)
  then show ?thesis using strtoull_show_word [of "[]" "ucast w"] by (simp add: strtoul_def)
qed

lemma show_word_zero: "take (Suc 0) (show_word (0 :: u32)) = ''0''"
  by (simp add: show_eval)

lemma parse_candidate_printed:
  assumes "sdp_candidate_ok c"
  shows "parse_candidate (sc_foundation c @ '' 1 '' @ sc_protocol c @ '' '' @ show_word (sc_priority c) @ '' ''
       @ sc_ip c @ '' '' @ show_word (sc_port c) @ '' typ '' @ sc_type c @ crlf @ rest) = Some c"
proof -
  note ok = assms [unfolded sdp_candidate_ok_def sdp_candidate_fits_def]
  have tok: "copy_until 32 CHR '' '' (sc_foundation c @ CHR '' '' # q) = (sc_foundation c, CHR '' '' # q)"
    "copy_until 16 CHR '' '' (sc_protocol c @ CHR '' '' # q) = (sc_protocol c, CHR '' '' # q)"
    "copy_until 64 CHR '' '' (sc_ip c @ CHR '' '' # q) = (sc_ip c, CHR '' '' # q)" for q
    using ok by (auto intro!: copy_until_token)
  have comp: "copy_until 16 CHR '' '' (CHR ''1'' # CHR '' '' # q) = (''1'', CHR '' '' # q)" for q
    using copy_until_token [of "''1''" 16 "CHR '' '' # q"] by (simp add: sdp_token_def sdp_value_literal is_eol_def)
  have prio: "copy_until 32 CHR '' '' (show_word (sc_priority c) @ CHR '' '' # q) = (show_word (sc_priority c), CHR '' '' # q)" for q
    using length_show_word32 [of "sc_priority c"] by (intro copy_until_number) simp_all
  have port: "copy_until 16 CHR '' '' (show_word (sc_port c) @ CHR '' '' # q) = (show_word (sc_port c), CHR '' '' # q)" for q
    using length_show_word16 [of "sc_port c"] by (intro copy_until_number) simp_all
  have tag: "copy_until 32 CHR '' '' (CHR ''t'' # CHR ''y'' # CHR ''p'' # CHR '' '' # q) = (''typ'', CHR '' '' # q)" for q
    using copy_until_token [of "''typ''" 32 "CHR '' '' # q"] by (simp add: sdp_token_def sdp_value_literal is_eol_def)
  have kind: "copy_until 32 CHR '' '' (sc_type c @ crlf @ rest) = (sc_type c, crlf @ rest)"
    using ok by (intro copy_until_token) simp_all
  have one: "parse_int ''1'' = Some 1"
    by (simp add: parse_int_def strtol_def scan_number_def c_isspace_def c_isdigit_def digit_val_def to_int32_id)
  have ne: "sc_foundation c \<noteq> []" "sc_protocol c \<noteq> []" "sc_ip c \<noteq> []" "sc_type c \<noteq> []"
    using ok by (auto simp: sdp_token_def sdp_value_def)
  have z: "ucast (sc_priority c) = (0 :: u64) \<longleftrightarrow> sc_priority c = 0"
    using unat_ucast_up(5) [of "sc_priority c"] by (auto simp: unat_eq_0 simp flip: unat_eq_0)
  have same: "ucast (ucast (sc_priority c) :: u64) = sc_priority c" by (rule ucast_up_ucast_id) (simp add: is_up)
  have "\<lparr>sc_foundation = sc_foundation c, sc_priority = sc_priority c, sc_ip = sc_ip c, sc_port = sc_port c,
      sc_type = sc_type c, sc_protocol = sc_protocol c, sc_is_ipv6 = CHR '':'' \<in> set (sc_ip c)\<rparr> = c"
    using ok by (cases c) simp
  then show ?thesis
    unfolding parse_candidate_def
    by (simp add: same tok comp prio port tag kind copy_until_blank one ne parse_int_word16 strtoul_show z show_word_zero ok)
qed

lemma sdp_candidate_attribute:
  assumes "sdp_candidate_ok c" and "length (ss_candidates s) < SDP_MAX_CANDIDATES"
  shows "sdp_parse_lines u (sdp_candidate_line c @ rest) s
    = sdp_parse_lines u rest (s\<lparr>ss_candidates := ss_candidates s @ [c]\<rparr>)"
proof -
  let ?v = "sc_foundation c @ '' 1 '' @ sc_protocol c @ '' '' @ show_word (sc_priority c) @ '' ''
       @ sc_ip c @ '' '' @ show_word (sc_port c) @ '' typ '' @ sc_type c"
  have "sdp_token (show_word (sc_priority c))" "sdp_token (show_word (sc_port c))" by simp_all
  then have v: "\<forall>x \<in> set ?v. \<not> is_eol x"
    using assms(1) by (simp add: sdp_candidate_ok_def sdp_token_def sdp_value_def ball_Un is_eol_def)
  have "copy_until 64 CHR '':'' (''candidate'' @ CHR '':'' # ?v @ crlf @ rest) = (''candidate'', CHR '':'' # ?v @ crlf @ rest)"
    by (rule attribute_name(1)) (simp_all add: sdp_value_literal is_eol_def)
  then have "sdp_parse_line u CHR ''a'' ((''candidate:'' @ ?v) @ crlf @ rest) s
      = (?v @ crlf @ rest, s\<lparr>ss_candidates := ss_candidates s @ [c]\<rparr>)"
    using parse_candidate_printed [OF assms(1), of rest] assms(2)
    by (simp add: sdp_parse_line_def sdp_parse_attribute_def Let_def skip_char_def)
  from sdp_parse_lines_line [OF _ this v] show ?thesis by (simp add: sdp_candidate_line_def is_eol_def)
qed

lemma sdp_candidate_attributes:
  "\<forall>c \<in> set cs. sdp_candidate_ok c \<Longrightarrow> length (ss_candidates s) + length cs \<le> SDP_MAX_CANDIDATES \<Longrightarrow>
   sdp_parse_lines u (concat (map sdp_candidate_line cs)) s = Some (s\<lparr>ss_candidates := ss_candidates s @ cs\<rparr>)"
  by (induction cs arbitrary: s) (simp_all add: sdp_parse_lines.simps sdp_candidate_attribute)

section \<open>Media sections\<close>

definition sdp_media_ok :: "sdp_media \<Rightarrow> bool" where
  "sdp_media_ok m \<longleftrightarrow>
     sdp_media_fits m \<and> (\<forall>n. sm_codec_id m \<noteq> CODEC_OTHER n) \<and> sm_clock_rate m \<noteq> 0 \<and>
     (sm_mid m = [] \<or> sdp_value (sm_mid m))"

text \<open>
  The entry a printed entry is read as.  The text does not carry the protocol number and the channels
  of video.  It does carry the direction (\<open>sdp_direction_line\<close>), but the parser skips
  \<^verbatim>\<open>a=sendrecv\<close>, \<^verbatim>\<open>a=sendonly\<close>, \<^verbatim>\<open>a=recvonly\<close> and \<^verbatim>\<open>a=inactive\<close> and leaves both directions on.
\<close>

definition sdp_media_reparsed :: "sdp_media \<Rightarrow> sdp_media" where
  "sdp_media_reparsed m =
     m\<lparr>sm_proto := 0, sm_channels := (if sm_kind m = TINYRTC_TRACK_KIND_AUDIO \<and> sm_channels m > 1 then sm_channels m else 1),
       sm_direction_send := True, sm_direction_recv := True\<rparr>"

lemma strtol_blank: "strtol (CHR '' '' # p) = strtol p"
  by (simp add: strtol_def scan_number_def c_isspace_def)

lemma sdp_payload_defaults_keeps [simp]:
  "sm_kind (sdp_payload_defaults m) = sm_kind m" "sm_port (sdp_payload_defaults m) = sm_port m"
  "sm_proto (sdp_payload_defaults m) = sm_proto m" "sm_payload_type (sdp_payload_defaults m) = sm_payload_type m"
  "sm_mid (sdp_payload_defaults m) = sm_mid m"
  by (simp_all add: sdp_payload_defaults_def)

text \<open>The entry after the media line.\<close>

definition sdp_media_begun :: "sdp_media \<Rightarrow> sdp_media" where
  "sdp_media_begun m =
     (sdp_payload_defaults (sdp_media_zero\<lparr>sm_port := sm_port m, sm_kind := sm_kind m,
        sm_payload_type := sm_payload_type m\<rparr>))\<lparr>sm_direction_send := True, sm_direction_recv := True\<rparr>"

lemma sdp_media_line:
  assumes "sdp_media_fits m" and "length (ss_media s) < SDP_MAX_MEDIA"
  shows "sdp_parse_lines u (''m='' @ (if sm_kind m = TINYRTC_TRACK_KIND_AUDIO then ''audio'' else ''video'') @ '' ''
      @ show_int (sm_port m) @ '' UDP/TLS/RTP/SAVPF '' @ show_int (sm_payload_type m) @ crlf @ rest) s
    = sdp_parse_lines u rest (s\<lparr>ss_media := ss_media s @ [sdp_media_begun m]\<rparr>)"
proof -
  define kind where "kind = (if sm_kind m = TINYRTC_TRACK_KIND_AUDIO then ''audio'' else ''video'')"
  define proto where "proto = ''UDP/TLS/RTP/SAVPF''"
  note fits = assms(1) [unfolded sdp_media_fits_def]
  have k: "copy_until 16 CHR '' '' (kind @ CHR '' '' # q) = (kind, CHR '' '' # q)" for q
    unfolding kind_def by (rule copy_until_token) (simp_all add: sdp_token_def sdp_value_literal is_eol_def)
  have p: "copy_until 16 CHR '' '' (show_int (sm_port m) @ CHR '' '' # q) = (show_int (sm_port m), CHR '' '' # q)" for q
    using length_show_int32 [of "sm_port m"] fits by (intro copy_until_token) simp_all
  have pr: "snd (copy_until 16 CHR '' '' (proto @ CHR '' '' # q)) = CHR '' '' # q" for q
    by (simp add: proto_def copy_until_def skip_whitespace_def is_eol_def)
  have port: "parse_int (show_int (sm_port m)) = Some (sm_port m)"
    using fits strtol_show_int [of "sm_port m" "[]"] by (simp add: parse_int_def to_int32_id)
  have pt: "strtol (show_int (sm_payload_type m) @ crlf @ rest) = Some (sm_payload_type m, crlf @ rest)"
    using fits by (intro strtol_show_int) simp_all
  have kinds: "\<not> (kind \<noteq> ''audio'' \<and> kind \<noteq> ''video'')" "kind = ''audio'' \<longleftrightarrow> sm_kind m = TINYRTC_TRACK_KIND_AUDIO"
    by (simp_all add: kind_def)
  have kind_of: "(if kind = ''audio'' then TINYRTC_TRACK_KIND_AUDIO else TINYRTC_TRACK_KIND_VIDEO) = sm_kind m"
    unfolding kinds(2) by (cases "sm_kind m") simp_all
  have same: "to_int32 (sm_payload_type m) = sm_payload_type m" using fits by (intro to_int32_id) simp_all
  have room: "\<not> SDP_MAX_MEDIA \<le> length (ss_media s)" using assms(2) by simp
  have "sdp_parse_media (kind @ CHR '' '' # show_int (sm_port m) @ CHR '' '' # proto @ CHR '' '' # show_int (sm_payload_type m)
      @ crlf @ rest) s = (crlf @ rest, s\<lparr>ss_media := ss_media s @ [sdp_media_begun m]\<rparr>)"
    unfolding sdp_parse_media_def Let_def case_prod_beta
    by (simp only: room kinds(1) kind_of if_False k p pr port pt copy_until_blank strtol_blank fst_conv snd_conv option.case
        prod.case) (simp add: same sdp_media_begun_def)
  then show ?thesis
    using sdp_parse_lines_line [of "CHR ''m''" u "kind @ '' '' @ show_int (sm_port m) @ '' '' @ proto @ '' ''
        @ show_int (sm_payload_type m)" rest s "[]"]
    by (simp add: sdp_parse_line_def is_eol_def proto_def kind_def)
qed

lemma codec_name_token:
  assumes "\<forall>n. c \<noteq> CODEC_OTHER n"
  shows "sdp_token (tinyrtc_codec_get_name c)" "CHR ''/'' \<notin> set (tinyrtc_codec_get_name c)"
    "sdp_codec_of_name (tinyrtc_codec_get_name c) d = c"
  using assms
  by (cases c; simp add: tinyrtc_codec_get_name_def codec_info_table_def sdp_token_def sdp_value_literal is_eol_def
      sdp_codec_of_name_def strcasecmp_eq_def c_tolower_def)+

lemma word_of_atoi: "word_of_int (atoi (show_word w)) = (w :: u32)"
proof -
  have "uint w < 2 ^ 32" using uint_lt2p [of w] by simp
  then have "strtol (show_word w) = Some (uint w, [])"
    using scan_number_show_nat [of "[]" "unat w"] by (simp add: strtol_def show_word_def)
  then have "atoi (show_word w) = to_int32 (uint w)" by (simp add: atoi_def)
  moreover have "(word_of_int (to_int32 (uint w)) :: u32) = word_of_int (uint w)"
    unfolding to_int32_def by transfer (simp add: take_bit_signed_take_bit)
  ultimately show ?thesis by simp
qed

lemma split_at_char_absent: "x \<notin> set w \<Longrightarrow> split_at_char x w = None"
  by (induction w) auto

lemma split_at_char_first: "x \<notin> set w \<Longrightarrow> split_at_char x (w @ x # v) = Some (w, v)"
  by (induction w) auto

lemma atoi_show_int: "- (2 ^ 31) \<le> i \<Longrightarrow> i < 2 ^ 31 \<Longrightarrow> atoi (show_int i) = i"
  using strtol_show_int [of i "[]"] by (simp add: atoi_def to_int32_id)

lemma show_nat_no_slash: "CHR ''/'' \<notin> set (show_nat n)"
  using show_nat_digits [of "CHR ''/''" n] c_isdigit_not_blank [of "CHR ''/''"] by blast

lemma show_no_slash: "CHR ''/'' \<notin> set (show_int i)" "CHR ''/'' \<notin> set (show_word w)"
  by (simp_all add: show_int_def show_word_def show_nat_no_slash)

lemma sdp_apply_rtpmap_last:
  "\<forall>x \<in> set ms. sm_payload_type x \<noteq> pt \<Longrightarrow> sm_payload_type m = pt \<Longrightarrow>
   sdp_apply_rtpmap pt name rate ch (ms @ [m]) = ms @ [m\<lparr>sm_codec_id := sdp_codec_of_name name (sm_codec_id m),
     sm_clock_rate := (if rate > 0 then rate else sm_clock_rate m), sm_channels := ch\<rparr>]"
  by (induction ms) auto

text \<open>The parameters after the codec name.\<close>

definition sdp_encoding :: "sdp_media \<Rightarrow> string" where
  "sdp_encoding m =
     show_word (sm_clock_rate m)
       @ (if sm_kind m = TINYRTC_TRACK_KIND_AUDIO \<and> sm_channels m > 1 then ''/'' @ show_int (sm_channels m)
          else if sm_kind m = TINYRTC_TRACK_KIND_AUDIO then ''/1'' else [])"

lemma sdp_encoding_read:
  assumes "sdp_media_fits m"
  shows "(case split_at_char CHR ''/'' (sdp_encoding m) of
      Some (clock, chans) \<Rightarrow> (word_of_int (atoi clock), atoi chans)
    | None \<Rightarrow> (word_of_int (atoi (sdp_encoding m)), 1))
    = (sm_clock_rate m, if sm_kind m = TINYRTC_TRACK_KIND_AUDIO \<and> sm_channels m > 1 then sm_channels m else 1)"
proof -
  have one: "atoi ''1'' = 1"
    using atoi_show_int [of 1] by (simp add: show_eval)
  have "atoi (show_int (sm_channels m)) = sm_channels m"
    using assms by (intro atoi_show_int) (simp_all add: sdp_media_fits_def)
  then show ?thesis
    by (simp add: sdp_encoding_def split_at_char_first split_at_char_absent show_no_slash word_of_atoi one)
qed

lemma sdp_encoding_value:
  assumes "sdp_media_fits m"
  shows "sdp_value (sdp_encoding m)" "length (sdp_encoding m) < 64"
proof -
  have w: "sdp_value (show_word (sm_clock_rate m))" "sdp_value (show_int (sm_channels m))"
    by (simp_all add: sdp_token_value)
  then show "sdp_value (sdp_encoding m)"
    unfolding sdp_encoding_def by (auto simp: sdp_value_def is_eol_def)
  show "length (sdp_encoding m) < 64"
    using assms length_show_word32 [of "sm_clock_rate m"] length_show_int32 [of "sm_channels m"]
    by (simp add: sdp_encoding_def sdp_media_fits_def)
qed

lemma drop_to_blank:
  "\<forall>c \<in> set w. c \<noteq> CHR '' '' \<and> c \<noteq> c_nl \<Longrightarrow> dropWhile (\<lambda>c. c \<noteq> CHR '' '' \<and> c \<noteq> c_nl) (w @ CHR '' '' # q) = CHR '' '' # q"
  by (induction w) simp_all

lemma sdp_rtpmap_attribute:
  assumes "sdp_media_ok m" and "\<forall>x \<in> set ms. sm_payload_type x \<noteq> sm_payload_type m"
    and "ss_media s = ms @ [n]" and "sm_payload_type n = sm_payload_type m"
  shows "sdp_parse_lines u (sdp_rtpmap_line m @ rest) s = sdp_parse_lines u rest (s\<lparr>ss_media := ms @
    [n\<lparr>sm_codec_id := sm_codec_id m, sm_clock_rate := sm_clock_rate m,
       sm_channels := if sm_kind m = TINYRTC_TRACK_KIND_AUDIO \<and> sm_channels m > 1 then sm_channels m else 1\<rparr>]\<rparr>)"
    (is "_ = sdp_parse_lines u rest ?s'")
proof -
  let ?name = "tinyrtc_codec_get_name (sm_codec_id m)"
  let ?pt = "show_int (sm_payload_type m)"
  let ?v = "?pt @ CHR '' '' # ?name @ CHR ''/'' # sdp_encoding m"
  have fits: "sdp_media_fits m" using assms(1) by (simp add: sdp_media_ok_def)
  note codec = codec_name_token [of "sm_codec_id m"]
  have codec': "sdp_token ?name" "CHR ''/'' \<notin> set ?name" "sdp_codec_of_name ?name d = sm_codec_id m" for d
    using codec assms(1) by (auto simp: sdp_media_ok_def)
  have pt: "parse_int (?pt @ CHR '' '' # q) = Some (sm_payload_type m)" for q
    using fits strtol_show_int [of "sm_payload_type m" "CHR '' '' # q"] to_int32_id [of "sm_payload_type m"]
    by (simp add: parse_int_def sdp_media_fits_def)
  have drop: "dropWhile (\<lambda>c. c \<noteq> CHR '' '' \<and> c \<noteq> c_nl) (?pt @ CHR '' '' # q) = CHR '' '' # q" for q
    using show_int_token [of "sm_payload_type m"] by (intro drop_to_blank) (auto simp: sdp_token_def sdp_value_def)
  have name: "copy_until 64 CHR ''/'' (?name @ CHR ''/'' # q) = (?name, CHR ''/'' # q)" for q
    using codec' length_codec_name [of "sm_codec_id m"] by (intro copy_until_value) (simp_all add: sdp_token_value)
  have enc: "copy_until 64 c_nl (sdp_encoding m @ crlf @ rest) = (sdp_encoding m, crlf @ rest)"
    using sdp_encoding_value [OF fits] by (intro copy_until_line) simp_all
  have rate: "sm_clock_rate m > 0" using assms(1) by (simp add: sdp_media_ok_def word_gt_0)
  have "sdp_parse_rtpmap (CHR '':'' # ?v @ crlf @ rest) s = (crlf @ rest, ?s')"
    unfolding sdp_parse_rtpmap_def Let_def
    by (simp add: skip_char_def pt drop name enc sdp_encoding_read [OF fits] assms(3)
        sdp_apply_rtpmap_last [OF assms(2,4)] rate codec'(3))
  moreover have "copy_until 64 CHR '':'' (''rtpmap'' @ CHR '':'' # ?v @ crlf @ rest) = (''rtpmap'', CHR '':'' # ?v @ crlf @ rest)"
    by (rule attribute_name(1)) (simp_all add: sdp_value_literal is_eol_def)
  ultimately have "sdp_parse_line u CHR ''a'' ((''rtpmap:'' @ ?v) @ crlf @ rest) s = ([] @ crlf @ rest, ?s')"
    by (simp add: sdp_parse_line_def sdp_parse_attribute_def Let_def)
  from sdp_parse_lines_line [OF _ this] show ?thesis
    by (simp add: sdp_rtpmap_line_def sdp_encoding_def is_eol_def)
qed

lemma sdp_media_section:
  assumes "sdp_media_ok m" and "\<forall>x \<in> set (ss_media s). sm_payload_type x \<noteq> sm_payload_type m"
    and "length (ss_media s) < SDP_MAX_MEDIA"
  shows "sdp_parse_lines u (concat (sdp_media_chunks m) @ rest) s
    = sdp_parse_lines u rest (s\<lparr>ss_media := ss_media s @ [sdp_media_reparsed m]\<rparr>)"
proof -
  have fits: "sdp_media_fits m" using assms(1) by (simp add: sdp_media_ok_def)
  define b where "b = (sdp_media_begun m)\<lparr>sm_codec_id := sm_codec_id m, sm_clock_rate := sm_clock_rate m,
       sm_channels := if sm_kind m = TINYRTC_TRACK_KIND_AUDIO \<and> sm_channels m > 1 then sm_channels m else 1\<rparr>"
  have b: "b\<lparr>sm_mid := sm_mid m\<rparr> = sdp_media_reparsed m"
    by (simp add: b_def sdp_media_begun_def sdp_payload_defaults_def sdp_media_reparsed_def sdp_media_zero_def)
  have rtp: "sdp_parse_lines u (sdp_rtpmap_line m @ q) (s\<lparr>ss_media := ss_media s @ [sdp_media_begun m]\<rparr>)
      = sdp_parse_lines u q (s\<lparr>ss_media := ss_media s @ [b]\<rparr>)" for q
    using sdp_rtpmap_attribute [OF assms(1,2), of "s\<lparr>ss_media := ss_media s @ [sdp_media_begun m]\<rparr>" "sdp_media_begun m" u q]
    by (simp add: b_def sdp_media_begun_def)
  have mid: "sdp_parse_lines u (concat (if sm_mid m \<noteq> [] then [''a=mid:'' @ sm_mid m @ crlf] else []) @ q)
      (s\<lparr>ss_media := ss_media s @ [b]\<rparr>) = sdp_parse_lines u q (s\<lparr>ss_media := ss_media s @ [sdp_media_reparsed m]\<rparr>)" for q
  proof (cases "sm_mid m = []")
    case True
    have "sm_mid b = []" by (simp add: b_def sdp_media_begun_def sdp_media_zero_def)
    then have "b\<lparr>sm_mid := []\<rparr> = b" by (cases b) simp
    with True b have "b = sdp_media_reparsed m" by simp
    with True show ?thesis by simp
  next
    case False
    then have v: "sdp_value (sm_mid m)" "length (sm_mid m) < 16" using assms(1) fits
      by (simp_all add: sdp_media_ok_def sdp_media_fits_def)
    show ?thesis
      using sdp_value_attributes(4) [OF v, of "s\<lparr>ss_media := ss_media s @ [b]\<rparr>" u q] False v(2) b
      by (simp add: sdp_set_last_mid_def)
  qed
  have mux: "sdp_parse_lines u (''a=rtcp-mux'' @ crlf @ q) t = sdp_parse_lines u q t" for q t
    using sdp_attribute_ignored [of "''rtcp-mux''" "[]"] by (simp add: sdp_value_literal is_eol_def)
  have dir: "sdp_parse_lines u (sdp_direction_line m @ q) t = sdp_parse_lines u q t" for q t
    using sdp_attribute_ignored [of "''sendrecv''" "[]"] sdp_attribute_ignored [of "''sendonly''" "[]"]
      sdp_attribute_ignored [of "''recvonly''" "[]"] sdp_attribute_ignored [of "''inactive''" "[]"]
    by (simp add: sdp_direction_line_def sdp_value_literal is_eol_def)
  show ?thesis
    unfolding sdp_media_chunks_def
    by (simp only: concat_append concat.simps append_assoc append_Nil append_Nil2 sdp_media_line [OF fits assms(3)] rtp mid mux dir)
qed

section \<open>Whole sessions\<close>

lemma sdp_media_sections:
  "\<forall>m \<in> set ms. sdp_media_ok m \<Longrightarrow> distinct (map sm_payload_type (ss_media s @ ms)) \<Longrightarrow>
   length (ss_media s) + length ms \<le> SDP_MAX_MEDIA \<Longrightarrow>
   sdp_parse_lines u (concat (concat (map sdp_media_chunks ms)) @ rest) s
     = sdp_parse_lines u rest (s\<lparr>ss_media := ss_media s @ map sdp_media_reparsed ms\<rparr>)"
proof (induction ms arbitrary: s)
  case Nil
  then show ?case by simp
next
  case (Cons m ms)
  have pt: "sm_payload_type (sdp_media_reparsed m) = sm_payload_type m" by (simp add: sdp_media_reparsed_def)
  have d: "\<forall>x \<in> set (ss_media s). sm_payload_type x \<noteq> sm_payload_type m"
  proof -
    have "sm_payload_type m \<notin> sm_payload_type ` set (ss_media s)" using Cons.prems(2) by simp
    then show ?thesis by (metis image_eqI)
  qed
  have "sdp_parse_lines u (concat (sdp_media_chunks m) @ concat (concat (map sdp_media_chunks ms)) @ rest) s
      = sdp_parse_lines u (concat (concat (map sdp_media_chunks ms)) @ rest)
          (s\<lparr>ss_media := ss_media s @ [sdp_media_reparsed m]\<rparr>)"
    using Cons.prems d by (intro sdp_media_section) simp_all
  also have "\<dots> = sdp_parse_lines u rest (s\<lparr>ss_media := ss_media s @ map sdp_media_reparsed (m # ms)\<rparr>)"
    using Cons.prems pt by (subst Cons.IH) auto
  finally show ?case by simp
qed

definition sdp_session_ok :: "sdp_session \<Rightarrow> bool" where
  "sdp_session_ok s \<longleftrightarrow>
     sdp_fits s \<and> ss_version s = 0 \<and>
     (\<forall>w \<in> {ss_username s, ss_network_type s, ss_address_type s}. w = [] \<or> sdp_token w) \<and>
     (\<forall>w \<in> {ss_unicast_address s, ss_session_name s, ss_ice_ufrag s, ss_ice_pwd s, ss_dtls_setup s}. w = [] \<or> sdp_value w) \<and>
     (ss_fingerprint s = [] \<or> sdp_value (ss_fingerprint s) \<and> sdp_token (ss_fingerprint_type s)) \<and>
     distinct (map sm_payload_type (ss_media s)) \<and>
     (\<forall>m \<in> set (ss_media s). sdp_media_ok m) \<and> (\<forall>c \<in> set (ss_candidates s). sdp_candidate_ok c)"

text \<open>The session a printed session is read as: empty fields have become their printed defaults,
  and every medium is send-receive.\<close>

definition sdp_reparsed :: "sdp_session \<Rightarrow> sdp_session" where
  "sdp_reparsed s =
     s\<lparr>ss_username := or_default ''-'' (ss_username s), ss_network_type := or_default ''IN'' (ss_network_type s),
       ss_address_type := or_default ''IP4'' (ss_address_type s),
       ss_unicast_address := or_default ''0.0.0.0'' (ss_unicast_address s),
       ss_session_name := or_default ''-'' (ss_session_name s),
       ss_fingerprint_type := (if ss_fingerprint s = [] then [] else ss_fingerprint_type s),
       ss_media := map sdp_media_reparsed (ss_media s)\<rparr>"

lemma or_default_word:
  "w = [] \<or> sdp_token w \<Longrightarrow> sdp_token d \<Longrightarrow> sdp_token (or_default d w)"
  "w = [] \<or> sdp_value w \<Longrightarrow> sdp_value d \<Longrightarrow> sdp_value (or_default d w)"
  "length w < n \<Longrightarrow> length d < n \<Longrightarrow> length (or_default d w) < n"
  by (auto simp: or_default_def)

text \<open>The session part: the four mandatory lines and the optional attributes.\<close>

lemma sdp_session_lines:
  assumes "sdp_session_ok s"
  shows "sdp_parse_lines u (concat (sdp_session_chunks s) @ rest) sdp_session_init
    = sdp_parse_lines u rest ((sdp_reparsed s)\<lparr>ss_media := [], ss_candidates := []\<rparr>)"
proof -
  note ok = assms [unfolded sdp_session_ok_def]
  have fits: "sdp_fits s" using ok by simp
  note len = fits [unfolded sdp_fits_def]
  have lit: "sdp_token ''-''" "sdp_token ''IN''" "sdp_token ''IP4''" "sdp_value ''0.0.0.0''" "sdp_value ''-''"
    by (simp_all add: sdp_token_def sdp_value_literal is_eol_def)
  have v: "sdp_parse_lines u (''v='' @ show_int (ss_version s) @ crlf @ q) t = sdp_parse_lines u q (t\<lparr>ss_version := 0\<rparr>)" for q t
    using sdp_version_line [of 0 u q t] ok by simp
  have o: "sdp_parse_lines u (sdp_origin_line s @ q) t = sdp_parse_lines u q (t\<lparr>ss_username := or_default ''-'' (ss_username s),
      ss_session_id := ss_session_id s, ss_session_version := ss_session_version s,
      ss_network_type := or_default ''IN'' (ss_network_type s), ss_address_type := or_default ''IP4'' (ss_address_type s),
      ss_unicast_address := or_default ''0.0.0.0'' (ss_unicast_address s)\<rparr>)" for q t
    unfolding sdp_origin_line_def append_assoc
    using ok len lit by (intro sdp_origin_lines or_default_word) simp_all
  have n: "sdp_parse_lines u (''s='' @ or_default ''-'' (ss_session_name s) @ crlf @ q) t
      = sdp_parse_lines u q (t\<lparr>ss_session_name := or_default ''-'' (ss_session_name s)\<rparr>)" for q t
    using ok len lit by (intro sdp_name_line or_default_word) simp_all
  have ufrag: "sdp_parse_lines u (concat (if ss_ice_ufrag s \<noteq> [] then [''a=ice-ufrag:'' @ ss_ice_ufrag s @ crlf] else []) @ q) t
      = sdp_parse_lines u q (if ss_ice_ufrag s \<noteq> [] then t\<lparr>ss_ice_ufrag := ss_ice_ufrag s\<rparr> else t)" for q t
    using ok len sdp_value_attributes(1) [of "ss_ice_ufrag s" u q t] by (cases "ss_ice_ufrag s = []") simp_all
  have pwd: "sdp_parse_lines u (concat (if ss_ice_pwd s \<noteq> [] then [''a=ice-pwd:'' @ ss_ice_pwd s @ crlf] else []) @ q) t
      = sdp_parse_lines u q (if ss_ice_pwd s \<noteq> [] then t\<lparr>ss_ice_pwd := ss_ice_pwd s\<rparr> else t)" for q t
    using ok len sdp_value_attributes(2) [of "ss_ice_pwd s" u q t] by (cases "ss_ice_pwd s = []") simp_all
  have fp: "sdp_parse_lines u (concat (if ss_fingerprint s \<noteq> []
        then [''a=fingerprint:'' @ ss_fingerprint_type s @ '' '' @ ss_fingerprint s @ crlf] else []) @ q) t
      = sdp_parse_lines u q (if ss_fingerprint s \<noteq> [] then t\<lparr>ss_fingerprint_type := ss_fingerprint_type s,
          ss_fingerprint := ss_fingerprint s\<rparr> else t)" for q t
    using ok len sdp_fingerprint_attribute [of "ss_fingerprint_type s" "ss_fingerprint s" u q t]
    by (cases "ss_fingerprint s = []") simp_all
  have dtls: "sdp_parse_lines u (concat (if ss_dtls_setup s \<noteq> [] then [''a=setup:'' @ ss_dtls_setup s @ crlf] else []) @ q) t
      = sdp_parse_lines u q (if ss_dtls_setup s \<noteq> [] then t\<lparr>ss_dtls_setup := ss_dtls_setup s\<rparr> else t)" for q t
    using ok len sdp_value_attributes(3) [of "ss_dtls_setup s" u q t] by (cases "ss_dtls_setup s = []") simp_all
  show ?thesis
    unfolding sdp_session_chunks_def
    by (simp only: concat_append concat.simps append_assoc append_Nil append_Nil2 v o n sdp_timing_line ufrag pwd fp dtls)
      (rule arg_cong [of _ _ "sdp_parse_lines u rest"], rule sdp_session.equality;
       simp add: sdp_reparsed_def sdp_session_init_def ok)
qed

lemma sdp_bundle_line:
  assumes "\<forall>m \<in> set ms. sm_mid m = [] \<or> sdp_value (sm_mid m)"
  shows "sdp_parse_lines u (concat (sdp_bundle_chunks ms) @ rest) s = sdp_parse_lines u rest s"
proof (cases "ms \<noteq> [] \<and> (\<forall>m \<in> set ms. sm_mid m \<noteq> [])")
  case True
  let ?v = "'':BUNDLE'' @ concat (map (\<lambda>m. '' '' @ sm_mid m) ms)"
  have "\<forall>c \<in> set ?v. \<not> is_eol c" using assms True by (auto simp: sdp_value_def is_eol_def)
  with sdp_attribute_ignored [of "''group''" ?v u rest s] have
    "sdp_parse_lines u (''a='' @ ''group'' @ ?v @ crlf @ rest) s = sdp_parse_lines u rest s"
    by (simp add: sdp_value_literal is_eol_def)
  with True show ?thesis by (simp add: sdp_bundle_chunks_def)
next
  case False
  then have "sdp_bundle_chunks ms = []" unfolding sdp_bundle_chunks_def by (rule if_not_P)
  then show ?thesis by simp
qed

lemma sdp_trickle_line: "sdp_parse_lines u (''a=ice-options:trickle'' @ crlf @ rest) s = sdp_parse_lines u rest s"
  using sdp_attribute_ignored [of "''ice-options''" "'':trickle''"] by (simp add: sdp_value_literal is_eol_def)

lemma sdp_parse_printed:
  assumes "sdp_session_ok s"
  shows "sdp_parse_lines u (concat (sdp_chunks s)) sdp_session_init = Some (sdp_reparsed s)"
proof -
  note ok = assms [unfolded sdp_session_ok_def]
  have fits: "sdp_fits s" using ok by simp
  let ?s0 = "(sdp_reparsed s)\<lparr>ss_media := [], ss_candidates := []\<rparr>"
  let ?s1 = "(sdp_reparsed s)\<lparr>ss_candidates := []\<rparr>"
  have s1: "?s0\<lparr>ss_media := map sdp_media_reparsed (ss_media s)\<rparr> = ?s1"
    and s2: "?s1\<lparr>ss_candidates := ss_candidates s\<rparr> = sdp_reparsed s"
    by (rule sdp_session.equality; simp add: sdp_reparsed_def)+
  have b: "sdp_parse_lines u (concat (sdp_bundle_chunks (ss_media s)) @ q) ?s0 = sdp_parse_lines u q ?s0" for q
    using ok by (intro sdp_bundle_line) (auto simp: sdp_media_ok_def)
  have m: "sdp_parse_lines u (concat (concat (map sdp_media_chunks (ss_media s))) @ q) ?s0 = sdp_parse_lines u q ?s1" for q
    using sdp_media_sections [of "ss_media s" ?s0 u q] ok sdp_fits_fields(1) [OF fits] s1 by simp
  have "length (ss_candidates s) \<le> SDP_MAX_CANDIDATES" using fits by (simp add: sdp_fits_def)
  then have c: "sdp_parse_lines u (concat (map sdp_candidate_line (ss_candidates s))) ?s1 = Some (sdp_reparsed s)"
    using sdp_candidate_attributes [of "ss_candidates s" ?s1 u] ok s2 by simp
  show ?thesis
    unfolding sdp_chunks_def
    by (simp only: concat_append concat.simps append_assoc append_Nil append_Nil2 sdp_session_lines [OF assms] b
        sdp_trickle_line m c)
qed

section \<open>Properties\<close>

text \<open>C21: the text of a session whose fields fit their arrays never fills the 8192-byte buffer, so
  generation writes inside it and fails only for lack of memory.\<close>

theorem sdp_generate_bounded:
  assumes "sdp_fits s"
  shows "(\<exists>text. sdp_generate True s = Some (Inr text) \<and> length text \<le> 7249) \<and>
    sdp_generate False s = Some (Inl TINYRTC_ERROR_MEMORY)"
  using sdp_generate_text [OF assms] length_sdp_chunks [OF assms] by (simp_all add: sdp_generate_def)

theorem sdp_generate_bounded_witness: "\<exists>text. sdp_generate True sdp_session_init = Some (Inr text)"
  using sdp_generate_bounded [OF sdp_session_init_fits] by blast

text \<open>C12: the parser reads a generated text back to the session it was made of, except for the
  directions of the media and for what the text does not carry.  The directions are printed, a line
  \<^verbatim>\<open>a=sendrecv\<close>, \<^verbatim>\<open>a=sendonly\<close>, \<^verbatim>\<open>a=recvonly\<close> or \<^verbatim>\<open>a=inactive\<close> for each medium, but the parser ignores
  those lines: whatever was printed, every medium is read as send-receive, and a direction that was
  switched off is lost.  The text does not carry an empty field (its printed default comes back), the
  type of an empty fingerprint, the channels of video and the protocol number.  The strings are words
  without line ends or outer blanks, the payload types distinct.\<close>

theorem sdp_roundtrip:
  assumes "sdp_session_ok s"
  shows "sdp_generate True s = Some (Inr (concat (sdp_chunks s))) \<and>
    sdp_parse uninit (concat (sdp_chunks s)) = Some (TINYRTC_OK, sdp_reparsed s) \<and>
    (\<forall>i < length (ss_media s).
       sdp_direction_line (ss_media s ! i) \<in> set (sdp_chunks s) \<and>
       sm_direction_send (ss_media (sdp_reparsed s) ! i) \<and> sm_direction_recv (ss_media (sdp_reparsed s) ! i))"
proof -
  have "sdp_fits s" and "ss_version s = 0" using assms by (simp_all add: sdp_session_ok_def)
  moreover have "sdp_direction_line m \<in> set (sdp_chunks s)" if "m \<in> set (ss_media s)" for m
    using that by (auto simp: sdp_chunks_def sdp_media_chunks_def)
  ultimately show ?thesis
    using sdp_parse_printed [OF assms, of uninit] sdp_generate_text [of s]
    by (simp add: sdp_parse_def sdp_reparsed_def sdp_media_reparsed_def)
qed

definition sdp_session_example :: sdp_session where
  "sdp_session_example = sdp_session_init\<lparr>ss_username := ''alice'', ss_session_id := 42, ss_ice_ufrag := ''abcd'',
     ss_ice_pwd := ''pw'', ss_dtls_setup := ''actpass'',
     ss_media := [(sdp_media_of_track track_example)\<lparr>sm_direction_recv := False\<rparr>],
     ss_candidates := [\<lparr>sc_foundation = ''tiny'', sc_priority = 1, sc_ip = ''10.0.0.1'', sc_port = 5000, sc_type = ''host'',
       sc_protocol = ''udp'', sc_is_ipv6 = False\<rparr>]\<rparr>"

lemma sdp_session_example_ok: "sdp_session_ok sdp_session_example"
  by (simp add: sdp_session_ok_def sdp_session_example_def sdp_session_init_def sdp_fits_def sdp_media_fits_def
      sdp_candidate_fits_def SDP_MAX_MEDIA_def SDP_MAX_CANDIDATES_def sdp_media_of_track_def sdp_media_zero_def
      track_example_def sdp_media_ok_def sdp_candidate_ok_def sdp_token_def sdp_value_literal is_eol_def strncpy_into_def
      codec_lookup_defs codec_info_table_def)

theorem sdp_roundtrip_witness:
  "\<exists>text s'. sdp_generate True sdp_session_example = Some (Inr text) \<and> sdp_parse (0, 0) text = Some (TINYRTC_OK, s') \<and>
    ''a=sendonly'' @ crlf \<in> set (sdp_chunks sdp_session_example) \<and>
    ss_ice_pwd s' = ''pw'' \<and> sm_direction_recv (ss_media s' ! 0)"
  using sdp_roundtrip [OF sdp_session_example_ok, of "(0, 0)"]
  by (simp add: sdp_reparsed_def sdp_session_example_def sdp_media_of_track_def sdp_media_zero_def sdp_direction_line_def
      track_example_def sdp_session_init_def Let_def)

end
