(* ===== verification/Sig_Json.thy ===== *)
theory Sig_Json
  imports Sdp
begin

text \<open>
  The JSON side of \<^verbatim>\<open>src/signaling/signaling.c\<close>: escaping (lines 1322 to 1360), string fields, SDP and
  candidate values (lines 117 to 302) and the dispatch of a received message (lines 890 to 1043).
  A C string is the list of its characters before the NUL; a pointer into it the rest from there.
\<close>

abbreviation c_quote :: char where "c_quote \<equiv> CHR 0x22"
abbreviation c_backslash :: char where "c_backslash \<equiv> CHR 0x5C"
abbreviation c_lf :: char where "c_lf \<equiv> CHR 0x0A"
abbreviation c_return :: char where "c_return \<equiv> CHR 0x0D"
abbreviation c_tabulator :: char where "c_tabulator \<equiv> CHR 0x09"

section \<open>Library functions\<close>

definition strncmp_eq :: "string \<Rightarrow> string \<Rightarrow> bool" where
  "strncmp_eq s lit \<longleftrightarrow> take (length lit) s = lit"

fun strstr :: "string \<Rightarrow> string \<Rightarrow> string option" where
  "strstr [] needle = (if needle = [] then Some [] else None)"
| "strstr (c # cs) needle = (if strncmp_eq (c # cs) needle then Some (c # cs) else strstr cs needle)"

definition strchr :: "string \<Rightarrow> char \<Rightarrow> string option" where
  "strchr s x = (case dropWhile (\<lambda>c. c \<noteq> x) s of [] \<Rightarrow> None | c # cs \<Rightarrow> Some (c # cs))"

definition skip_blanks :: "string \<Rightarrow> string" where
  "skip_blanks s = dropWhile (\<lambda>c. c = CHR '' '' \<or> c = c_tabulator) s"

text \<open>\<^verbatim>\<open>sscanf\<close>: \<^verbatim>\<open>%Ns\<close>, \<^verbatim>\<open>%*d\<close> and literal characters after white space.\<close>

definition scan_word :: "nat \<Rightarrow> string \<Rightarrow> (string \<times> string) option" where
  "scan_word n s =
     (let t = skip_c_space s; w = take n (takeWhile (\<lambda>c. \<not> c_isspace c) t) in
      if w = [] then None else Some (w, drop (length w) t))"

definition scan_skip_int :: "string \<Rightarrow> string option" where
  "scan_skip_int s = map_option (\<lambda>(neg, n, rest). rest) (scan_number s)"

definition scan_literal :: "string \<Rightarrow> string \<Rightarrow> string option" where
  "scan_literal lit s =
     (let t = skip_c_space s in if strncmp_eq t lit then Some (drop (length lit) t) else None)"

section \<open>Escaping\<close>

definition json_escape_char :: "char \<Rightarrow> string" where
  "json_escape_char c =
     (if c = c_quote then [c_backslash, c_quote]
      else if c = c_backslash then [c_backslash, c_backslash]
      else if c = c_lf then [c_backslash, CHR ''n'']
      else if c = c_return then [c_backslash, CHR ''r'']
      else if c = c_tabulator then [c_backslash, CHR ''t'']
      else [c])"

text \<open>A pair that does not fit is left out and the loop goes on with the next character.\<close>

fun sig_json_escape_loop :: "nat \<Rightarrow> string \<Rightarrow> string \<Rightarrow> string" where
  "sig_json_escape_loop output_size out [] = out"
| "sig_json_escape_loop output_size out (c # input) =
     (if \<not> length out < output_size - 1 then out
      else
        (let e = json_escape_char c in
         sig_json_escape_loop output_size
           (if length e = 2 \<and> length out + 2 \<ge> output_size then out else out @ e) input))"

definition sig_json_escape :: "string \<Rightarrow> nat \<Rightarrow> string" where
  "sig_json_escape input output_size = sig_json_escape_loop output_size [] input"

section \<open>Extraction\<close>

text \<open>The characters up to the first quote that does not follow a backslash.\<close>

fun sig_scan_string :: "bool \<Rightarrow> string \<Rightarrow> string option" where
  "sig_scan_string after_backslash [] = None"
| "sig_scan_string after_backslash (c # cs) =
     (if c = c_quote \<and> \<not> after_backslash then Some []
      else map_option (Cons c) (sig_scan_string (c = c_backslash) cs))"

fun sig_unescape :: "string \<Rightarrow> string" where
  "sig_unescape [] = []"
| "sig_unescape [c] = [c]"
| "sig_unescape (c # d # cs) =
     (if c = c_backslash then
        (if d = CHR ''r'' then c_return # sig_unescape cs
         else if d = CHR ''n'' then c_lf # sig_unescape cs
         else if d = CHR ''t'' then c_tabulator # sig_unescape cs
         else if d = c_quote \<or> d = c_backslash \<or> d = CHR ''/'' then d # sig_unescape cs
         else c # sig_unescape (d # cs))
      else c # sig_unescape (d # cs))"

definition json_pattern :: "string \<Rightarrow> string" where
  "json_pattern field_name = take 63 (c_quote # field_name @ [c_quote])"

text \<open>The value after the next colon.\<close>

definition json_value :: "string \<Rightarrow> string option" where
  "json_value s = map_option (\<lambda>colon. skip_blanks (tl colon)) (strchr s CHR '':'')"

definition sig_extract_json_string_field :: "bool \<Rightarrow> string \<Rightarrow> string \<Rightarrow> string option" where
  "sig_extract_json_string_field alloc_ok json field_name = do {
     found \<leftarrow> strstr json (json_pattern field_name);
     value \<leftarrow> json_value (drop (length (json_pattern field_name)) found);
     if take 1 value \<noteq> [c_quote] then None
     else do {
       raw \<leftarrow> sig_scan_string False (drop 1 value);
       if alloc_ok then Some (sig_unescape raw) else None
     }
   }"

definition sig_extract_sdp_value :: "bool \<Rightarrow> string \<Rightarrow> string option" where
  "sig_extract_sdp_value alloc_ok json = do {
     found \<leftarrow> strstr json (json_pattern ''sdp'');
     value \<leftarrow> json_value (drop 5 found);
     if take 1 value = [c_quote] then sig_extract_json_string_field alloc_ok found ''sdp''
     else if take 1 value = ''{'' then sig_extract_json_string_field alloc_ok value ''sdp''
     else None
   }"

definition sig_scan_candidate :: "string \<Rightarrow> (string \<times> string \<times> string \<times> string \<times> string \<times> string) option" where
  "sig_scan_candidate cursor = do {
     (foundation, s) \<leftarrow> scan_word 31 cursor;
     s \<leftarrow> scan_skip_int s;
     (protocol, s) \<leftarrow> scan_word 31 s;
     (prio_str, s) \<leftarrow> scan_word 31 s;
     (ip, s) \<leftarrow> scan_word 127 s;
     (port_str, s) \<leftarrow> scan_word 15 s;
     s \<leftarrow> scan_literal ''typ'' s;
     (type, s) \<leftarrow> scan_word 31 s;
     Some (foundation, protocol, prio_str, ip, port_str, type)
   }"

definition sig_extract_candidate_value :: "bool \<Rightarrow> string \<Rightarrow> ice_candidate option" where
  "sig_extract_candidate_value alloc_ok json = do {
     found \<leftarrow> strstr json (json_pattern ''candidate'');
     value \<leftarrow> json_value (drop 11 found);
     candidate_str \<leftarrow>
       (if take 1 value = [c_quote] then sig_extract_json_string_field alloc_ok found ''candidate''
        else if take 1 value = ''{'' then sig_extract_json_string_field alloc_ok value ''candidate''
        else None);
     let cursor = (if strncmp_eq candidate_str ''candidate:'' then drop 10 candidate_str else candidate_str);
     (foundation, protocol, prio_str, ip, port_str, type) \<leftarrow> sig_scan_candidate cursor;
     let priority = (case strtoull prio_str of None \<Rightarrow> 0 | Some (v, _) \<Rightarrow> v);
     let port = atoi port_str;
     if port \<le> 0 \<or> \<not> alloc_ok then None
     else Some \<lparr>ic_foundation = foundation, ic_priority = ucast priority, ic_ip = ip, ic_port = word_of_int port,
                ic_type = type, ic_protocol = protocol, ic_is_ipv6 = CHR '':'' \<in> set ip\<rparr>
   }"

section \<open>Received messages\<close>

datatype signal_event_type =
    TINYRTC_SIGNAL_EVENT_OFFER
  | TINYRTC_SIGNAL_EVENT_ANSWER
  | TINYRTC_SIGNAL_EVENT_ICE_CANDIDATE
  | TINYRTC_SIGNAL_EVENT_PEER_JOIN
  | TINYRTC_SIGNAL_EVENT_PEER_LEAVE

text \<open>The union of the event: no data is the NULL it is initialised with.\<close>

datatype signal_data = Signal_Null | Signal_Sdp string | Signal_Candidate ice_candidate

record signal_event =
  se_type :: signal_event_type
  se_data :: signal_data

text \<open>
  The event type of a message; the inner \<open>None\<close> says that the message is consumed without a
  callback.  A type that is none of the known ones leaves the variable uninitialised.
\<close>

definition sig_event_type :: "signal_event_type \<Rightarrow> string \<Rightarrow> signal_event_type option" where
  "sig_event_type uninit type_ptr =
     (if strncmp_eq type_ptr ''joined'' then None
      else if strncmp_eq type_ptr ''peer-joined'' then Some TINYRTC_SIGNAL_EVENT_PEER_JOIN
      else if strncmp_eq type_ptr ''peer-left'' then Some TINYRTC_SIGNAL_EVENT_PEER_LEAVE
      else if strncmp_eq type_ptr ''offer'' then Some TINYRTC_SIGNAL_EVENT_OFFER
      else if strncmp_eq type_ptr ''answer'' then Some TINYRTC_SIGNAL_EVENT_ANSWER
      else if strncmp_eq type_ptr ''ice-candidate'' then Some TINYRTC_SIGNAL_EVENT_ICE_CANDIDATE
      else if strncmp_eq type_ptr ''error'' then None
      else Some uninit)"

definition sig_event_data :: "bool \<Rightarrow> signal_event_type \<Rightarrow> string \<Rightarrow> signal_data" where
  "sig_event_data alloc_ok type json =
     (case type of
        TINYRTC_SIGNAL_EVENT_OFFER \<Rightarrow>
          (case sig_extract_sdp_value alloc_ok json of None \<Rightarrow> Signal_Null | Some sdp \<Rightarrow> Signal_Sdp sdp)
      | TINYRTC_SIGNAL_EVENT_ANSWER \<Rightarrow>
          (case sig_extract_sdp_value alloc_ok json of None \<Rightarrow> Signal_Null | Some sdp \<Rightarrow> Signal_Sdp sdp)
      | TINYRTC_SIGNAL_EVENT_ICE_CANDIDATE \<Rightarrow>
          (case sig_extract_candidate_value alloc_ok json of None \<Rightarrow> Signal_Null | Some c \<Rightarrow> Signal_Candidate c)
      | TINYRTC_SIGNAL_EVENT_PEER_JOIN \<Rightarrow> Signal_Null
      | TINYRTC_SIGNAL_EVENT_PEER_LEAVE \<Rightarrow> Signal_Null)"

text \<open>
  The event the callback gets, if any.  The text ends at the first NUL of the data.  The two
  booleans say whether the copy of the message and the extracted value can be allocated.
\<close>

definition sig_process_message :: "signal_event_type \<Rightarrow> bool \<Rightarrow> bool \<Rightarrow> bytes \<Rightarrow> signal_event option" where
  "sig_process_message uninit alloc_json alloc_value data =
     (if \<not> alloc_json then None
      else do {
        let json = takeWhile (\<lambda>c. c \<noteq> CHR 0x00) (bytes_string data);
        found \<leftarrow> strstr json (json_pattern ''type'');
        colon \<leftarrow> strchr (drop 6 found) CHR '':'';
        type \<leftarrow> sig_event_type uninit (dropWhile (\<lambda>c. c = CHR '':'' \<or> c = CHR '' '' \<or> c = c_quote) colon);
        Some \<lparr>se_type = type, se_data = sig_event_data alloc_value type json\<rparr>
      })"

section \<open>Sent messages\<close>

definition sig_sdp_json :: "string \<Rightarrow> string \<Rightarrow> string" where
  "sig_sdp_json kind escaped =
     [CHR ''{'', c_quote] @ ''type'' @ [c_quote, CHR '':'', CHR '' '', c_quote] @ kind @ [c_quote, CHR '','', CHR '' '', c_quote]
     @ ''sdp'' @ [c_quote, CHR '':'', CHR '' '', CHR ''{'', c_quote] @ ''type'' @ [c_quote, CHR '':'', CHR '' '', c_quote]
     @ kind @ [c_quote, CHR '','', CHR '' '', c_quote] @ ''sdp'' @ [c_quote, CHR '':'', CHR '' '', c_quote]
     @ escaped @ [c_quote, CHR ''}'', CHR ''}'']"

definition or_null :: "string \<Rightarrow> string option \<Rightarrow> string" where
  "or_null d s = (case s of None \<Rightarrow> d | Some v \<Rightarrow> v)"

definition sig_candidate_line :: "string option \<Rightarrow> string option \<Rightarrow> u32 \<Rightarrow> string option \<Rightarrow> u16 \<Rightarrow> string option \<Rightarrow> string" where
  "sig_candidate_line foundation protocol priority ip port type =
     ''candidate:'' @ or_null ''tiny'' foundation @ '' 1 '' @ or_null ''udp'' protocol @ '' '' @ show_word priority @ '' ''
       @ or_null ''0.0.0.0'' ip @ '' '' @ show_word port @ '' typ '' @ or_null ''host'' type"

definition sig_candidate_json :: "string option \<Rightarrow> string option \<Rightarrow> u32 \<Rightarrow> string option \<Rightarrow> u16 \<Rightarrow> string option \<Rightarrow> string" where
  "sig_candidate_json foundation protocol priority ip port type =
     [CHR ''{'', c_quote] @ ''type'' @ [c_quote, CHR '':'', CHR '' '', c_quote] @ ''ice-candidate''
     @ [c_quote, CHR '','', CHR '' '', c_quote] @ ''candidate'' @ [c_quote, CHR '':'', CHR '' '', CHR ''{'', c_quote] @ ''candidate''
     @ [c_quote, CHR '':'', CHR '' '', c_quote] @ sig_candidate_line foundation protocol priority ip port type
     @ [c_quote, CHR '','', CHR '' '', c_quote] @ ''sdpMid'' @ [c_quote, CHR '':'', CHR '' '', c_quote, CHR ''0'', c_quote, CHR '','', CHR '' '', c_quote]
     @ ''sdpMLineIndex'' @ [c_quote, CHR '':'', CHR '' '', CHR ''0'', CHR ''}'', CHR ''}'']"

section \<open>Escaping is undone\<close>

definition json_escaped :: "string \<Rightarrow> string" where
  "json_escaped s = concat (map json_escape_char s)"

lemma json_escaped_simps [simp]:
  "json_escaped [] = []" "json_escaped (c # s) = json_escape_char c @ json_escaped s"
  by (simp_all add: json_escaped_def)

lemma json_escape_char_cases:
  obtains (pair) d where "json_escape_char c = [c_backslash, d]"
      and "sig_unescape (c_backslash # d # s) = c # sig_unescape s" and "d = c_backslash \<longleftrightarrow> c = c_backslash"
  | (plain) "json_escape_char c = [c]" and "c \<noteq> c_quote" and "c \<noteq> c_backslash"
  by (cases "c \<in> {c_quote, c_backslash, c_lf, c_return, c_tabulator}") (auto simp: json_escape_char_def)

lemma sig_unescape_plain: "c \<noteq> c_backslash \<Longrightarrow> sig_unescape (c # s) = c # sig_unescape s"
  by (cases s) simp_all

lemma sig_unescape_escaped: "sig_unescape (json_escaped s) = s"
proof (induction s)
  case Nil
  then show ?case by simp
next
  case (Cons c s)
  show ?case
    by (cases rule: json_escape_char_cases [where c = c and s = "json_escaped s"]) (use Cons in \<open>simp_all add: sig_unescape_plain\<close>)
qed

text \<open>
  The scanner finds the closing quote unless the text ends in a backslash, whose escape it takes
  for an escaped quote.
\<close>

lemma sig_scan_escaped:
  "(if s = [] then \<not> b else last s \<noteq> c_backslash) \<Longrightarrow>
   sig_scan_string b (json_escaped s @ c_quote # rest) = Some (json_escaped s)"
proof (induction s arbitrary: b)
  case Nil
  then show ?case by simp
next
  case (Cons c s)
  then have "sig_scan_string (c = c_backslash) (json_escaped s @ c_quote # rest) = Some (json_escaped s)"
    by (cases s) (auto intro!: Cons.IH)
  then show ?case
    by (cases rule: json_escape_char_cases [where c = c and s = "json_escaped s"]) auto
qed

lemma length_json_escape_char: "length (json_escape_char c) = 1 \<or> length (json_escape_char c) = 2"
  by (simp add: json_escape_char_def)

lemma sig_json_escape_loop_bound:
  "length out < n \<Longrightarrow> length (sig_json_escape_loop n out input) < n"
proof (induction n out input rule: sig_json_escape_loop.induct)
  case (2 n out c input)
  then show ?case using length_json_escape_char [of c] by (auto simp: Let_def)
qed simp

lemma sig_json_escape_loop_complete:
  "length out + length (json_escaped input) < n \<Longrightarrow> sig_json_escape_loop n out input = out @ json_escaped input"
proof (induction input arbitrary: out)
  case (Cons c input)
  then show ?case using length_json_escape_char [of c] by (auto simp: Let_def)
qed simp

lemma sig_json_escape_fits: "length (json_escaped s) < n \<Longrightarrow> sig_json_escape s n = json_escaped s"
  using sig_json_escape_loop_complete [of "[]" s n] by (simp add: sig_json_escape_def)

section \<open>Reading sent messages\<close>

lemma skip_blanks_simps [simp]:
  "skip_blanks (CHR '' '' # s) = skip_blanks s" "skip_blanks (c_quote # s) = c_quote # s" "skip_blanks (CHR ''{'' # s) = CHR ''{'' # s"
  by (simp_all add: skip_blanks_def)

lemma sig_extract_printed:
  assumes "strstr json (json_pattern field) = Some (json_pattern field @ CHR '':'' # CHR '' '' # c_quote # json_escaped s @ c_quote # rest)"
    and "s = [] \<or> last s \<noteq> c_backslash"
  shows "sig_extract_json_string_field True json field = Some s"
proof -
  have "sig_scan_string False (json_escaped s @ c_quote # rest) = Some (json_escaped s)"
    using assms(2) by (intro sig_scan_escaped) auto
  then show ?thesis
    using assms(1) by (simp add: sig_extract_json_string_field_def json_value_def strchr_def sig_unescape_escaped)
qed

lemmas sig_search = json_pattern_def strncmp_eq_def json_value_def strchr_def

lemma sig_extract_sdp_json:
  assumes "s = [] \<or> last s \<noteq> c_backslash" and "kind = ''offer'' \<or> kind = ''answer''"
  shows "sig_extract_sdp_value True (sig_sdp_json kind (json_escaped s)) = Some s"
proof -
  let ?tail = "CHR '':'' # CHR '' '' # c_quote # json_escaped s @ [c_quote, CHR ''}'', CHR ''}'']"
  let ?inner = "CHR ''{'' # c_quote # ''type'' @ [c_quote, CHR '':'', CHR '' '', c_quote] @ kind
    @ [c_quote, CHR '','', CHR '' ''] @ json_pattern ''sdp'' @ ?tail"
  have outer: "strstr (sig_sdp_json kind (json_escaped s)) (json_pattern ''sdp'')
      = Some (json_pattern ''sdp'' @ CHR '':'' # CHR '' '' # ?inner)"
    using assms(2) by (elim disjE) (simp_all add: sig_sdp_json_def sig_search)
  have inner: "strstr ?inner (json_pattern ''sdp'') = Some (json_pattern ''sdp'' @ ?tail)"
    using assms(2) by (elim disjE) (simp_all add: sig_search)
  have "sig_extract_json_string_field True ?inner ''sdp'' = Some s"
    by (rule sig_extract_printed [OF inner assms(1)])
  then show ?thesis
    unfolding sig_extract_sdp_value_def outer
    by (simp add: json_value_def strchr_def json_pattern_def)
qed

text \<open>The text of a message without a NUL is read whole.\<close>

lemma sig_process_json:
  assumes "CHR 0x00 \<notin> set json"
  shows "sig_process_message uninit True True (string_bytes json) = do {
    found \<leftarrow> strstr json (json_pattern ''type'');
    colon \<leftarrow> strchr (drop 6 found) CHR '':'';
    type \<leftarrow> sig_event_type uninit (dropWhile (\<lambda>c. c = CHR '':'' \<or> c = CHR '' '' \<or> c = c_quote) colon);
    Some \<lparr>se_type = type, se_data = sig_event_data True type json\<rparr>
  }"
proof -
  have "takeWhile (\<lambda>c. c \<noteq> CHR 0x00) json = json" using assms by (auto simp: takeWhile_eq_all_conv)
  then show ?thesis by (simp only: sig_process_message_def bytes_string_of_string Let_def simp_thms if_False)
qed

lemma json_escaped_no_nul: "CHR 0x00 \<notin> set s \<Longrightarrow> CHR 0x00 \<notin> set (json_escaped s)"
  by (induction s) (auto simp: json_escape_char_def)

lemma sig_process_sdp:
  assumes "s = [] \<or> last s \<noteq> c_backslash" and "CHR 0x00 \<notin> set s"
  shows "sig_process_message uninit True True (string_bytes (sig_sdp_json ''offer'' (json_escaped s)))
      = Some \<lparr>se_type = TINYRTC_SIGNAL_EVENT_OFFER, se_data = Signal_Sdp s\<rparr>"
    and "sig_process_message uninit True True (string_bytes (sig_sdp_json ''answer'' (json_escaped s)))
      = Some \<lparr>se_type = TINYRTC_SIGNAL_EVENT_ANSWER, se_data = Signal_Sdp s\<rparr>"
proof -
  have nul: "CHR 0x00 \<notin> set (sig_sdp_json kind (json_escaped s))" if "kind = ''offer'' \<or> kind = ''answer''" for kind
    using that json_escaped_no_nul [OF assms(2)] by (auto simp: sig_sdp_json_def)
  have sdp: "sig_event_data True t (sig_sdp_json kind (json_escaped s)) = Signal_Sdp s"
    if "kind = ''offer'' \<or> kind = ''answer''" "t = TINYRTC_SIGNAL_EVENT_OFFER \<or> t = TINYRTC_SIGNAL_EVENT_ANSWER" for kind t
    using that(2) sig_extract_sdp_json [OF assms(1) that(1)] by (auto simp: sig_event_data_def)
  show "sig_process_message uninit True True (string_bytes (sig_sdp_json ''offer'' (json_escaped s)))
      = Some \<lparr>se_type = TINYRTC_SIGNAL_EVENT_OFFER, se_data = Signal_Sdp s\<rparr>"
    using nul [of "''offer''"] sdp [of "''offer''" TINYRTC_SIGNAL_EVENT_OFFER] unfolding sig_process_json [OF nul [of "''offer''", simplified]]
    by (simp add: sig_sdp_json_def sig_search sig_event_type_def)
  show "sig_process_message uninit True True (string_bytes (sig_sdp_json ''answer'' (json_escaped s)))
      = Some \<lparr>se_type = TINYRTC_SIGNAL_EVENT_ANSWER, se_data = Signal_Sdp s\<rparr>"
    using nul [of "''answer''"] sdp [of "''answer''" TINYRTC_SIGNAL_EVENT_ANSWER] unfolding sig_process_json [OF nul [of "''answer''", simplified]]
    by (simp add: sig_sdp_json_def sig_search sig_event_type_def)
qed

section \<open>Candidates\<close>

text \<open>Fields that survive the text: words without white space, quotes and backslashes.\<close>

definition sig_word :: "nat \<Rightarrow> string \<Rightarrow> bool" where
  "sig_word n w \<longleftrightarrow> w \<noteq> [] \<and> length w \<le> n \<and> (\<forall>c \<in> set w. \<not> c_isspace c \<and> c \<noteq> c_quote \<and> c \<noteq> c_backslash \<and> c \<noteq> CHR 0x00)"

lemma skip_c_space_word: "sig_word n w \<Longrightarrow> skip_c_space (w @ rest) = w @ rest"
  by (cases w) (auto simp: sig_word_def)

lemma scan_word_printed:
  assumes "sig_word n w" and "rest = [] \<or> c_isspace (hd rest)"
  shows "scan_word n (w @ rest) = Some (w, rest)" and "scan_word n (CHR '' '' # w @ rest) = Some (w, rest)"
proof -
  have w: "\<forall>c \<in> set w. \<not> c_isspace c" "w \<noteq> []" "length w \<le> n" using assms(1) by (simp_all add: sig_word_def)
  have "takeWhile (\<lambda>c. \<not> c_isspace c) rest = []" using assms(2) by (cases rest) simp_all
  then have "takeWhile (\<lambda>c. \<not> c_isspace c) (w @ rest) = w" using w(1) by (simp add: takeWhile_append2)
  then show "scan_word n (w @ rest) = Some (w, rest)"
    unfolding scan_word_def skip_c_space_word [OF assms(1)] using w by (cases n) (simp_all add: Let_def)
  then show "scan_word n (CHR '' '' # w @ rest) = Some (w, rest)"
    by (simp add: scan_word_def c_isspace_def)
qed

lemma digits_word:
  assumes "w \<noteq> []" and "length w \<le> n" and "\<forall>c \<in> set w. c_isdigit c"
  shows "sig_word n w"
proof -
  have "\<not> c_isspace c \<and> c \<noteq> c_quote \<and> c \<noteq> c_backslash \<and> c \<noteq> CHR 0x00" if "c_isdigit c" for c
  proof (intro conjI notI)
    show False if "c_isspace c" using c_isdigit_not [OF \<open>c_isdigit c\<close>] that by simp
  qed (use that in \<open>simp_all add: c_isdigit_def\<close>)
  with assms show ?thesis by (simp add: sig_word_def)
qed

lemma show_word_word: "length (show_word w) \<le> n \<Longrightarrow> sig_word n (show_word w)"
  by (rule digits_word) (auto simp: show_word_def dest: show_nat_digits)

definition sig_candidate_ok :: "ice_candidate \<Rightarrow> bool" where
  "sig_candidate_ok c \<longleftrightarrow>
     sig_word 31 (ic_foundation c) \<and> sig_word 31 (ic_protocol c) \<and> sig_word 127 (ic_ip c) \<and> sig_word 31 (ic_type c) \<and>
     ic_port c \<noteq> 0 \<and> ic_is_ipv6 c = (CHR '':'' \<in> set (ic_ip c))"

abbreviation candidate_json :: "ice_candidate \<Rightarrow> string" where
  "candidate_json c \<equiv> sig_candidate_json (Some (ic_foundation c)) (Some (ic_protocol c)) (ic_priority c) (Some (ic_ip c))
     (ic_port c) (Some (ic_type c))"

abbreviation candidate_line :: "ice_candidate \<Rightarrow> string" where
  "candidate_line c \<equiv> sig_candidate_line (Some (ic_foundation c)) (Some (ic_protocol c)) (ic_priority c) (Some (ic_ip c))
     (ic_port c) (Some (ic_type c))"

definition json_plain :: "string \<Rightarrow> bool" where
  "json_plain w \<longleftrightarrow> (\<forall>c \<in> set w. c \<noteq> c_quote \<and> c \<noteq> c_backslash \<and> c \<noteq> CHR 0x00)"

lemma json_plain_simps [simp]:
  "json_plain []" "json_plain (v @ w) \<longleftrightarrow> json_plain v \<and> json_plain w"
  "json_plain (c # w) \<longleftrightarrow> c \<noteq> c_quote \<and> c \<noteq> c_backslash \<and> c \<noteq> CHR 0x00 \<and> json_plain w"
  by (auto simp: json_plain_def)

lemma sig_word_plain: "sig_word n w \<Longrightarrow> json_plain w"
  by (simp add: sig_word_def json_plain_def)

lemma sig_scan_plain: "json_plain w \<Longrightarrow> sig_scan_string False (w @ c_quote # rest) = Some w"
  by (induction w) simp_all

lemma sig_unescape_plain_all: "json_plain w \<Longrightarrow> sig_unescape w = w"
  by (induction w) (simp_all add: sig_unescape_plain)

lemma candidate_line_plain:
  assumes "sig_candidate_ok c"
  shows "json_plain (candidate_line c)"
  using assms sig_word_plain sig_word_plain [OF show_word_word [of "ic_priority c", OF order_refl]]
    sig_word_plain [OF show_word_word [of "ic_port c", OF order_refl]]
  by (auto simp: sig_candidate_line_def sig_candidate_ok_def or_null_def)

lemma scan_skip_one: "scan_skip_int (CHR '' '' # CHR ''1'' # CHR '' '' # rest) = Some (CHR '' '' # rest)"
  by (simp add: scan_skip_int_def scan_number_def c_isspace_def c_isdigit_def)

lemma length_show_word_le:
  "length (show_word (w :: u32)) \<le> 10" "length (show_word (p :: u16)) \<le> 5"
  using unat_less [of w] unat_less [of p] unfolding show_word_def by (auto intro!: length_show_nat)

lemma sig_scan_printed:
  assumes "sig_candidate_ok c"
  shows "sig_scan_candidate (drop 10 (candidate_line c))
    = Some (ic_foundation c, ic_protocol c, show_word (ic_priority c), ic_ip c, show_word (ic_port c), ic_type c)"
proof -
  have blank: "CHR '' '' # s = [] \<or> c_isspace (hd (CHR '' '' # s))" for s by (simp add: c_isspace_def)
  have w: "sig_word 31 (ic_foundation c)" "sig_word 31 (ic_protocol c)" "sig_word 127 (ic_ip c)" "sig_word 31 (ic_type c)"
    "sig_word 31 (show_word (ic_priority c))" "sig_word 15 (show_word (ic_port c))"
    using assms length_show_word_le(1) [of "ic_priority c"] length_show_word_le(2) [of "ic_port c"]
    by (auto simp: sig_candidate_ok_def intro!: show_word_word)
  have words: "scan_word 31 (ic_foundation c @ CHR '' '' # s) = Some (ic_foundation c, CHR '' '' # s)"
    "scan_word 31 (CHR '' '' # ic_protocol c @ CHR '' '' # s) = Some (ic_protocol c, CHR '' '' # s)"
    "scan_word 31 (CHR '' '' # show_word (ic_priority c) @ CHR '' '' # s) = Some (show_word (ic_priority c), CHR '' '' # s)"
    "scan_word 127 (CHR '' '' # ic_ip c @ CHR '' '' # s) = Some (ic_ip c, CHR '' '' # s)"
    "scan_word 15 (CHR '' '' # show_word (ic_port c) @ CHR '' '' # s) = Some (show_word (ic_port c), CHR '' '' # s)" for s
    by (rule scan_word_printed [OF w(1) blank] scan_word_printed(2) [OF w(2) blank] scan_word_printed(2) [OF w(5) blank]
        scan_word_printed(2) [OF w(3) blank] scan_word_printed(2) [OF w(6) blank])+
  have last: "scan_word 31 (CHR '' '' # ic_type c) = Some (ic_type c, [])"
    using scan_word_printed(2) [OF w(4), of "[]"] by simp
  have tag: "scan_literal ''typ'' (CHR '' '' # CHR ''t'' # CHR ''y'' # CHR ''p'' # s) = Some s" for s
    by (simp add: scan_literal_def c_isspace_def strncmp_eq_def)
  show ?thesis
    by (simp add: sig_scan_candidate_def sig_candidate_line_def or_null_def words last tag scan_skip_one)
qed

lemma atoi_show_port: "atoi (show_word (w :: u16)) = uint w"
proof -
  have u: "uint w < 65536" using uint_lt2p [of w] by simp
  have "strtol (show_word w) = Some (uint w, [])"
    using scan_number_show_nat [of "[]" "unat w"] u by (simp add: strtol_def show_word_def)
  then show ?thesis using to_int32_id [of "uint w"] u by (simp add: atoi_def order_trans [of "- 2147483648" 0])
qed

lemma sig_extract_candidate_json:
  assumes "sig_candidate_ok c"
  shows "sig_extract_candidate_value True (candidate_json c) = Some c"
proof -
  let ?tail = "[c_quote, CHR '','', CHR '' '', c_quote] @ ''sdpMid'' @ [c_quote, CHR '':'', CHR '' '', c_quote, CHR ''0'',
    c_quote, CHR '','', CHR '' '', c_quote] @ ''sdpMLineIndex'' @ [c_quote, CHR '':'', CHR '' '', CHR ''0'', CHR ''}'', CHR ''}'']"
  let ?inner = "CHR ''{'' # json_pattern ''candidate'' @ CHR '':'' # CHR '' '' # c_quote # candidate_line c @ ?tail"
  have outer: "strstr (candidate_json c) (json_pattern ''candidate'')
      = Some (json_pattern ''candidate'' @ CHR '':'' # CHR '' '' # ?inner)"
    by (simp add: sig_candidate_json_def sig_search)
  have inner: "strstr ?inner (json_pattern ''candidate'') = Some (json_pattern ''candidate'' @ CHR '':'' # CHR '' '' # c_quote
      # candidate_line c @ ?tail)"
    by (simp add: sig_search)
  have scan: "sig_scan_string False (candidate_line c @ ?tail) = Some (candidate_line c)"
    using sig_scan_plain [OF candidate_line_plain [OF assms]] by simp
  have "sig_extract_json_string_field True ?inner ''candidate'' = Some (candidate_line c)"
    unfolding sig_extract_json_string_field_def inner
    by (simp add: json_value_def strchr_def scan [simplified] sig_unescape_plain_all [OF candidate_line_plain [OF assms]])
  moreover have "strncmp_eq (candidate_line c) ''candidate:''"
    by (simp add: strncmp_eq_def sig_candidate_line_def)
  moreover have prio: "strtoull (show_word (ic_priority c)) = Some (ucast (ic_priority c), [])"
    using strtoull_show_word [of "[]" "ucast (ic_priority c)"] by (simp add: show_word_def)
  moreover have "uint (ic_port c) > 0" using assms by (simp add: sig_candidate_ok_def word_neq_0_conv word_less_def)
  moreover have "ucast (ucast (ic_priority c) :: u64) = ic_priority c" by (rule ucast_up_ucast_id) (simp add: is_up)
  ultimately show ?thesis
    unfolding sig_extract_candidate_value_def outer
    using sig_scan_printed [OF assms] assms
    by (cases c) (simp add: json_value_def strchr_def json_pattern_def atoi_show_port sig_candidate_ok_def)
qed

lemma sig_process_candidate:
  assumes "sig_candidate_ok c"
  shows "sig_process_message uninit True True (string_bytes (candidate_json c))
      = Some \<lparr>se_type = TINYRTC_SIGNAL_EVENT_ICE_CANDIDATE, se_data = Signal_Candidate c\<rparr>"
proof -
  have "CHR 0x00 \<notin> set (candidate_line c)"
    using candidate_line_plain [OF assms] by (auto simp: json_plain_def)
  then have nul: "CHR 0x00 \<notin> set (candidate_json c)" by (simp add: sig_candidate_json_def)
  show ?thesis unfolding sig_process_json [OF nul]
    using sig_extract_candidate_json [OF assms]
    by (simp add: sig_candidate_json_def [of "Some _"] sig_search sig_event_type_def sig_event_data_def)
qed

end
