(* ===== verification/Base64.thy ===== *)
theory Base64
  imports Interfaces
begin

text \<open>
  \<^verbatim>\<open>base64_encode\<close> of \<^verbatim>\<open>src/signaling/signaling.c\<close> (lines 360 to 409) and its equivalence with the
  reference: the bits of the input, most significant first, cut into groups of six.
\<close>

definition base64_chars :: string where
  "base64_chars = ''ABCDEFGHIJKLMNOPQRSTUVWXYZabcdefghijklmnopqrstuvwxyz0123456789+/''"

definition base64_char :: "u8 \<Rightarrow> char" where
  "base64_char i = base64_chars ! unat i"

section \<open>The encoder\<close>

text \<open>The first two characters of a group, its third and its fourth.\<close>

definition base64_head :: "u8 \<Rightarrow> u8 \<Rightarrow> string" where
  "base64_head b0 b1 =
     [base64_char (drop_bit 2 b0 AND 0x3F), base64_char (push_bit 4 (b0 AND 0x03) OR (drop_bit 4 b1 AND 0x0F))]"

definition base64_third :: "u8 \<Rightarrow> u8 \<Rightarrow> string" where
  "base64_third b1 b2 = [base64_char (push_bit 2 (b1 AND 0x0F) OR (drop_bit 6 b2 AND 0x03))]"

definition base64_fourth :: "u8 \<Rightarrow> string" where
  "base64_fourth b2 = [base64_char (b2 AND 0x3F)]"

text \<open>The loop: the characters of the complete groups and what is left in the buffer.\<close>

fun base64_loop :: "bytes \<Rightarrow> bytes \<Rightarrow> string \<times> bytes" where
  "base64_loop buf [] = ([], buf)"
| "base64_loop buf (b # bs) =
     (let buf = buf @ [b] in
      if length buf = 3 then
        (case base64_loop [] bs of (out, rest) \<Rightarrow>
           (base64_head (buf ! 0) (buf ! 1) @ base64_third (buf ! 1) (buf ! 2) @ base64_fourth (buf ! 2) @ out, rest))
      else base64_loop buf bs)"

definition base64_rest :: "bytes \<Rightarrow> string" where
  "base64_rest buf0 =
     (let n = length buf0; buf = buf0 @ replicate (3 - n) 0 in
      if n > 0 then
        base64_head (buf ! 0) (buf ! 1)
        @ (if n = 1 then ''=='' else if n = 2 then base64_third (buf ! 1) (buf ! 2) @ ''='' else [])
      else [])"

text \<open>The returned length and the text, absent when the buffer is too small.\<close>

definition base64_encode :: "bytes \<Rightarrow> nat \<Rightarrow> nat \<times> string option" where
  "base64_encode input output_len =
     (let output_size = (length input + 2) div 3 * 4 in
      if output_len < output_size + 1 then (0, None)
      else (case base64_loop [] input of (out, rest) \<Rightarrow> (output_size, Some (out @ base64_rest rest))))"

section \<open>The reference\<close>

definition byte_bits :: "u8 \<Rightarrow> bool list" where
  "byte_bits b = map (bit b) [7, 6, 5, 4, 3, 2, 1, 0]"

definition bits_value :: "bool list \<Rightarrow> nat" where
  "bits_value bs = foldl (\<lambda>n b. 2 * n + of_bool b) 0 bs"

text \<open>Groups of six bits; a last short group is filled with zero bits.\<close>

fun sextets :: "bool list \<Rightarrow> nat list" where
  "sextets (a # b # c # d # e # f # bs) = bits_value [a, b, c, d, e, f] # sextets bs"
| "sextets [] = []"
| "sextets bs = [bits_value (take 6 (bs @ replicate 5 False))]"

definition base64_spec :: "bytes \<Rightarrow> string" where
  "base64_spec input =
     (let text = map (\<lambda>n. base64_chars ! n) (sextets (concat (map byte_bits input))) in
      text @ replicate ((4 - length text mod 4) mod 4) CHR ''='')"

section \<open>Equivalence\<close>

lemma unat_byte_bits:
  "unat (w :: u8) = of_bool (bit w 0) + 2 * of_bool (bit w 1) + 4 * of_bool (bit w 2) + 8 * of_bool (bit w 3)
     + 16 * of_bool (bit w 4) + 32 * of_bool (bit w 5) + 64 * of_bool (bit w 6) + 128 * of_bool (bit w 7)"
proof -
  have upt: "[0..<8] = [0, 1, 2, 3, 4, 5, 6, 7 :: nat]" by (simp add: upt_rec)
  have "unat w = take_bit 8 (unat w)" using unat_less [of w] by (simp add: take_bit_nat_eq_self)
  also have "\<dots> = horner_sum of_bool 2 (map (bit (unat w)) [0..<8])" by (simp add: horner_sum_bit_eq_take_bit)
  also have "\<dots> = horner_sum of_bool 2 (map (bit w) [0..<8])" unfolding upt by (simp add: bit_unsigned_iff)
  finally show ?thesis unfolding upt by (simp only: list.map horner_sum_simps) (simp add: algebra_simps)
qed

lemma base64_group:
  "base64_char (drop_bit 2 b0 AND 0x3F) = base64_chars ! bits_value [bit b0 7, bit b0 6, bit b0 5, bit b0 4, bit b0 3, bit b0 2]"
  "base64_char (push_bit 4 (b0 AND 0x03) OR (drop_bit 4 b1 AND 0x0F))
     = base64_chars ! bits_value [bit b0 1, bit b0 0, bit b1 7, bit b1 6, bit b1 5, bit b1 4]"
  "base64_char (push_bit 2 (b1 AND 0x0F) OR (drop_bit 6 b2 AND 0x03))
     = base64_chars ! bits_value [bit b1 3, bit b1 2, bit b1 1, bit b1 0, bit b2 7, bit b2 6]"
  "base64_char (b2 AND 0x3F) = base64_chars ! bits_value [bit b2 5, bit b2 4, bit b2 3, bit b2 2, bit b2 1, bit b2 0]"
  unfolding base64_char_def bits_value_def
  by (rule arg_cong [of _ _ "(!) base64_chars"]; simp add: unat_byte_bits [of "_ AND _"] unat_byte_bits [of "_ OR _"] bit_simps)+

definition base64_group_text :: "u8 \<Rightarrow> u8 \<Rightarrow> u8 \<Rightarrow> string" where
  "base64_group_text a b c = base64_head a b @ base64_third b c @ base64_fourth c"

lemma base64_loop_group:
  "base64_loop [] (a # b # c # bs) =
     (base64_group_text a b c @ fst (base64_loop [] bs), snd (base64_loop [] bs))"
  by (simp add: base64_group_text_def case_prod_beta)

lemma base64_spec_group: "base64_spec (a # b # c # bs) = base64_group_text a b c @ base64_spec bs"
  unfolding base64_spec_def byte_bits_def base64_group_text_def base64_head_def base64_third_def
    base64_fourth_def base64_group(1-3) Let_def
  unfolding base64_group(4) by simp

lemma base64_filling: "replicate 5 False = [False, False, False, False, False]" "replicate 2 c = [c, c]"
  by (simp_all add: numeral_eq_Suc)

lemma base64_spec_short:
  "base64_spec [] = []"
  "base64_spec [a] = base64_head a 0 @ ''=='' "
  "base64_spec [a, b] = base64_head a b @ base64_third b 0 @ ''=''"
  unfolding base64_spec_def byte_bits_def base64_head_def base64_third_def base64_group(1-3) Let_def
  by (simp_all add: base64_filling)

lemma base64_loop_spec: "fst (base64_loop [] bs) @ base64_rest (snd (base64_loop [] bs)) = base64_spec bs"
proof (induction bs rule: length_induct)
  case (1 bs)
  consider "bs = []" | a where "bs = [a]" | a b where "bs = [a, b]" | a b c cs where "bs = a # b # c # cs"
    by (metis list.exhaust)
  then show ?case
  proof cases
    case 4
    with 1 have "fst (base64_loop [] cs) @ base64_rest (snd (base64_loop [] cs)) = base64_spec cs" by simp
    then show ?thesis by (simp only: 4 base64_loop_group base64_spec_group fst_conv snd_conv append_assoc)
  qed (simp_all add: base64_spec_short base64_rest_def Let_def)
qed

lemma length_base64_spec: "length (base64_spec bs) = (length bs + 2) div 3 * 4"
proof (induction bs rule: length_induct)
  case (1 bs)
  consider "bs = []" | a where "bs = [a]" | a b where "bs = [a, b]" | a b c cs where "bs = a # b # c # cs"
    by (metis list.exhaust)
  then show ?case
  proof cases
    case 4
    with 1 have "length (base64_spec cs) = (length cs + 2) div 3 * 4" by simp
    moreover have "(length bs + 2) div 3 = Suc ((length cs + 2) div 3)" by (simp add: 4)
    ultimately show ?thesis
      by (simp add: 4 base64_spec_group base64_group_text_def base64_head_def base64_third_def base64_fourth_def)
  qed (simp_all add: base64_spec_short base64_head_def base64_third_def)
qed

lemma base64_encode_eq:
  "base64_encode input n =
     (if n < (length input + 2) div 3 * 4 + 1 then (0, None) else ((length input + 2) div 3 * 4, Some (base64_spec input)))"
  using base64_loop_spec [of input] by (simp add: base64_encode_def Let_def case_prod_beta)

section \<open>Properties\<close>

text \<open>C38: the encoder computes the base64 text of the reference, of the length it returns, and writes
  nothing when the text and its terminator do not fit the output buffer.\<close>

theorem base64_encode_reference:
  "base64_encode input n =
     (if length (base64_spec input) < n then (length (base64_spec input), Some (base64_spec input)) else (0, None))"
  by (simp add: base64_encode_eq length_base64_spec)

end
