(* ===== verification/Signaling.thy ===== *)
theory Signaling
  imports Sig_Json Base64
begin

text \<open>
  The signaling client of \<^verbatim>\<open>src/signaling/signaling.c\<close>: URL, handshake, WebSocket frames in both
  directions, creation, sending and processing.  The network, the random generator and the callback
  are a record that is threaded through: what the next one-byte reads and the next writes return,
  the random bytes to come, and what was sent and reported.  TLS, SHA-1 and the allocator's answer
  are arguments.
\<close>

datatype signaling_state =
    TINYRTC_SIGNALING_DISCONNECTED
  | TINYRTC_SIGNALING_CONNECTING
  | TINYRTC_SIGNALING_CONNECTED
  | TINYRTC_SIGNALING_ERROR

text \<open>
  \<^verbatim>\<open>recv_buf\<close> is its first \<^verbatim>\<open>recv_len\<close> bytes, the fragment buffer its first \<^verbatim>\<open>message_len\<close> bytes when
  it is allocated.
\<close>

record signaling =
  sig_server_url :: string
  sig_room_id :: string
  sig_client_id :: string
  sig_auto_connect :: bool
  sig_is_wss :: bool
  sig_disable_cert_verify :: bool
  sig_state :: signaling_state
  sig_last_error :: string
  sig_recv_buf :: bytes
  sig_message_buf :: "bytes option"

text \<open>One read: a byte, nothing available now, or an error or the end of the stream.\<close>

datatype rx = Rx_Byte u8 | Rx_Want | Rx_Failed

text \<open>
  One write: there is room for so many bytes, the code for trying again (\<^verbatim>\<open>WANT_READ\<close> or
  \<^verbatim>\<open>WANT_WRITE\<close>), or the code of an error.  All codes are negative.
\<close>

datatype tx = Tx_Sent nat | Tx_Want int | Tx_Failed int

record sig_io =
  io_rx :: "rx list"
  io_tx :: "tx list"
  io_random :: "nat \<Rightarrow> u8"
  io_sent :: bytes
  io_events :: "signal_event list"

definition SIG_MAX_RECV_BUF :: nat where "SIG_MAX_RECV_BUF = 8192"
definition SIG_MAX_SEND_BUF :: nat where "SIG_MAX_SEND_BUF = 8192"
definition WS_OPCODE_CONTINUE :: u8 where "WS_OPCODE_CONTINUE = 0x00"
definition WS_OPCODE_TEXT :: u8 where "WS_OPCODE_TEXT = 0x01"
definition WS_OPCODE_BINARY :: u8 where "WS_OPCODE_BINARY = 0x02"
definition WS_OPCODE_CLOSE :: u8 where "WS_OPCODE_CLOSE = 0x08"
definition WS_OPCODE_PING :: u8 where "WS_OPCODE_PING = 0x09"
definition WS_OPCODE_PONG :: u8 where "WS_OPCODE_PONG = 0x0A"

lemmas ws_constants = SIG_MAX_RECV_BUF_def SIG_MAX_SEND_BUF_def WS_OPCODE_CONTINUE_def WS_OPCODE_TEXT_def
  WS_OPCODE_BINARY_def WS_OPCODE_CLOSE_def WS_OPCODE_PING_def WS_OPCODE_PONG_def

text \<open>\<^verbatim>\<open>snprintf(sig->last_error, sizeof(sig->last_error) - 1, ...)\<close>.\<close>

definition sig_set_error :: "string \<Rightarrow> signaling \<Rightarrow> signaling" where
  "sig_set_error text sig = sig\<lparr>sig_last_error := take 254 text\<rparr>"

section \<open>URL and handshake\<close>

definition sig_parse_url :: "string \<Rightarrow> nat \<Rightarrow> (string \<times> u16 \<times> bool) option" where
  "sig_parse_url url0 host_len =
     (case (if strncmp_eq url0 ''ws://'' then Some (drop 5 url0, 80, False)
            else if strncmp_eq url0 ''wss://'' then Some (drop 6 url0, 443, True) else None) of
        None \<Rightarrow> None
      | Some (url, port, is_wss) \<Rightarrow>
          (let before_slash = takeWhile (\<lambda>c. c \<noteq> CHR ''/'') url in
           case split_at_char CHR '':'' before_slash of
             Some (host, _) \<Rightarrow>
               if length host \<ge> host_len then None
               else Some (host, word_of_int (atoi (drop (Suc (length host)) url)), is_wss)
           | None \<Rightarrow> if length before_slash \<ge> host_len then None else Some (before_slash, port, is_wss)))"

definition sig_charset :: string where
  "sig_charset = ''abcdefghijklmnopqrstuvwxyz0123456789''"

definition io_random_bytes :: "nat \<Rightarrow> sig_io \<Rightarrow> bytes \<times> sig_io" where
  "io_random_bytes n io = (map (io_random io) [0..<n], io\<lparr>io_random := \<lambda>i. io_random io (i + n)\<rparr>)"

definition sig_generate_client_id :: "nat \<Rightarrow> sig_io \<Rightarrow> string \<times> sig_io" where
  "sig_generate_client_id n io =
     (case io_random_bytes (n - 1) io of (rnd, io') \<Rightarrow> (map (\<lambda>r. sig_charset ! (unat r mod 36)) rnd, io'))"

definition sig_compute_accept_key :: "(bytes \<Rightarrow> bytes) \<Rightarrow> string \<Rightarrow> string option" where
  "sig_compute_accept_key sha1 client_key =
     snd (base64_encode (sha1 (string_bytes (client_key @ ''258EAFA5-E914-47DA-95CA-C5AB0DC85B11''))) 32)"

definition ws_end_of_headers :: "string \<Rightarrow> bool" where
  "ws_end_of_headers response \<longleftrightarrow>
     4 \<le> length response \<and> drop (length response - 4) response = [c_return, c_lf, c_return, c_lf]"

text \<open>
  The response, byte by byte into the 2047 bytes of its buffer; the read waits while nothing is
  available, so a network that never delivers the rest is a call that does not return.
\<close>

fun ws_read_response :: "string \<Rightarrow> rx list \<Rightarrow> (string \<times> rx list) option" where
  "ws_read_response response [] = (if length response < 2047 then None else Some (response, []))"
| "ws_read_response response (r # rs) =
     (if \<not> length response < 2047 then Some (response, r # rs)
      else
        (case r of
           Rx_Want \<Rightarrow> ws_read_response response rs
         | Rx_Failed \<Rightarrow> Some (response, rs)
         | Rx_Byte b \<Rightarrow>
             (let response = response @ [char_of (unat b)] in
              if ws_end_of_headers response then Some (response, rs) else ws_read_response response rs)))"

definition ws_request :: "string \<Rightarrow> string \<Rightarrow> string \<Rightarrow> string" where
  "ws_request host path client_key =
     (let nl = [c_return, c_lf] in
      ''GET '' @ path @ '' HTTP/1.1'' @ nl @ ''Host: '' @ host @ nl @ ''Origin: http://'' @ host @ nl
      @ ''Upgrade: websocket'' @ nl @ ''Connection: Upgrade'' @ nl @ ''Sec-WebSocket-Key: '' @ client_key @ nl
      @ ''Sec-WebSocket-Version: 13'' @ nl @ nl)"

text \<open>What the response's accept header must say; a string ends at a NUL that was received.\<close>

definition ws_check_response :: "string \<Rightarrow> string \<Rightarrow> string + unit" where
  "ws_check_response expected response0 =
     (let response = takeWhile (\<lambda>c. c \<noteq> CHR 0x00) response0 in
      if strstr response ''101 Switching Protocols'' = None then
        Inl (''Bad handshake response: expected 101, got:'' @ [c_lf] @ take 100 response)
      else case strstr response ''Sec-WebSocket-Accept:'' of
        None \<Rightarrow> Inl ''No Sec-WebSocket-Accept in response''
      | Some header \<Rightarrow>
          (let value = skip_blanks (drop 21 header);
               accept = (if c_return \<in> set value then takeWhile (\<lambda>c. c \<noteq> c_return) value
                         else takeWhile (\<lambda>c. c \<noteq> c_lf) value) in
           if accept \<noteq> expected then
             Inl (''Invalid Sec-WebSocket-Accept: expected '' @ expected @ '' (len='' @ show_nat (length expected)
               @ ''), got '' @ accept @ '' (len='' @ show_nat (length accept) @ '')'')
           else Inr ()))"

text \<open>
  The single write of the request, which is neither repeated nor completed; \<^verbatim>\<open>len\<close> is what
  \<^verbatim>\<open>snprintf\<close> returns, so a longer request is undefined.
\<close>

definition sig_perform_websocket_handshake ::
  "(bytes \<Rightarrow> bytes) \<Rightarrow> string \<Rightarrow> string \<Rightarrow> signaling \<Rightarrow> sig_io \<Rightarrow> (int \<times> signaling \<times> sig_io) option" where
  "sig_perform_websocket_handshake sha1 host path sig io0 =
     (let (key_bytes, io) = io_random_bytes 16 io0 in do {
        client_key \<leftarrow> snd (base64_encode key_bytes 64);
        let request = ws_request host path client_key;
        if length request \<ge> 2048 then None
        else
          (case io_tx io of
             [] \<Rightarrow> None
           | Tx_Failed e # txs \<Rightarrow>
               Some (-1, sig_set_error (''Failed to send handshake: '' @ show_int e) sig, io\<lparr>io_tx := txs\<rparr>)
           | Tx_Want e # txs \<Rightarrow>
               Some (-1, sig_set_error (''Failed to send handshake: '' @ show_int e) sig, io\<lparr>io_tx := txs\<rparr>)
           | Tx_Sent n # txs \<Rightarrow> do {
               let sent = take n (string_bytes request);
               (response, rx) \<leftarrow> ws_read_response [] (io_rx io);
               let io = io\<lparr>io_tx := txs, io_rx := rx, io_sent := io_sent io @ sent\<rparr>;
               expected \<leftarrow> sig_compute_accept_key sha1 client_key;
               (case ws_check_response expected response of
                  Inl msg \<Rightarrow> Some (-1, sig_set_error msg sig, io)
                | Inr _ \<Rightarrow> Some (0, sig, io))
             })
      })"

end
