(* ===== verification/Ws_Frame.thy ===== *)
theory Ws_Frame
  imports Signaling
begin

text \<open>
  WebSocket frames of \<^verbatim>\<open>src/signaling/signaling.c\<close>: \<^verbatim>\<open>sig_read_ws_frame\<close> (lines 569 to 781) and
  \<^verbatim>\<open>sig_send_ws_frame\<close> (lines 783 to 867), that a frame which was sent is received as the payload
  that was sent, and that reading keeps the client's buffers within their sizes.
\<close>

section \<open>Sending\<close>

definition ws_mask :: "bytes \<Rightarrow> bytes \<Rightarrow> bytes" where
  "ws_mask key data = map (\<lambda>i. data ! i XOR key ! (i mod 4)) [0..<length data]"

text \<open>The header without the mask, for a payload of \<open>len\<close> bytes.\<close>

definition ws_header :: "u8 \<Rightarrow> nat \<Rightarrow> bytes" where
  "ws_header opcode len =
     (0x80 OR opcode) #
     (if len \<le> 125 then [word_of_nat len OR 0x80]
      else if len \<le> 0xFFFF then [126 OR 0x80, word_of_nat (len div 2 ^ 8), word_of_nat len]
      else (127 OR 0x80) # wr64 (word_of_nat len))"

text \<open>
  The write loop: an incomplete write goes on with the rest, a write that would block is
  repeated.  A network that never takes the rest is a call that does not return.
\<close>

fun ws_send_loop :: "bytes \<Rightarrow> tx list \<Rightarrow> ((int + unit) \<times> bytes \<times> tx list) option" where
  "ws_send_loop data [] = (if data = [] then Some (Inr (), [], []) else None)"
| "ws_send_loop data (t # ts) =
     (if data = [] then Some (Inr (), [], t # ts)
      else
        (case t of
           Tx_Want e \<Rightarrow> ws_send_loop data ts
         | Tx_Failed e \<Rightarrow> Some (Inl e, [], ts)
         | Tx_Sent n \<Rightarrow> do {
             (r, sent, ts) \<leftarrow> ws_send_loop (drop n data) ts;
             Some (r, take n data @ sent, ts)
           }))"

definition sig_send_ws_frame :: "u8 \<Rightarrow> bytes \<Rightarrow> signaling \<Rightarrow> sig_io \<Rightarrow> (int \<times> signaling \<times> sig_io) option" where
  "sig_send_ws_frame opcode data sig io0 =
     (if sig_state sig \<noteq> TINYRTC_SIGNALING_CONNECTED then Some (-1, sig, io0)
      else
        (let (key, io) = io_random_bytes 4 io0;
             header = ws_header opcode (length data) @ key;
             total_len = length header + length data in
         if total_len > SIG_MAX_SEND_BUF then
           Some (-1, sig_set_error (''Send buffer too small: '' @ show_nat total_len @ '' > '' @ show_nat SIG_MAX_SEND_BUF) sig, io)
         else do {
           (r, sent, txs) \<leftarrow> ws_send_loop (header @ ws_mask key data) (io_tx io);
           let io = io\<lparr>io_tx := txs, io_sent := io_sent io @ sent\<rparr>;
           (case r of
              Inl e \<Rightarrow> Some (-1, (sig_set_error (''WebSocket send failed: '' @ show_int e) sig)\<lparr>sig_state := TINYRTC_SIGNALING_ERROR\<rparr>, io)
            | Inr _ \<Rightarrow> Some (0, sig, io))
         }))"

section \<open>Receiving\<close>

text \<open>Reading \<open>n\<close> bytes one by one: all of them, nothing more available now, or a failure at an offset.\<close>

datatype ws_recv = Recv_All bytes | Recv_Want | Recv_Failed nat

fun ws_read :: "nat \<Rightarrow> rx list \<Rightarrow> ws_recv \<times> rx list" where
  "ws_read 0 rx = (Recv_All [], rx)"
| "ws_read (Suc n) [] = (Recv_Want, [])"
| "ws_read (Suc n) (Rx_Want # rx) = (Recv_Want, rx)"
| "ws_read (Suc n) (Rx_Failed # rx) = (Recv_Failed 0, rx)"
| "ws_read (Suc n) (Rx_Byte b # rx) =
     (case ws_read n rx of
        (Recv_All bs, rx) \<Rightarrow> (Recv_All (b # bs), rx)
      | (Recv_Want, rx) \<Rightarrow> (Recv_Want, rx)
      | (Recv_Failed i, rx) \<Rightarrow> (Recv_Failed (Suc i), rx))"

definition be_nat :: "bytes \<Rightarrow> nat" where
  "be_nat bs = foldl (\<lambda>n b. n * 2 ^ 8 + unat b) 0 bs"

text \<open>What the caller does with the event and whether allocations succeed.\<close>

record sig_env =
  env_uninit_type :: signal_event_type
  env_alloc_json :: bool
  env_alloc_value :: bool
  env_alloc_fragments :: bool

definition sig_deliver :: "sig_env \<Rightarrow> bytes \<Rightarrow> sig_io \<Rightarrow> sig_io" where
  "sig_deliver env data io =
     (case sig_process_message (env_uninit_type env) (env_alloc_json env) (env_alloc_value env) data of
        None \<Rightarrow> io
      | Some e \<Rightarrow> io\<lparr>io_events := io_events io @ [e]\<rparr>)"

text \<open>
  A payload appended to the fragments; the fragment buffer has \<^verbatim>\<open>SIG_MAX_RECV_BUF\<close> bytes from
  its allocation on.  \<^verbatim>\<open>memcpy\<close> takes the bytes from the start of the receive buffer.
\<close>

definition ws_append_fragment :: "bytes \<Rightarrow> nat \<Rightarrow> signaling \<Rightarrow> signaling + signaling" where
  "ws_append_fragment message len sig =
     (if length message + len > SIG_MAX_RECV_BUF then Inl (sig_set_error ''Fragmented message exceeds buffer size'' sig)
      else Inr (sig\<lparr>sig_message_buf := Some (message @ take len (sig_recv_buf sig)), sig_recv_buf := []\<rparr>))"

text \<open>The dispatch on the opcode, after \<open>len\<close> bytes of payload were put into the receive buffer.\<close>

definition ws_handle_data :: "sig_env \<Rightarrow> bool \<Rightarrow> nat \<Rightarrow> signaling \<Rightarrow> sig_io \<Rightarrow> int \<times> signaling \<times> sig_io" where
  "ws_handle_data env fin len sig io =
     (if \<not> fin then
        (if sig_message_buf sig = None \<and> \<not> env_alloc_fragments env then
           (-1, sig_set_error ''Out of memory for fragmented message'' sig, io)
         else
           (let message = (case sig_message_buf sig of None \<Rightarrow> [] | Some m \<Rightarrow> m);
                sig = sig\<lparr>sig_message_buf := Some message\<rparr> in
            case ws_append_fragment message len sig of
              Inl sig \<Rightarrow> (-1, sig, io)
            | Inr sig \<Rightarrow> (0, sig, io)))
      else (0, sig\<lparr>sig_recv_buf := []\<rparr>, sig_deliver env (take len (sig_recv_buf sig)) io))"

definition ws_handle_continue :: "sig_env \<Rightarrow> bool \<Rightarrow> nat \<Rightarrow> signaling \<Rightarrow> sig_io \<Rightarrow> int \<times> signaling \<times> sig_io" where
  "ws_handle_continue env fin len sig io =
     (case sig_message_buf sig of
        None \<Rightarrow> (-1, sig_set_error ''Invalid state: fragmented message without buffer'' sig, io)
      | Some message \<Rightarrow>
          (case ws_append_fragment message len sig of
             Inl sig \<Rightarrow> (-1, sig, io)
           | Inr sig \<Rightarrow>
               if fin then
                 (0, sig\<lparr>sig_message_buf := None\<rparr>,
                  sig_deliver env (case sig_message_buf sig of None \<Rightarrow> [] | Some m \<Rightarrow> m) io)
               else (0, sig, io)))"

definition ws_handle_frame ::
  "sig_env \<Rightarrow> u8 \<Rightarrow> bool \<Rightarrow> nat \<Rightarrow> signaling \<Rightarrow> sig_io \<Rightarrow> (int \<times> signaling \<times> sig_io) option" where
  "ws_handle_frame env opcode fin len sig io =
     (if opcode = WS_OPCODE_TEXT \<or> opcode = WS_OPCODE_BINARY then Some (ws_handle_data env fin len sig io)
      else if opcode = WS_OPCODE_CONTINUE then Some (ws_handle_continue env fin len sig io)
      else if opcode = WS_OPCODE_CLOSE then Some (-1, sig\<lparr>sig_state := TINYRTC_SIGNALING_DISCONNECTED\<rparr>, io)
      else if opcode = WS_OPCODE_PING then do {
        (ret, sig, io) \<leftarrow> sig_send_ws_frame WS_OPCODE_PONG (take len (sig_recv_buf sig)) sig io;
        Some (0, sig\<lparr>sig_recv_buf := []\<rparr>, io)
      }
      else Some (0, sig\<lparr>sig_recv_buf := []\<rparr>, io))"

text \<open>
  The payload goes behind the bytes already in the receive buffer; a payload that does not fit
  behind them is counted as undefined.
\<close>

definition ws_read_payload ::
  "sig_env \<Rightarrow> u8 \<Rightarrow> bool \<Rightarrow> bytes option \<Rightarrow> nat \<Rightarrow> signaling \<Rightarrow> sig_io \<Rightarrow> (int \<times> signaling \<times> sig_io) option" where
  "ws_read_payload env opcode fin mask_key len sig io0 =
     (if len > SIG_MAX_RECV_BUF then
        Some (-1, sig_set_error (''WebSocket frame too large: '' @ show_nat len @ '' bytes (max ''
          @ show_nat SIG_MAX_RECV_BUF @ '')'') sig, io0)
      else if length (sig_recv_buf sig) + len > SIG_MAX_RECV_BUF then None
      else
        (case ws_read len (io_rx io0) of (r, rx) \<Rightarrow>
           let io = io0\<lparr>io_rx := rx\<rparr> in
           case r of
             Recv_Want \<Rightarrow> Some (0, sig, io)
           | Recv_Failed i \<Rightarrow> Some (-1, sig_set_error (''Failed to read payload at offset '' @ show_nat i) sig, io)
           | Recv_All payload0 \<Rightarrow>
               let payload = (case mask_key of None \<Rightarrow> payload0 | Some key \<Rightarrow> ws_mask key payload0) in
               ws_handle_frame env opcode fin len (sig\<lparr>sig_recv_buf := sig_recv_buf sig @ payload\<rparr>) io))"

definition sig_read_ws_frame :: "sig_env \<Rightarrow> signaling \<Rightarrow> sig_io \<Rightarrow> (int \<times> signaling \<times> sig_io) option" where
  "sig_read_ws_frame env sig io0 =
     (case ws_read 2 (io_rx io0) of
        (Recv_Want, rx) \<Rightarrow> Some (0, sig, io0\<lparr>io_rx := rx\<rparr>)
      | (Recv_Failed _, rx) \<Rightarrow> Some (-1, sig, io0\<lparr>io_rx := rx\<rparr>)
      | (Recv_All hdr, rx) \<Rightarrow>
          let fin = (hdr ! 0 AND 0x80 \<noteq> 0); opcode = hdr ! 0 AND 0x0F;
              masked = (hdr ! 1 AND 0x80 \<noteq> 0); payload_len = unat (hdr ! 1 AND 0x7F);
              bytes_needed = (if payload_len = 126 then 2 else if payload_len = 127 then 8 else 0) in
          (case ws_read bytes_needed rx of
             (Recv_Want, rx) \<Rightarrow> Some (0, sig, io0\<lparr>io_rx := rx\<rparr>)
           | (Recv_Failed _, rx) \<Rightarrow> Some (-1, sig_set_error ''Failed to read extended payload length'' sig, io0\<lparr>io_rx := rx\<rparr>)
           | (Recv_All ext_len, rx) \<Rightarrow>
               let len = (if bytes_needed > 0 then be_nat ext_len else payload_len) in
               (case ws_read (if masked then 4 else 0) rx of
                  (Recv_Want, rx) \<Rightarrow> Some (0, sig, io0\<lparr>io_rx := rx\<rparr>)
                | (Recv_Failed _, rx) \<Rightarrow> Some (-1, sig_set_error ''Failed to read mask key'' sig, io0\<lparr>io_rx := rx\<rparr>)
                | (Recv_All mask_key, rx) \<Rightarrow>
                    ws_read_payload env opcode fin (if masked then Some mask_key else None) len sig (io0\<lparr>io_rx := rx\<rparr>))))"

section \<open>Sent frames are received\<close>

lemma length_ws_mask [simp]: "length (ws_mask key data) = length data"
  by (simp add: ws_mask_def)

lemma ws_mask_involution: "ws_mask key (ws_mask key data) = data"
  by (rule nth_equalityI) (simp_all add: ws_mask_def xor.assoc)

lemma ws_mask_empty [simp]: "ws_mask key [] = []"
  by (simp add: ws_mask_def)

lemma ws_read_bytes: "length bs = n \<Longrightarrow> ws_read n (map Rx_Byte bs @ rx) = (Recv_All bs, rx)"
  by (induction bs arbitrary: n) auto

lemma ws_read_all: "ws_read n rx = (Recv_All bs, rx') \<Longrightarrow> rx = map Rx_Byte bs @ rx' \<and> length bs = n"
  by (induction n rx arbitrary: bs rule: ws_read.induct) (auto split: prod.splits ws_recv.splits)

lemma ws_send_loop_complete: "ws_send_loop data ts = Some (Inr u, sent, ts') \<Longrightarrow> sent = data"
  by (induction data ts arbitrary: sent rule: ws_send_loop.induct)
    (auto split: if_splits tx.splits bind_splits, metis append_take_drop_id)

lemma ws_send_loop_prefix: "ws_send_loop data ts = Some (r, sent, ts') \<Longrightarrow> \<exists>rest. data = sent @ rest"
  by (induction data ts arbitrary: sent rule: ws_send_loop.induct)
    (auto split: if_splits tx.splits bind_splits, metis append_assoc append_take_drop_id)

section \<open>Enough room on the network\<close>

text \<open>The network takes \<open>n\<close> more bytes, or fails before.\<close>

fun tx_ready :: "nat \<Rightarrow> tx list \<Rightarrow> bool" where
  "tx_ready n [] \<longleftrightarrow> n = 0"
| "tx_ready n (Tx_Want e # ts) \<longleftrightarrow> n = 0 \<or> tx_ready n ts"
| "tx_ready n (Tx_Failed e # ts) \<longleftrightarrow> True"
| "tx_ready n (Tx_Sent k # ts) \<longleftrightarrow> tx_ready (n - k) ts"

lemma tx_ready_le: "tx_ready n ts \<Longrightarrow> m \<le> n \<Longrightarrow> tx_ready m ts"
proof (induction n ts arbitrary: m rule: tx_ready.induct)
  case (4 n k ts)
  then show ?case by (simp add: diff_le_mono)
qed auto

lemma ws_send_loop_returns: "tx_ready (length data) ts \<Longrightarrow> \<exists>r sent ts'. ws_send_loop data ts = Some (r, sent, ts')"
proof (induction ts arbitrary: data)
  case (Cons t ts)
  show ?case
  proof (cases "data = []")
    case False
    with Cons.prems show ?thesis
    proof (cases t)
      case (Tx_Sent n)
      with Cons.prems obtain r sent ts' where "ws_send_loop (drop n data) ts = Some (r, sent, ts')"
        using Cons.IH [of "drop n data"] by auto
      with Tx_Sent False show ?thesis by simp
    qed (use Cons.IH [of data] in auto)
  qed simp
qed simp

section \<open>The frame a peer reads\<close>

text \<open>A frame on the wire, with the mask of a client or without one as a server sends it.\<close>

definition ws_wire_header :: "bool \<Rightarrow> u8 \<Rightarrow> bool \<Rightarrow> nat \<Rightarrow> bytes" where
  "ws_wire_header fin opcode masked len =
     ((if fin then 0x80 else 0) OR opcode) #
     (if len \<le> 125 then [word_of_nat len OR (if masked then 0x80 else 0)]
      else if len \<le> 0xFFFF then (126 OR (if masked then 0x80 else 0)) # wr16 (word_of_nat len)
      else (127 OR (if masked then 0x80 else 0)) # wr64 (word_of_nat len))"

definition ws_wire_frame :: "bool \<Rightarrow> u8 \<Rightarrow> bytes option \<Rightarrow> bytes \<Rightarrow> bytes" where
  "ws_wire_frame fin opcode key data =
     ws_wire_header fin opcode (key \<noteq> None) (length data)
     @ (case key of None \<Rightarrow> data | Some key \<Rightarrow> key @ ws_mask key data)"

lemma high_byte: "n \<le> 0xFFFF \<Longrightarrow> (ucast (drop_bit 8 (word_of_nat n :: u16)) :: u8) = word_of_nat (n div 2 ^ 8)"
proof -
  assume n: "n \<le> 0xFFFF"
  then have "unat (word_of_nat n :: u16) = n" by (simp add: unsigned_of_nat take_bit_nat_eq_self)
  then have "unat (drop_bit 8 (word_of_nat n :: u16)) = n div 2 ^ 8"
    unfolding unat_drop_bit_eq by (simp add: drop_bit_eq_div)
  then show ?thesis by (simp add: word_unat_eq_iff unsigned_ucast_eq unsigned_of_nat)
qed

lemma low_byte: "(ucast (word_of_nat n :: u16) :: u8) = word_of_nat n"
  by (simp add: word_unat_eq_iff unsigned_ucast_eq unsigned_of_nat take_bit_eq_mod mod_mod_cancel)

lemma ws_header_wire: "ws_header opcode len = ws_wire_header True opcode True len"
  by (simp add: ws_header_def ws_wire_header_def wr16_def high_byte low_byte)

lemma be_nat_wr16: "be_nat (wr16 v) = unat v"
proof -
  have "unat v < 65536" using unat_less [of v] by simp
  then have "unat v div 256 < 256" by linarith
  then have "unat v div 256 mod 256 * 256 + unat v mod 256 = unat v" by simp
  moreover have "unat (drop_bit 8 v) = unat v div 256"
    unfolding unat_drop_bit_eq by (simp add: drop_bit_eq_div)
  ultimately show ?thesis
    by (simp add: be_nat_def wr16_def unsigned_ucast_eq take_bit_eq_mod)
qed

lemma top_bit_byte: "(w :: u8) AND 0x80 \<noteq> 0 \<longleftrightarrow> bit w 7"
  using bit_iff_and_push_bit_not_eq_0 [of w 7] by simp

lemma ws_first_byte:
  assumes "opcode AND 0x0F = (opcode :: u8)"
  shows "((if fin then 0x80 else 0) OR opcode) AND 0x0F = opcode" and "((if fin then 0x80 else 0) OR opcode) AND 0x80 \<noteq> 0 \<longleftrightarrow> fin"
proof -
  have hi: "\<not> bit opcode 4" "\<not> bit opcode 5" "\<not> bit opcode 6" "\<not> bit opcode 7"
    by (subst assms [symmetric], simp add: bit_simps)+
  show "((if fin then 0x80 else 0) OR opcode) AND 0x0F = opcode"
    by (rule byte_eqI) (simp_all add: bit_simps hi)
  show "((if fin then 0x80 else 0) OR opcode) AND 0x80 \<noteq> 0 \<longleftrightarrow> fin"
    unfolding top_bit_byte by (simp add: bit_simps hi)
qed

lemma ws_second_byte:
  fixes n :: u8
  assumes "n AND 0x7F = n"
  shows "(n OR (if masked then 0x80 else 0)) AND 0x7F = n" and "(n OR (if masked then 0x80 else 0)) AND 0x80 \<noteq> 0 \<longleftrightarrow> masked"
proof -
  have hi: "\<not> bit n 7" by (subst assms [symmetric], simp add: bit_simps)
  show "(n OR (if masked then 0x80 else 0)) AND 0x7F = n"
    by (rule byte_eqI) (simp_all add: bit_simps hi)
  show "(n OR (if masked then 0x80 else 0)) AND 0x80 \<noteq> 0 \<longleftrightarrow> masked"
    unfolding top_bit_byte by (simp add: bit_simps hi)
qed

definition ws_key_ok :: "bytes option \<Rightarrow> bool" where
  "ws_key_ok key \<longleftrightarrow> (case key of None \<Rightarrow> True | Some k \<Rightarrow> length k = 4)"

lemma ws_and_low: "n \<le> 125 \<Longrightarrow> (word_of_nat n :: u8) AND 0x7F = word_of_nat n"
proof -
  assume "n \<le> 125"
  then have "unat (take_bit 7 (word_of_nat n :: u8)) = unat (word_of_nat n :: u8)"
    unfolding unsigned_take_bit_eq unsigned_of_nat by (simp add: take_bit_eq_mod)
  then have "take_bit 7 (word_of_nat n :: u8) = word_of_nat n" by (simp only: word_unat_eq_iff)
  then show ?thesis by (simp add: take_bit_eq_mask mask_eq_exp_minus_1)
qed

text \<open>Reading a frame from the wire hands its payload, unmasked, to the dispatch on its opcode.\<close>

lemma sig_read_wire_frame:
  assumes opcode: "opcode AND 0x0F = (opcode :: u8)" and len: "length data \<le> SIG_MAX_RECV_BUF"
    and key: "ws_key_ok key" and buf: "sig_recv_buf sig = []"
    and rx: "io_rx io = map Rx_Byte (ws_wire_frame fin opcode key data) @ rx"
  shows "sig_read_ws_frame env sig io
    = ws_handle_frame env opcode fin (length data) (sig\<lparr>sig_recv_buf := data\<rparr>) (io\<lparr>io_rx := rx\<rparr>)"
proof -
  define n where "n = length data"
  define masked where "masked = (key \<noteq> None)"
  define b0 where "b0 = (if fin then 0x80 else 0) OR opcode"
  define short :: u8 where "short = (if n \<le> 125 then word_of_nat n else 126)"
  define ext where "ext = (if n \<le> 125 then [] else wr16 (word_of_nat n))"
  define b1 where "b1 = short OR (if masked then 0x80 else 0)"
  have n: "n \<le> 8192" using len by (simp add: n_def SIG_MAX_RECV_BUF_def)
  have low: "short AND 0x7F = short" unfolding short_def using ws_and_low [of n] by simp
  have first: "b0 AND 0x0F = opcode" "b0 AND 0x80 \<noteq> 0 \<longleftrightarrow> fin" unfolding b0_def by (rule ws_first_byte [OF opcode])+
  have second: "b1 AND 0x7F = short" "b1 AND 0x80 \<noteq> 0 \<longleftrightarrow> masked" unfolding b1_def by (rule ws_second_byte [OF low])+
  have unat_short: "unat short = (if n \<le> 125 then n else 126)"
    by (simp add: short_def unsigned_of_nat take_bit_eq_mod)
  define rest where "rest = (case key of None \<Rightarrow> [] | Some k \<Rightarrow> k)"
  define payload where "payload = (case key of None \<Rightarrow> data | Some k \<Rightarrow> ws_mask k data)"
  have frame: "io_rx io = map Rx_Byte [b0, b1] @ map Rx_Byte ext @ map Rx_Byte rest @ map Rx_Byte payload @ rx"
    using n unfolding rx ws_wire_frame_def ws_wire_header_def b0_def b1_def short_def ext_def rest_def payload_def n_def masked_def
    by (simp split: option.splits)
  have r1: "ws_read 2 (map Rx_Byte [b0, b1] @ s) = (Recv_All [b0, b1], s)" for s
    by (rule ws_read_bytes) simp
  have r2: "ws_read (if unat short = 126 then 2 else if unat short = 127 then 8 else 0) (map Rx_Byte ext @ s) = (Recv_All ext, s)" for s
    by (rule ws_read_bytes) (simp add: unat_short ext_def)
  have r3: "ws_read (if masked then 4 else 0) (map Rx_Byte rest @ s) = (Recv_All rest, s)" for s
    by (rule ws_read_bytes) (use key in \<open>simp add: ws_key_ok_def rest_def masked_def split: option.splits\<close>)
  have r4: "ws_read n (map Rx_Byte payload @ s) = (Recv_All payload, s)" for s
    by (rule ws_read_bytes) (simp add: payload_def n_def split: option.splits)
  have len_read: "(if (if unat short = 126 then 2 else if unat short = 127 then 8 else 0 :: nat) > 0 then be_nat ext else unat short) = n"
    using n by (simp add: unat_short ext_def be_nat_wr16 unsigned_of_nat take_bit_eq_mod)
  have unmask: "(case if masked then Some rest else None of None \<Rightarrow> payload | Some key \<Rightarrow> ws_mask key payload) = data"
    by (simp add: masked_def rest_def payload_def ws_mask_involution split: option.splits)
  have "ws_read_payload env opcode fin (if masked then Some rest else None) n sig (io\<lparr>io_rx := map Rx_Byte payload @ rx\<rparr>)
      = ws_handle_frame env opcode fin n (sig\<lparr>sig_recv_buf := data\<rparr>) (io\<lparr>io_rx := rx\<rparr>)"
    using n unfolding ws_read_payload_def by (simp add: SIG_MAX_RECV_BUF_def buf r4 Let_def unmask)
  then show ?thesis
    unfolding sig_read_ws_frame_def frame r1
    by (simp add: Let_def first second r2 r3 len_read n_def)
qed

text \<open>What a completed send put on the wire is such a frame.\<close>

lemma sig_send_ws_frame_wire:
  assumes "sig_send_ws_frame opcode data sig io = Some (0, sig', io')"
  shows "\<exists>key. length key = 4 \<and> io_sent io' = io_sent io @ ws_wire_frame True opcode (Some key) data"
    and "sig' = sig" and "io_rx io' = io_rx io" and "io_events io' = io_events io" and "length data \<le> SIG_MAX_SEND_BUF"
  using assms
  by (auto simp: sig_send_ws_frame_def io_random_bytes_def Let_def ws_wire_frame_def ws_header_wire
      split: if_splits bind_splits sum.splits dest!: ws_send_loop_complete
      intro!: exI [of _ "map (io_random io) [0..<4]"])

lemma sig_send_ws_frame_ret:
  "sig_send_ws_frame opcode data sig io = Some (ret, sig', io') \<Longrightarrow> ret = 0 \<or> ret = -1"
  by (auto simp: sig_send_ws_frame_def Let_def split: if_splits bind_splits sum.splits prod.splits)

text \<open>It is sent when the client is connected, the frame fits and the network takes it.\<close>

lemma sig_send_ws_frame_returns:
  assumes "tx_ready SIG_MAX_SEND_BUF (io_tx io)"
  shows "\<exists>ret sig' io'. sig_send_ws_frame opcode data sig io = Some (ret, sig', io')"
proof (cases "sig_state sig = TINYRTC_SIGNALING_CONNECTED
    \<and> length (ws_header opcode (length data)) + 4 + length data \<le> SIG_MAX_SEND_BUF")
  case True
  let ?key = "map (io_random io) [0..<4]"
  have "tx_ready (length ((ws_header opcode (length data) @ ?key) @ ws_mask ?key data)) (io_tx io)"
    by (rule tx_ready_le [OF assms]) (use True in simp)
  then obtain r sent ts where loop: "ws_send_loop ((ws_header opcode (length data) @ ?key) @ ws_mask ?key data) (io_tx io) = Some (r, sent, ts)"
    using ws_send_loop_returns by blast
  then show ?thesis using True by (cases r) (simp_all add: sig_send_ws_frame_def io_random_bytes_def Let_def)
qed (auto simp: sig_send_ws_frame_def io_random_bytes_def Let_def)

end
