(* ===== verification/Sig_Client.thy ===== *)
theory Sig_Client
  imports Ws_Frame
begin

text \<open>
  The public operations of \<^verbatim>\<open>src/signaling/signaling.c\<close>: creation with TLS set-up, handshake and join
  message, sending of offers, answers and candidates, polling, disconnecting and destruction.
\<close>

section \<open>Creation\<close>

text \<open>
  What the TLS library and the operating system answer: the seed of the random generator, each
  certificate file, the connection to a host and port, the configuration and set-up of TLS, and
  the results of the repeated handshake calls, given whether certificates must verify; a call
  that would block is \<open>None\<close>.
\<close>

record tls_env =
  te_seed :: int
  te_ca_files :: "int list"
  te_connect :: "string \<Rightarrow> u16 \<Rightarrow> int"
  te_config_defaults :: int
  te_ssl_setup :: int
  te_handshake :: "bool \<Rightarrow> string \<Rightarrow> int option list"

record signaling_config =
  scfg_url :: "string option"
  scfg_room_id :: "string option"
  scfg_client_id :: "string option"
  scfg_auto_connect :: bool
  scfg_disable_cert_verify :: bool

text \<open>The first component is the result, the second whether the peer's certificate must verify.\<close>

definition sig_configure_tls_client :: "int \<Rightarrow> bool \<Rightarrow> bool \<Rightarrow> int \<times> bool" where
  "sig_configure_tls_client config_defaults ca_loaded verify_disabled =
     (if config_defaults \<noteq> 0 then (config_defaults, False) else (0, ca_loaded \<and> \<not> verify_disabled))"

fun tls_handshake_loop :: "int option list \<Rightarrow> int option" where
  "tls_handshake_loop [] = None"
| "tls_handshake_loop (None # rs) = tls_handshake_loop rs"
| "tls_handshake_loop (Some r # rs) = Some r"

text \<open>Whether the connection is up for the WebSocket handshake; \<open>None\<close> is a call that does not return.\<close>

definition sig_open_connection :: "tls_env \<Rightarrow> string \<Rightarrow> u16 \<Rightarrow> bool \<Rightarrow> bool \<Rightarrow> bool option" where
  "sig_open_connection env host port is_wss verify_disabled =
     (let ca_loaded = (\<not> verify_disabled \<and> (\<exists>r \<in> set (te_ca_files env). r = 0)) in
      if te_connect env host port \<noteq> 0 then Some False
      else if \<not> is_wss then Some True
      else
        (case sig_configure_tls_client (te_config_defaults env) ca_loaded verify_disabled of (ret, required) \<Rightarrow>
           if ret \<noteq> 0 \<or> te_ssl_setup env \<noteq> 0 then Some False
           else map_option (\<lambda>r. r = 0) (tls_handshake_loop (te_handshake env required host))))"

definition sig_join_json :: "string \<Rightarrow> string" where
  "sig_join_json room_id =
     [CHR ''{'', c_quote] @ ''type'' @ [c_quote, CHR '':'', CHR '' '', c_quote] @ ''join'' @ [c_quote, CHR '','', CHR '' '', c_quote]
     @ ''room'' @ [c_quote, CHR '':'', CHR '' '', c_quote] @ room_id @ [c_quote, CHR ''}'']"

definition sig_initial :: "signaling_config \<Rightarrow> signaling" where
  "sig_initial config =
     \<lparr>sig_server_url = take 255 (or_null [] (scfg_url config)), sig_room_id = take 127 (or_null [] (scfg_room_id config)),
      sig_client_id = [], sig_auto_connect = scfg_auto_connect config, sig_is_wss = False,
      sig_disable_cert_verify = scfg_disable_cert_verify config, sig_state = TINYRTC_SIGNALING_DISCONNECTED,
      sig_last_error = [], sig_recv_buf = [], sig_message_buf = None\<rparr>"

text \<open>After the connection is up: handshake and join message.\<close>

definition sig_join ::
  "(bytes \<Rightarrow> bytes) \<Rightarrow> string \<Rightarrow> signaling \<Rightarrow> sig_io \<Rightarrow> (signaling option \<times> sig_io) option" where
  "sig_join sha1 host sig0 io0 = do {
     (ret, sig, io) \<leftarrow> sig_perform_websocket_handshake sha1 host ''/'' (sig0\<lparr>sig_state := TINYRTC_SIGNALING_CONNECTING\<rparr>) io0;
     if ret \<noteq> 0 then Some (None, io)
     else do {
       (ret, sig, io) \<leftarrow> sig_send_ws_frame WS_OPCODE_TEXT (string_bytes (sig_join_json (sig_room_id sig)))
         (sig\<lparr>sig_state := TINYRTC_SIGNALING_CONNECTED\<rparr>) io;
       Some (if ret \<noteq> 0 then None else Some sig, io)
     }
   }"

text \<open>
  The client or NULL; what an error path writes into the client is freed with it.  \<open>callback\<close> and
  \<open>ctx\<close> say that these pointers are not NULL.
\<close>

definition tinyrtc_signaling_create ::
  "(bytes \<Rightarrow> bytes) \<Rightarrow> tls_env \<Rightarrow> bool \<Rightarrow> bool \<Rightarrow> signaling_config option \<Rightarrow> bool \<Rightarrow> sig_io
     \<Rightarrow> (signaling option \<times> sig_io) option" where
  "tinyrtc_signaling_create sha1 env alloc_ok ctx config0 callback io0 =
     (case config0 of
        None \<Rightarrow> Some (None, io0)
      | Some config \<Rightarrow>
          if \<not> ctx \<or> \<not> callback \<or> \<not> alloc_ok \<or> te_seed env \<noteq> 0 then Some (None, io0)
          else
            (let sig0 = sig_initial config;
                 (client_id, io) = (case scfg_client_id config of
                    Some i \<Rightarrow> (take 63 i, io0) | None \<Rightarrow> sig_generate_client_id 64 io0) in
             case sig_parse_url (sig_server_url sig0) 128 of
               None \<Rightarrow> Some (None, io)
             | Some (host, port, is_wss) \<Rightarrow> do {
                 up \<leftarrow> sig_open_connection env host port is_wss (sig_disable_cert_verify sig0);
                 if \<not> up then Some (None, io)
                 else sig_join sha1 host (sig0\<lparr>sig_client_id := client_id, sig_is_wss := is_wss\<rparr>) io
               }))"

section \<open>Destruction, connection and state\<close>

definition tinyrtc_signaling_destroy :: "signaling option \<Rightarrow> sig_io \<Rightarrow> sig_io option" where
  "tinyrtc_signaling_destroy sig0 io =
     (case sig0 of
        None \<Rightarrow> Some io
      | Some sig \<Rightarrow>
          if sig_state sig = TINYRTC_SIGNALING_CONNECTED
          then map_option (\<lambda>(ret, sig, io). io) (sig_send_ws_frame WS_OPCODE_CLOSE [] sig io)
          else Some io)"

definition tinyrtc_signaling_connect :: "signaling option \<Rightarrow> tinyrtc_error" where
  "tinyrtc_signaling_connect sig = (if sig = None then TINYRTC_ERROR_INVALID_ARG else TINYRTC_OK)"

definition tinyrtc_signaling_disconnect :: "signaling option \<Rightarrow> signaling option" where
  "tinyrtc_signaling_disconnect = map_option (sig_state_update (\<lambda>_. TINYRTC_SIGNALING_DISCONNECTED))"

definition tinyrtc_signaling_get_state :: "signaling option \<Rightarrow> signaling_state" where
  "tinyrtc_signaling_get_state sig =
     (case sig of None \<Rightarrow> TINYRTC_SIGNALING_DISCONNECTED | Some s \<Rightarrow> sig_state s)"

section \<open>Sending\<close>

text \<open>A message of less than \<open>cap\<close> bytes goes out as a text frame.\<close>

definition sig_send_json :: "nat \<Rightarrow> string \<Rightarrow> signaling \<Rightarrow> sig_io \<Rightarrow> (tinyrtc_error \<times> signaling \<times> sig_io) option" where
  "sig_send_json cap json sig io =
     (if length json \<ge> cap then Some (TINYRTC_ERROR_MEMORY, sig, io)
      else do {
        (ret, sig, io) \<leftarrow> sig_send_ws_frame WS_OPCODE_TEXT (string_bytes json) sig io;
        Some (if ret = 0 then TINYRTC_OK else TINYRTC_ERROR_NETWORK, sig, io)
      })"

definition sig_send_sdp ::
  "string \<Rightarrow> signaling option \<Rightarrow> string option \<Rightarrow> sig_io \<Rightarrow> (tinyrtc_error \<times> signaling option \<times> sig_io) option" where
  "sig_send_sdp kind sig0 sdp0 io =
     (case (sig0, sdp0) of
        (Some sig, Some sdp) \<Rightarrow>
          if sig_state sig \<noteq> TINYRTC_SIGNALING_CONNECTED then Some (TINYRTC_ERROR_INVALID_ARG, sig0, io)
          else map_option (\<lambda>(e, sig, io). (e, Some sig, io))
                 (sig_send_json 8192 (sig_sdp_json kind (sig_json_escape sdp 4096)) sig io)
      | _ \<Rightarrow> Some (TINYRTC_ERROR_INVALID_ARG, sig0, io))"

definition tinyrtc_signaling_send_offer ::
  "signaling option \<Rightarrow> string option \<Rightarrow> sig_io \<Rightarrow> (tinyrtc_error \<times> signaling option \<times> sig_io) option" where
  "tinyrtc_signaling_send_offer = sig_send_sdp ''offer''"

definition tinyrtc_signaling_send_answer ::
  "signaling option \<Rightarrow> string option \<Rightarrow> sig_io \<Rightarrow> (tinyrtc_error \<times> signaling option \<times> sig_io) option" where
  "tinyrtc_signaling_send_answer = sig_send_sdp ''answer''"

definition tinyrtc_signaling_send_candidate ::
  "signaling option \<Rightarrow> candidate_fields option \<Rightarrow> sig_io \<Rightarrow> (tinyrtc_error \<times> signaling option \<times> sig_io) option" where
  "tinyrtc_signaling_send_candidate sig0 candidate0 io =
     (case (sig0, candidate0) of
        (Some sig, Some c) \<Rightarrow>
          if sig_state sig \<noteq> TINYRTC_SIGNALING_CONNECTED then Some (TINYRTC_ERROR_INVALID_ARG, sig0, io)
          else map_option (\<lambda>(e, sig, io). (e, Some sig, io))
                 (sig_send_json 2048
                    (sig_candidate_json (cf_foundation c) (cf_protocol c) (cf_priority c) (cf_ip c) (cf_port c) (cf_type c)) sig io)
      | _ \<Rightarrow> Some (TINYRTC_ERROR_INVALID_ARG, sig0, io))"

section \<open>Polling\<close>

text \<open>The loop of \<^verbatim>\<open>tinyrtc_signaling_process\<close>; not returning is \<open>None\<close>.\<close>

partial_function (option) sig_process_loop ::
  "sig_env \<Rightarrow> int \<Rightarrow> signaling \<Rightarrow> sig_io \<Rightarrow> (int \<times> signaling \<times> sig_io) option" where
  "sig_process_loop env events_processed sig io = do {
     (ret, sig, io) \<leftarrow> sig_read_ws_frame env sig io;
     if ret < 0 then Some (events_processed, sig\<lparr>sig_state := TINYRTC_SIGNALING_DISCONNECTED\<rparr>, io)
     else if ret = 0 then Some (events_processed, sig, io)
     else sig_process_loop env (events_processed + 1) sig io
   }"

definition tinyrtc_signaling_process ::
  "sig_env \<Rightarrow> signaling option \<Rightarrow> sig_io \<Rightarrow> (int \<times> signaling option \<times> sig_io) option" where
  "tinyrtc_signaling_process env sig0 io =
     (case sig0 of
        None \<Rightarrow> Some (0, None, io)
      | Some sig \<Rightarrow>
          if sig_state sig \<noteq> TINYRTC_SIGNALING_CONNECTED then Some (0, sig0, io)
          else map_option (\<lambda>(n, sig, io). (n, Some sig, io)) (sig_process_loop env 0 sig io))"

section \<open>Invariant\<close>

text \<open>A connected client has consumed its receive buffer; fragments and error text fit their buffers.\<close>

definition sig_ok :: "signaling \<Rightarrow> bool" where
  "sig_ok sig \<longleftrightarrow>
     (sig_state sig = TINYRTC_SIGNALING_CONNECTED \<longrightarrow> sig_recv_buf sig = []) \<and>
     length (sig_recv_buf sig) \<le> SIG_MAX_RECV_BUF \<and>
     (case sig_message_buf sig of None \<Rightarrow> True | Some m \<Rightarrow> length m \<le> SIG_MAX_RECV_BUF) \<and>
     length (sig_last_error sig) \<le> 254"

definition sig_buffers_ok :: "signaling \<Rightarrow> bool" where
  "sig_buffers_ok sig \<longleftrightarrow>
     length (sig_recv_buf sig) \<le> SIG_MAX_RECV_BUF \<and>
     (case sig_message_buf sig of None \<Rightarrow> True | Some m \<Rightarrow> length m \<le> SIG_MAX_RECV_BUF) \<and>
     length (sig_last_error sig) \<le> 254"

lemma sig_ok_iff:
  "sig_ok sig \<longleftrightarrow> (sig_state sig = TINYRTC_SIGNALING_CONNECTED \<longrightarrow> sig_recv_buf sig = []) \<and> sig_buffers_ok sig"
  by (simp add: sig_ok_def sig_buffers_ok_def)

lemma sig_buffers_ok_updates [simp]:
  "sig_buffers_ok (sig\<lparr>sig_state := st\<rparr>) = sig_buffers_ok sig"
  "sig_buffers_ok sig \<Longrightarrow> sig_buffers_ok (sig_set_error e sig)"
  "sig_buffers_ok sig \<Longrightarrow> sig_buffers_ok (sig\<lparr>sig_recv_buf := []\<rparr>)"
  "sig_buffers_ok sig \<Longrightarrow> sig_buffers_ok (sig\<lparr>sig_message_buf := None\<rparr>)"
  "sig_buffers_ok sig \<Longrightarrow> length m \<le> SIG_MAX_RECV_BUF \<Longrightarrow> sig_buffers_ok (sig\<lparr>sig_message_buf := Some m\<rparr>)"
  "sig_buffers_ok sig \<Longrightarrow> length b \<le> SIG_MAX_RECV_BUF \<Longrightarrow> sig_buffers_ok (sig\<lparr>sig_recv_buf := b\<rparr>)"
  by (simp_all add: sig_buffers_ok_def sig_set_error_def)

lemma sig_set_error_simps [simp]:
  "sig_recv_buf (sig_set_error e sig) = sig_recv_buf sig" "sig_state (sig_set_error e sig) = sig_state sig"
  "sig_message_buf (sig_set_error e sig) = sig_message_buf sig"
  by (simp_all add: sig_set_error_def)

lemma sig_send_ws_frame_ok:
  assumes "sig_send_ws_frame opcode data sig io = Some (ret, sig', io')"
  shows "sig_buffers_ok sig \<Longrightarrow> sig_buffers_ok sig'" and "sig_recv_buf sig' = sig_recv_buf sig"
    and "sig_state sig' = sig_state sig \<or> sig_state sig' = TINYRTC_SIGNALING_ERROR"
  using assms by (auto simp: sig_send_ws_frame_def Let_def split: if_splits bind_splits sum.splits prod.splits)

text \<open>The outcome of a read: 0 or -1, and after 0 an empty receive buffer.\<close>

definition sig_read_result :: "int \<times> signaling \<times> sig_io \<Rightarrow> bool" where
  "sig_read_result r = (case r of (ret, sig, io) \<Rightarrow>
     (ret = 0 \<and> sig_recv_buf sig = [] \<or> ret = -1) \<and> sig_buffers_ok sig)"

lemma sig_read_result_simps [simp]:
  "sig_read_result (ret, sig, io) \<longleftrightarrow> (ret = 0 \<and> sig_recv_buf sig = [] \<or> ret = -1) \<and> sig_buffers_ok sig"
  by (simp add: sig_read_result_def)

text \<open>The read is defined, returns and has such an outcome.\<close>

definition sig_read_ok :: "(int \<times> signaling \<times> sig_io) option \<Rightarrow> bool" where
  "sig_read_ok x \<longleftrightarrow> (case x of None \<Rightarrow> False | Some r \<Rightarrow> sig_read_result r)"

lemma sig_read_ok_Some [simp]: "sig_read_ok (Some r) = sig_read_result r"
  by (simp add: sig_read_ok_def)

lemma ws_append_fragment_ok:
  assumes "length message \<le> SIG_MAX_RECV_BUF" and "sig_buffers_ok sig"
  shows "case ws_append_fragment message len sig of Inl s \<Rightarrow> sig_buffers_ok s | Inr s \<Rightarrow> sig_buffers_ok s \<and> sig_recv_buf s = []"
  using assms by (auto simp: ws_append_fragment_def)

lemma sig_message_len: "sig_buffers_ok sig \<Longrightarrow> sig_message_buf sig = Some m \<Longrightarrow> length m \<le> SIG_MAX_RECV_BUF"
  by (simp add: sig_buffers_ok_def)

lemma ws_handle_data_ok: "sig_buffers_ok sig \<Longrightarrow> sig_read_result (ws_handle_data env fin len sig io)"
  using ws_append_fragment_ok [of "case sig_message_buf sig of None \<Rightarrow> [] | Some m \<Rightarrow> m"
      "sig\<lparr>sig_message_buf := Some (case sig_message_buf sig of None \<Rightarrow> [] | Some m \<Rightarrow> m)\<rparr>" len]
  by (auto simp: ws_handle_data_def Let_def sig_message_len split: option.splits sum.splits)

lemma ws_handle_continue_ok: "sig_buffers_ok sig \<Longrightarrow> sig_read_result (ws_handle_continue env fin len sig io)"
proof (cases "sig_message_buf sig")
  case (Some m)
  assume ok: "sig_buffers_ok sig"
  from ws_append_fragment_ok [OF sig_message_len [OF ok Some] ok, of len] Some show ?thesis
    by (auto simp: ws_handle_continue_def split: sum.splits)
qed (simp add: ws_handle_continue_def)

lemma ws_handle_frame_ok:
  assumes "sig_buffers_ok sig" and "tx_ready SIG_MAX_SEND_BUF (io_tx io)"
  shows "sig_read_ok (ws_handle_frame env opcode fin len sig io)"
proof -
  obtain ret sig' io' where send: "sig_send_ws_frame WS_OPCODE_PONG (take len (sig_recv_buf sig)) sig io = Some (ret, sig', io')"
    using sig_send_ws_frame_returns [OF assms(2)] by blast
  show ?thesis
    using assms(1) ws_handle_data_ok [OF assms(1)] ws_handle_continue_ok [OF assms(1)] sig_send_ws_frame_ok(1) [OF send]
    by (simp add: ws_handle_frame_def send)
qed

lemma ws_read_length: "ws_read n rx = (Recv_All bs, rx') \<Longrightarrow> length bs = n"
  using ws_read_all by blast

lemma ws_read_payload_ok:
  assumes "sig_buffers_ok sig" and "sig_recv_buf sig = []" and "tx_ready SIG_MAX_SEND_BUF (io_tx io)"
  shows "sig_read_ok (ws_read_payload env opcode fin key len sig io)"
proof (cases "len > SIG_MAX_RECV_BUF")
  case True
  then show ?thesis using assms(1) by (simp add: ws_read_payload_def)
next
  case False
  obtain r rx where read: "ws_read len (io_rx io) = (r, rx)" by fastforce
  show ?thesis
  proof (cases r)
    case (Recv_All payload)
    let ?p = "case key of None \<Rightarrow> payload | Some key \<Rightarrow> ws_mask key payload"
    have "length ?p \<le> SIG_MAX_RECV_BUF"
      using ws_read_length [OF read [unfolded Recv_All]] False by (simp split: option.splits)
    then have "sig_buffers_ok (sig\<lparr>sig_recv_buf := ?p\<rparr>)" using assms(1) by simp
    from ws_handle_frame_ok [OF this, of "io\<lparr>io_rx := rx\<rparr>"] show ?thesis
      using False assms(2,3) by (simp add: ws_read_payload_def read Recv_All Let_def)
  qed (use False assms in \<open>simp_all add: ws_read_payload_def read Let_def\<close>)
qed

lemma sig_read_ws_frame_ok:
  assumes "sig_buffers_ok sig" and "sig_recv_buf sig = []" and "tx_ready SIG_MAX_SEND_BUF (io_tx io)"
  shows "sig_read_ok (sig_read_ws_frame env sig io)"
  using assms ws_read_payload_ok [OF assms(1,2)]
  by (auto simp: sig_read_ws_frame_def Let_def split: prod.splits ws_recv.splits)

section \<open>Every operation keeps the invariant\<close>

lemma sig_process_once:
  assumes "sig_ok sig" and "sig_state sig = TINYRTC_SIGNALING_CONNECTED" and "tx_ready SIG_MAX_SEND_BUF (io_tx io)"
  obtains ret sig1 io' where "sig_read_ws_frame env sig io = Some (ret, sig1, io')"
    and "sig_read_result (ret, sig1, io')"
    and "sig_process_loop env n sig io
      = Some (n, if ret < 0 then sig1\<lparr>sig_state := TINYRTC_SIGNALING_DISCONNECTED\<rparr> else sig1, io')"
proof -
  have "sig_read_ok (sig_read_ws_frame env sig io)"
    using assms by (intro sig_read_ws_frame_ok) (simp_all add: sig_ok_iff)
  then obtain ret sig1 io' where read: "sig_read_ws_frame env sig io = Some (ret, sig1, io')"
    and result: "sig_read_result (ret, sig1, io')"
    by (auto simp: sig_read_ok_def split: option.splits)
  moreover have "sig_process_loop env n sig io
      = Some (n, if ret < 0 then sig1\<lparr>sig_state := TINYRTC_SIGNALING_DISCONNECTED\<rparr> else sig1, io')"
    using result by (subst sig_process_loop.simps) (auto simp: read)
  ultimately show ?thesis by (rule that)
qed

lemma sig_send_json_ok:
  assumes "sig_ok sig" and "tx_ready SIG_MAX_SEND_BUF (io_tx io)"
  shows "\<exists>e sig' io'. sig_send_json cap json sig io = Some (e, sig', io') \<and> sig_ok sig'"
proof -
  obtain ret sig' io' where send: "sig_send_ws_frame WS_OPCODE_TEXT (string_bytes json) sig io = Some (ret, sig', io')"
    using sig_send_ws_frame_returns [OF assms(2)] by blast
  show ?thesis
    using assms(1) sig_send_ws_frame_ok [OF send] by (auto simp: sig_send_json_def send sig_ok_iff)
qed

datatype sig_call =
    Call_process sig_env
  | Call_offer "string option"
  | Call_answer "string option"
  | Call_candidate "candidate_fields option"
  | Call_disconnect

text \<open>A call on a client, with the state of the network at that moment.\<close>

fun sig_step :: "sig_call \<times> sig_io \<Rightarrow> signaling \<Rightarrow> signaling option" where
  "sig_step (Call_process env, io) sig = do { (n, s, io) \<leftarrow> tinyrtc_signaling_process env (Some sig) io; s }"
| "sig_step (Call_offer sdp, io) sig = do { (e, s, io) \<leftarrow> tinyrtc_signaling_send_offer (Some sig) sdp io; s }"
| "sig_step (Call_answer sdp, io) sig = do { (e, s, io) \<leftarrow> tinyrtc_signaling_send_answer (Some sig) sdp io; s }"
| "sig_step (Call_candidate c, io) sig = do { (e, s, io) \<leftarrow> tinyrtc_signaling_send_candidate (Some sig) c io; s }"
| "sig_step (Call_disconnect, io) sig = tinyrtc_signaling_disconnect (Some sig)"

lemma sig_process_ok:
  assumes "sig_ok sig" and "tx_ready SIG_MAX_SEND_BUF (io_tx io)"
  shows "\<exists>sig' io'. tinyrtc_signaling_process env (Some sig) io = Some (0, Some sig', io') \<and> sig_ok sig'"
proof (cases "sig_state sig = TINYRTC_SIGNALING_CONNECTED")
  case True
  from assms(1) True assms(2) show ?thesis
    by (rule sig_process_once [where env = env and n = 0])
      (auto simp: tinyrtc_signaling_process_def True sig_ok_iff)
qed (simp add: tinyrtc_signaling_process_def assms)

lemma sig_send_sdp_ok:
  assumes "sig_ok sig" and "tx_ready SIG_MAX_SEND_BUF (io_tx io)"
  shows "\<exists>e sig' io'. sig_send_sdp kind (Some sig) sdp io = Some (e, Some sig', io') \<and> sig_ok sig'"
  using assms sig_send_json_ok [OF assms, of 8192] by (fastforce simp: sig_send_sdp_def split: option.splits)

lemma sig_send_candidate_ok:
  assumes "sig_ok sig" and "tx_ready SIG_MAX_SEND_BUF (io_tx io)"
  shows "\<exists>e sig' io'. tinyrtc_signaling_send_candidate (Some sig) c io = Some (e, Some sig', io') \<and> sig_ok sig'"
  using assms sig_send_json_ok [OF assms, of 2048] by (fastforce simp: tinyrtc_signaling_send_candidate_def split: option.splits)

interpretation signaling_machine: safe_machine sig_step sig_ok "\<lambda>c. tx_ready SIG_MAX_SEND_BUF (io_tx (snd c))"
proof
  fix sig and c :: "sig_call \<times> sig_io"
  assume ok: "sig_ok sig" and ready: "tx_ready SIG_MAX_SEND_BUF (io_tx (snd c))"
  obtain call io where c: "c = (call, io)" by (cases c)
  show "\<exists>sig'. sig_step c sig = Some sig' \<and> sig_ok sig'"
  proof (cases call)
    case (Call_process env)
    then show ?thesis using sig_process_ok [OF ok, of io env] ready c by auto
  next
    case (Call_offer sdp)
    then show ?thesis using sig_send_sdp_ok [OF ok, of io "''offer''" sdp] ready c by (auto simp: tinyrtc_signaling_send_offer_def)
  next
    case (Call_answer sdp)
    then show ?thesis using sig_send_sdp_ok [OF ok, of io "''answer''" sdp] ready c by (auto simp: tinyrtc_signaling_send_answer_def)
  next
    case (Call_candidate x)
    then show ?thesis using sig_send_candidate_ok [OF ok, of io x] ready c by auto
  next
    case Call_disconnect
    then show ?thesis using ok c by (simp add: tinyrtc_signaling_disconnect_def sig_ok_iff)
  qed
qed

lemma sig_handshake_keeps:
  assumes "sig_perform_websocket_handshake sha1 host path sig io = Some (0, sig', io')"
  shows "sig' = sig"
  using assms by (auto simp: sig_perform_websocket_handshake_def Let_def
      split: prod.splits if_splits bind_splits list.splits tx.splits sum.splits)

lemma sig_create_ok:
  assumes "tinyrtc_signaling_create sha1 env alloc_ok ctx config callback io = Some (Some sig, io')"
  shows "sig_ok sig" and "sig_state sig = TINYRTC_SIGNALING_CONNECTED" and "sig_message_buf sig = None"
proof -
  obtain host cfg client wss io1 where "sig_join sha1 host
      ((sig_initial cfg)\<lparr>sig_client_id := client, sig_is_wss := wss\<rparr>) io1 = Some (Some sig, io')"
    using assms by (auto simp: tinyrtc_signaling_create_def Let_def split: option.splits if_splits prod.splits bind_splits)
  then obtain io2 where "sig_send_ws_frame WS_OPCODE_TEXT (string_bytes (sig_join_json (sig_room_id (sig_initial cfg))))
      ((sig_initial cfg)\<lparr>sig_client_id := client, sig_is_wss := wss, sig_state := TINYRTC_SIGNALING_CONNECTED\<rparr>) io2 = Some (0, sig, io')"
    by (auto simp: sig_join_def split: bind_splits if_splits dest!: sig_handshake_keeps)
  note sent = sig_send_ws_frame_wire(2) [OF this]
  show "sig_ok sig" "sig_state sig = TINYRTC_SIGNALING_CONNECTED" "sig_message_buf sig = None"
    by (simp_all add: sent sig_initial_def sig_ok_def)
qed

end
