(* ===== verification/Sig_Messages.thy ===== *)
theory Sig_Messages
  imports Sig_Client
begin

text \<open>
  The signaling channel from end to end: messages cut into frames are handed to the callback
  whole and in order, offers, answers and candidates arrive as they were sent, a poll returns
  after one frame, and no sequence of calls leaves the buffers.
\<close>

section \<open>Frames to messages\<close>

text \<open>Fragments with their masks as frames: a text frame, then continuations, the last one final.\<close>

fun ws_fragments :: "u8 \<Rightarrow> (bytes option \<times> bytes) list \<Rightarrow> bytes" where
  "ws_fragments opcode [] = []"
| "ws_fragments opcode ((key, data) # ps) =
     ws_wire_frame (ps = []) opcode key data @ ws_fragments WS_OPCODE_CONTINUE ps"

definition ws_payload :: "(bytes option \<times> bytes) list \<Rightarrow> bytes" where
  "ws_payload ps = concat (map snd ps)"

lemma ws_payload_simps [simp]: "ws_payload [] = []" "ws_payload ((key, data) # ps) = data @ ws_payload ps"
  by (simp_all add: ws_payload_def)

definition ws_message_ok :: "(bytes option \<times> bytes) list \<Rightarrow> bool" where
  "ws_message_ok ps \<longleftrightarrow> ps \<noteq> [] \<and> (\<forall>(key, data) \<in> set ps. ws_key_ok key) \<and> length (ws_payload ps) \<le> SIG_MAX_RECV_BUF"

text \<open>\<open>n\<close> calls of \<^verbatim>\<open>tinyrtc_signaling_process\<close>.\<close>

fun sig_polls :: "nat \<Rightarrow> sig_env \<Rightarrow> signaling \<Rightarrow> sig_io \<Rightarrow> (signaling \<times> sig_io) option" where
  "sig_polls 0 env sig io = Some (sig, io)"
| "sig_polls (Suc n) env sig io = do {
     (k, s, io) \<leftarrow> tinyrtc_signaling_process env (Some sig) io;
     (case s of None \<Rightarrow> None | Some sig \<Rightarrow> sig_polls n env sig io)
   }"

lemma sig_polls_add: "sig_polls (m + n) env sig io = do { (sig, io) \<leftarrow> sig_polls m env sig io; sig_polls n env sig io }"
  by (induction m arbitrary: sig io) (auto split: bind_splits option.splits)

text \<open>A client that is connected and has consumed what it received.\<close>

definition sig_listening :: "signaling \<Rightarrow> bool" where
  "sig_listening sig \<longleftrightarrow> sig_state sig = TINYRTC_SIGNALING_CONNECTED \<and> sig_recv_buf sig = []"

lemma sig_listening_recv [simp]: "sig_listening sig \<Longrightarrow> sig\<lparr>sig_recv_buf := []\<rparr> = sig"
  by (cases sig) (simp add: sig_listening_def)

lemma sig_poll_frame:
  assumes "sig_listening sig" and "opcode AND 0x0F = (opcode :: u8)" and "length data \<le> SIG_MAX_RECV_BUF" and "ws_key_ok key"
    and "io_rx io = map Rx_Byte (ws_wire_frame fin opcode key data) @ rx"
    and "ws_handle_frame env opcode fin (length data) (sig\<lparr>sig_recv_buf := data\<rparr>) (io\<lparr>io_rx := rx\<rparr>) = Some (0, sig', io')"
  shows "tinyrtc_signaling_process env (Some sig) io = Some (0, Some sig', io')"
proof -
  have listening: "sig_state sig = TINYRTC_SIGNALING_CONNECTED" "sig_recv_buf sig = []"
    using assms(1) by (simp_all add: sig_listening_def)
  have "sig_read_ws_frame env sig io = Some (0, sig', io')"
    using sig_read_wire_frame [OF assms(2-4) listening(2) assms(5)] assms(6) by simp
  then have "sig_process_loop env 0 sig io = Some (0, sig', io')"
    by (subst sig_process_loop.simps) simp
  with listening(1) show ?thesis by (simp add: tinyrtc_signaling_process_def)
qed

lemmas ws_opcodes = WS_OPCODE_TEXT_def WS_OPCODE_BINARY_def WS_OPCODE_CONTINUE_def

lemma sig_poll_text:
  assumes "sig_listening sig" and "length data \<le> SIG_MAX_RECV_BUF" and "ws_key_ok key"
    and "io_rx io = map Rx_Byte (ws_wire_frame True WS_OPCODE_TEXT key data) @ rx"
  shows "tinyrtc_signaling_process env (Some sig) io = Some (0, Some sig, sig_deliver env data (io\<lparr>io_rx := rx\<rparr>))"
  using assms(1) by (intro sig_poll_frame [OF assms(1) _ assms(2-4)])
    (simp_all add: ws_handle_frame_def ws_handle_data_def ws_opcodes)

lemma sig_poll_first_fragment:
  assumes "sig_listening sig" and "sig_message_buf sig = None" and "env_alloc_fragments env"
    and "length data \<le> SIG_MAX_RECV_BUF" and "ws_key_ok key"
    and "io_rx io = map Rx_Byte (ws_wire_frame False WS_OPCODE_TEXT key data) @ rx"
  shows "tinyrtc_signaling_process env (Some sig) io = Some (0, Some (sig\<lparr>sig_message_buf := Some data\<rparr>), io\<lparr>io_rx := rx\<rparr>)"
  using assms by (intro sig_poll_frame [OF assms(1) _ assms(4-6)])
    (simp_all add: ws_handle_frame_def ws_handle_data_def ws_append_fragment_def ws_opcodes sig_listening_def)

lemma sig_poll_continuation:
  assumes "sig_listening sig" and "sig_message_buf sig = Some m"
    and "length m + length data \<le> SIG_MAX_RECV_BUF" and "ws_key_ok key"
    and "io_rx io = map Rx_Byte (ws_wire_frame fin WS_OPCODE_CONTINUE key data) @ rx"
  shows "tinyrtc_signaling_process env (Some sig) io =
    (if fin then Some (0, Some (sig\<lparr>sig_message_buf := None\<rparr>), sig_deliver env (m @ data) (io\<lparr>io_rx := rx\<rparr>))
     else Some (0, Some (sig\<lparr>sig_message_buf := Some (m @ data)\<rparr>), io\<lparr>io_rx := rx\<rparr>))"
proof -
  have "length data \<le> SIG_MAX_RECV_BUF" using assms(3) by simp
  note poll = sig_poll_frame [OF assms(1) _ this assms(4,5), where env = env]
  show ?thesis
    using assms(1-3) by (cases fin) (simp_all add: poll ws_handle_frame_def ws_handle_continue_def ws_append_fragment_def ws_opcodes sig_listening_def)
qed

lemma sig_deliver_rx [simp]: "io_rx (sig_deliver env data io) = io_rx io" "io_tx (sig_deliver env data io) = io_tx io"
  by (simp_all add: sig_deliver_def split: option.splits)

lemma sig_deliver_rx_update: "(sig_deliver env data io)\<lparr>io_rx := rx\<rparr> = sig_deliver env data (io\<lparr>io_rx := rx\<rparr>)"
  by (simp add: sig_deliver_def split: option.splits)

lemma sig_polls_continuations:
  assumes "sig_state sig = TINYRTC_SIGNALING_CONNECTED" and "sig_recv_buf sig = []" and "sig_message_buf sig = Some m"
    and "ps \<noteq> []" and "\<forall>(key, data) \<in> set ps. ws_key_ok key" and "length m + length (ws_payload ps) \<le> SIG_MAX_RECV_BUF"
    and "io_rx io = map Rx_Byte (ws_fragments WS_OPCODE_CONTINUE ps) @ rx"
  shows "sig_polls (length ps) env sig io
    = Some (sig\<lparr>sig_message_buf := None\<rparr>, sig_deliver env (m @ ws_payload ps) (io\<lparr>io_rx := rx\<rparr>))"
  using assms
proof (induction ps arbitrary: sig m io)
  case (Cons p ps)
  obtain key data where p: "p = (key, data)" by (cases p)
  have rx: "io_rx io = map Rx_Byte (ws_wire_frame (ps = []) WS_OPCODE_CONTINUE key data) @ map Rx_Byte (ws_fragments WS_OPCODE_CONTINUE ps) @ rx"
    using Cons.prems(7) by (simp add: p)
  have fits: "length m + length data \<le> SIG_MAX_RECV_BUF" and key: "ws_key_ok key" using Cons.prems(5,6) by (simp_all add: p)
  have "sig_listening sig" using Cons.prems(1,2) by (simp add: sig_listening_def)
  note poll = sig_poll_continuation [OF this Cons.prems(3) fits key rx, of env]
  show ?case
  proof (cases "ps = []")
    case True
    then show ?thesis using poll by (simp add: p)
  next
    case False
    let ?sig = "sig\<lparr>sig_message_buf := Some (m @ data)\<rparr>"
    let ?io = "io\<lparr>io_rx := map Rx_Byte (ws_fragments WS_OPCODE_CONTINUE ps) @ rx\<rparr>"
    have "sig_polls (length ps) env ?sig ?io
        = Some (?sig\<lparr>sig_message_buf := None\<rparr>, sig_deliver env ((m @ data) @ ws_payload ps) (?io\<lparr>io_rx := rx\<rparr>))"
      by (rule Cons.IH) (use Cons.prems False in \<open>auto simp: p\<close>)
    then show ?thesis using False poll by (simp add: p)
  qed
qed simp

lemma sig_polls_message:
  assumes "sig_listening sig" and "sig_message_buf sig = None" and "env_alloc_fragments env" and "ws_message_ok ps"
    and "io_rx io = map Rx_Byte (ws_fragments WS_OPCODE_TEXT ps) @ rx"
  shows "sig_polls (length ps) env sig io = Some (sig, sig_deliver env (ws_payload ps) (io\<lparr>io_rx := rx\<rparr>))"
proof -
  obtain key data qs where ps: "ps = (key, data) # qs" using assms(4) by (cases ps) (auto simp: ws_message_ok_def)
  have ok: "ws_key_ok key" "length data + length (ws_payload qs) \<le> SIG_MAX_RECV_BUF" "\<forall>(key, data) \<in> set qs. ws_key_ok key"
    using assms(4) by (simp_all add: ws_message_ok_def ps)
  have rx: "io_rx io = map Rx_Byte (ws_wire_frame (qs = []) WS_OPCODE_TEXT key data) @ map Rx_Byte (ws_fragments WS_OPCODE_CONTINUE qs) @ rx"
    using assms(5) by (simp add: ps)
  show ?thesis
  proof (cases "qs = []")
    case True
    then show ?thesis using sig_poll_text [OF assms(1) _ ok(1), of data io rx env] ok(2) rx by (simp add: ps)
  next
    case False
    let ?sig = "sig\<lparr>sig_message_buf := Some data\<rparr>"
    let ?io = "io\<lparr>io_rx := map Rx_Byte (ws_fragments WS_OPCODE_CONTINUE qs) @ rx\<rparr>"
    have "sig_polls (length qs) env ?sig ?io
        = Some (?sig\<lparr>sig_message_buf := None\<rparr>, sig_deliver env (data @ ws_payload qs) (?io\<lparr>io_rx := rx\<rparr>))"
      by (rule sig_polls_continuations) (use assms(1) False ok in \<open>simp_all add: sig_listening_def\<close>)
    moreover have "tinyrtc_signaling_process env (Some sig) io = Some (0, Some ?sig, ?io)"
      by (rule sig_poll_first_fragment [OF assms(1-3) _ ok(1)]) (use ok(2) rx False in simp_all)
    moreover have "sig\<lparr>sig_message_buf := None\<rparr> = sig" using assms(2) by (cases sig) simp
    ultimately show ?thesis by (simp add: ps)
  qed
qed

section \<open>Messages arrive as they were sent\<close>

text \<open>What a completed send put on the wire, read by a listening peer.\<close>

lemma sig_sent_message_arrives:
  assumes "sig_send_json cap json sig io = Some (TINYRTC_OK, sig', io')" and "sig_listening peer"
    and "io_rx pio = map Rx_Byte (drop (length (io_sent io)) (io_sent io')) @ rx"
  shows "tinyrtc_signaling_process env (Some peer) pio
    = Some (0, Some peer, sig_deliver env (string_bytes json) (pio\<lparr>io_rx := rx\<rparr>))"
proof -
  have send: "sig_send_ws_frame WS_OPCODE_TEXT (string_bytes json) sig io = Some (0, sig', io')"
    using assms(1) by (auto simp: sig_send_json_def split: if_splits bind_splits)
  then obtain key where "length key = 4"
    and "io_sent io' = io_sent io @ ws_wire_frame True WS_OPCODE_TEXT (Some key) (string_bytes json)"
    using sig_send_ws_frame_wire(1) by blast
  with assms(3) have rx: "io_rx pio = map Rx_Byte (ws_wire_frame True WS_OPCODE_TEXT (Some key) (string_bytes json)) @ rx"
    and "ws_key_ok (Some key)" by (simp_all add: ws_key_ok_def)
  moreover have "length (string_bytes json) \<le> SIG_MAX_RECV_BUF"
    using sig_send_ws_frame_wire(5) [OF send] by (simp add: SIG_MAX_SEND_BUF_def SIG_MAX_RECV_BUF_def)
  ultimately show ?thesis using sig_poll_text [OF assms(2)] by blast
qed

definition env_allocates :: "sig_env \<Rightarrow> bool" where
  "env_allocates env \<longleftrightarrow> env_alloc_json env \<and> env_alloc_value env \<and> env_alloc_fragments env"

text \<open>The bytes a call added to what was sent, as the peer's next reads.\<close>

definition sent_between :: "sig_io \<Rightarrow> sig_io \<Rightarrow> rx list" where
  "sent_between io io' = map Rx_Byte (drop (length (io_sent io)) (io_sent io'))"

lemma sig_event_arrives:
  assumes "sig_send_json cap json sig io = Some (TINYRTC_OK, sig', io')" and "sig_listening peer"
    and "io_rx pio = sent_between io io' @ rx" and "env_allocates env"
    and "\<And>uninit. sig_process_message uninit True True (string_bytes json) = Some event"
  shows "tinyrtc_signaling_process env (Some peer) pio
    = Some (0, Some peer, pio\<lparr>io_rx := rx, io_events := io_events pio @ [event]\<rparr>)"
proof -
  have "sig_deliver env (string_bytes json) (pio\<lparr>io_rx := rx\<rparr>) = pio\<lparr>io_rx := rx, io_events := io_events pio @ [event]\<rparr>"
    using assms(4,5) by (simp add: sig_deliver_def env_allocates_def)
  with sig_sent_message_arrives [OF assms(1,2) assms(3) [unfolded sent_between_def]] show ?thesis by simp
qed

lemma sig_send_sdp_sent:
  assumes "sig_send_sdp kind (Some sig) (Some sdp) io = Some (TINYRTC_OK, sig', io')" and "length (json_escaped sdp) < 4096"
  shows "\<exists>s. sig_send_json 8192 (sig_sdp_json kind (json_escaped sdp)) sig io = Some (TINYRTC_OK, s, io')"
  using assms by (auto simp: sig_send_sdp_def sig_json_escape_fits split: if_splits)

text \<open>A network that takes a whole frame at once.\<close>

lemma sig_send_json_succeeds:
  assumes "sig_state sig = TINYRTC_SIGNALING_CONNECTED" and "length json < cap" and "length json \<le> 8000"
    and "io_tx io = Tx_Sent 8192 # ts"
  shows "\<exists>io'. sig_send_json cap json sig io = Some (TINYRTC_OK, sig, io')"
proof -
  have finish: "ws_send_loop [] ts = Some (Inr (), [], ts)" for ts by (cases ts) simp_all
  show ?thesis
    using assms by (auto simp: sig_send_json_def sig_send_ws_frame_def io_random_bytes_def Let_def ws_header_def
        SIG_MAX_SEND_BUF_def finish string_bytes_def)
qed

section \<open>A session to evaluate\<close>

definition sig_example :: signaling where
  "sig_example = (sig_initial \<lparr>scfg_url = None, scfg_room_id = None, scfg_client_id = None, scfg_auto_connect = True,
     scfg_disable_cert_verify = False\<rparr>)\<lparr>sig_state := TINYRTC_SIGNALING_CONNECTED\<rparr>"

definition sig_io_example :: sig_io where
  "sig_io_example = \<lparr>io_rx = [], io_tx = [Tx_Sent 8192], io_random = (\<lambda>i. word_of_nat (7 * i + 3)),
     io_sent = [], io_events = []\<rparr>"

definition sig_env_example :: sig_env where
  "sig_env_example = \<lparr>env_uninit_type = TINYRTC_SIGNAL_EVENT_OFFER, env_alloc_json = True, env_alloc_value = True,
     env_alloc_fragments = True\<rparr>"

lemma sig_example_ok [simp]:
  "sig_listening sig_example" "sig_ok sig_example" "sig_message_buf sig_example = None" "env_allocates sig_env_example"
  "sig_state sig_example = TINYRTC_SIGNALING_CONNECTED" "io_sent sig_io_example = []"
  "env_alloc_fragments sig_env_example" "tx_ready SIG_MAX_SEND_BUF (io_tx sig_io_example)"
  by (simp_all add: sig_example_def sig_initial_def sig_listening_def sig_ok_def env_allocates_def sig_env_example_def
      sig_io_example_def SIG_MAX_SEND_BUF_def)

section \<open>A created client\<close>

text \<open>A server that accepts the handshake, and a digest function to go with it.\<close>

definition ws_response_example :: string where
  "ws_response_example = ''HTTP/1.1 101 Switching Protocols'' @ [c_return, c_lf]
     @ ''Sec-WebSocket-Accept: AAAAAAAAAAAAAAAAAAAAAAAAAAA='' @ [c_return, c_lf, c_return, c_lf]"

definition sha1_example :: "bytes \<Rightarrow> bytes" where
  "sha1_example text = replicate 20 0"

definition tls_example :: tls_env where
  "tls_example = \<lparr>te_seed = 0, te_ca_files = [], te_connect = (\<lambda>host port. 0), te_config_defaults = 0, te_ssl_setup = 0,
     te_handshake = (\<lambda>required host. [])\<rparr>"

definition signaling_config_example :: signaling_config where
  "signaling_config_example = \<lparr>scfg_url = Some ''ws://a:80/'', scfg_room_id = Some ''r'', scfg_client_id = Some ''me'',
     scfg_auto_connect = True, scfg_disable_cert_verify = False\<rparr>"

definition sig_server_example :: sig_io where
  "sig_server_example = \<lparr>io_rx = map Rx_Byte (string_bytes ws_response_example), io_tx = [Tx_Sent 8192, Tx_Sent 8192],
     io_random = (\<lambda>i. 3), io_sent = [], io_events = []\<rparr>"

lemma ws_response_example_read:
  "ws_read_response [] (map Rx_Byte (string_bytes ws_response_example)) = Some (ws_response_example, [])"
  by code_simp

lemma base64_examples:
  "base64_encode (map (\<lambda>i. 3) [0..<16]) 64 = (24, Some ''AwMDAwMDAwMDAwMDAwMDAw=='')"
  "sig_compute_accept_key sha1_example k = Some ''AAAAAAAAAAAAAAAAAAAAAAAAAAA=''"
  unfolding sig_compute_accept_key_def sha1_example_def by code_simp+

lemma ws_check_example: "ws_check_response ''AAAAAAAAAAAAAAAAAAAAAAAAAAA='' ws_response_example = Inr ()"
  by code_simp

lemma ws_request_example: "length (ws_request ''a'' ''/'' ''AwMDAwMDAwMDAwMDAwMDAw=='') < 2048"
  by (simp add: ws_request_def)

lemma sig_parse_example: "sig_parse_url ''ws://a:80/'' 128 = Some (''a'', 80, False)"
  by code_simp

lemma sig_handshake_example:
  "\<exists>io'. sig_perform_websocket_handshake sha1_example ''a'' ''/'' sig sig_server_example = Some (0, sig, io') \<and> io_tx io' = [Tx_Sent 8192]"
  using ws_request_example
  by (simp add: sig_perform_websocket_handshake_def sig_server_example_def io_random_bytes_def Let_def base64_examples
      ws_response_example_read ws_check_example)

lemma sig_create_example:
  "\<exists>sig io'. tinyrtc_signaling_create sha1_example tls_example True True (Some signaling_config_example) True sig_server_example
     = Some (Some sig, io')"
proof -
  let ?sig = "(sig_initial signaling_config_example)\<lparr>sig_client_id := ''me'', sig_is_wss := False,
    sig_state := TINYRTC_SIGNALING_CONNECTING\<rparr>"
  obtain io where hs: "sig_perform_websocket_handshake sha1_example ''a'' ''/'' ?sig sig_server_example = Some (0, ?sig, io)"
    and tx: "io_tx io = [Tx_Sent 8192]"
    using sig_handshake_example by blast
  have "\<exists>io'. sig_send_json 512 (sig_join_json ''r'') (?sig\<lparr>sig_state := TINYRTC_SIGNALING_CONNECTED\<rparr>) io
      = Some (TINYRTC_OK, ?sig\<lparr>sig_state := TINYRTC_SIGNALING_CONNECTED\<rparr>, io')"
    by (rule sig_send_json_succeeds [OF _ _ _ tx]) (simp_all add: sig_join_json_def)
  then obtain io' where "sig_send_ws_frame WS_OPCODE_TEXT (string_bytes (sig_join_json ''r''))
      (?sig\<lparr>sig_state := TINYRTC_SIGNALING_CONNECTED\<rparr>) io = Some (0, ?sig\<lparr>sig_state := TINYRTC_SIGNALING_CONNECTED\<rparr>, io')"
    by (auto simp: sig_send_json_def split: bind_splits if_splits)
  with hs show ?thesis
    by (simp add: tinyrtc_signaling_create_def sig_initial_def signaling_config_example_def or_null_def tls_example_def
        sig_parse_example sig_open_connection_def sig_join_def)
qed

section \<open>What is lost on the way\<close>

text \<open>
  A read that finds nothing in the middle of a frame forgets the part it has read: the next poll
  takes the rest of the payload for a frame header.
\<close>

theorem ws_interrupted_frame_lost:
  "sig_read_ws_frame env sig (io\<lparr>io_rx := [Rx_Byte 0x81, Rx_Byte 2, Rx_Byte b, Rx_Want, Rx_Byte c] @ rx\<rparr>)
     = (if length (sig_recv_buf sig) + 2 \<le> SIG_MAX_RECV_BUF then Some (0, sig, io\<lparr>io_rx := Rx_Byte c # rx\<rparr>) else None)"
proof -
  have two: "ws_read 2 (Rx_Byte x # Rx_Byte y # s) = (Recv_All [x, y], s)" for x y s
    using ws_read_bytes [of "[x, y]" 2 s] by simp
  have interrupted: "ws_read 2 (Rx_Byte x # Rx_Want # s) = (Recv_Want, s)" for x s
    by (simp add: numeral_2_eq_2)
  have "(2 :: u8) AND 0x7F = 2" "(2 :: u8) AND 0x80 = 0" by simp_all
  then show ?thesis
    by (simp add: sig_read_ws_frame_def ws_read_payload_def Let_def SIG_MAX_RECV_BUF_def two interrupted)
qed

text \<open>A message of a type that is not one of the known ones reports an uninitialised event type.\<close>

theorem sig_unknown_type_reported:
  "map_option se_type (sig_process_message uninit True True (string_bytes [CHR ''{'', c_quote, CHR ''t'', CHR ''y'', CHR ''p'',
     CHR ''e'', c_quote, CHR '':'', c_quote, CHR ''p'', c_quote, CHR ''}''])) = Some uninit"
  by (subst sig_process_json) (simp_all add: sig_search sig_event_type_def)

text \<open>A session description whose escaped form needs 4096 bytes or more is sent incomplete.\<close>

theorem sig_sdp_truncated: "4096 \<le> length (json_escaped sdp) \<Longrightarrow> sig_json_escape sdp 4096 \<noteq> json_escaped sdp"
  using sig_json_escape_loop_bound [of "[]" 4096 sdp] by (auto simp: sig_json_escape_def)

text \<open>A session description that ends in a backslash is not extracted again.\<close>

theorem sig_sdp_backslash_lost:
  "sig_extract_sdp_value True (sig_sdp_json ''offer'' (sig_json_escape [c_backslash] 4096)) = None"
  by (simp add: sig_json_escape_fits json_escape_char_def sig_extract_sdp_value_def sig_sdp_json_def sig_search
      sig_extract_json_string_field_def)

section \<open>Properties\<close>

text \<open>C33: an offer or answer whose send call returned \<^verbatim>\<open>TINYRTC_OK\<close> is reported to the callback of a
  listening peer that reads the bytes on the wire, once and with exactly the session description
  that was sent, provided that its escaped form fits the 4096-byte buffer, it does not end in a
  backslash and contains no NUL; whatever follows on the wire is left for the next poll.  The
  description travels inside an object, \<^verbatim>\<open>"sdp": {"type": ..., "sdp": ...}\<close>.  A comment in
  \<^verbatim>\<open>sig_process_message\<close> and notes in \<^verbatim>\<open>docs/signaling.md\<close> say that only descriptions sent as plain strings
  are extracted reliably; for the objects TinyRTC itself sends, the code does better than they say.\<close>

theorem signaling_sdp_roundtrip:
  assumes "(send, event_type) \<in> {(tinyrtc_signaling_send_offer, TINYRTC_SIGNAL_EVENT_OFFER),
      (tinyrtc_signaling_send_answer, TINYRTC_SIGNAL_EVENT_ANSWER)}"
    and "send (Some sig) (Some sdp) io = Some (TINYRTC_OK, sig', io')"
    and "length (json_escaped sdp) < 4096" and "sdp = [] \<or> last sdp \<noteq> c_backslash" and "CHR 0x00 \<notin> set sdp"
    and "sig_listening peer" and "env_allocates env" and "io_rx pio = sent_between io io' @ rx"
  shows "tinyrtc_signaling_process env (Some peer) pio
    = Some (0, Some peer, pio\<lparr>io_rx := rx, io_events := io_events pio @ [\<lparr>se_type = event_type, se_data = Signal_Sdp sdp\<rparr>]\<rparr>)"
proof -
  have "\<exists>kind s. sig_send_json 8192 (sig_sdp_json kind (json_escaped sdp)) sig io = Some (TINYRTC_OK, s, io')
      \<and> (\<forall>uninit. sig_process_message uninit True True (string_bytes (sig_sdp_json kind (json_escaped sdp)))
          = Some \<lparr>se_type = event_type, se_data = Signal_Sdp sdp\<rparr>)"
    using assms(1,2) sig_process_sdp [OF assms(4,5)] sig_send_sdp_sent [OF _ assms(3)]
    unfolding tinyrtc_signaling_send_offer_def tinyrtc_signaling_send_answer_def by blast
  then show ?thesis using sig_event_arrives [OF _ assms(6,8,7)] by blast
qed

lemma signaling_sdp_roundtrip_witness:
  "\<exists>sig' io'. tinyrtc_signaling_send_answer (Some sig_example) (Some ''v=0'') sig_io_example = Some (TINYRTC_OK, sig', io') \<and>
     tinyrtc_signaling_process sig_env_example (Some sig_example) (sig_io_example\<lparr>io_rx := sent_between sig_io_example io' @ [Rx_Want]\<rparr>)
       = Some (0, Some sig_example, sig_io_example\<lparr>io_rx := [Rx_Want],
           io_events := [\<lparr>se_type = TINYRTC_SIGNAL_EVENT_ANSWER, se_data = Signal_Sdp ''v=0''\<rparr>]\<rparr>)"
proof -
  have "length (sig_sdp_json ''answer'' (sig_json_escape ''v=0'' 4096)) < 100" by code_simp
  then obtain sig' io' where sent: "tinyrtc_signaling_send_answer (Some sig_example) (Some ''v=0'') sig_io_example = Some (TINYRTC_OK, sig', io')"
    using sig_send_json_succeeds [of sig_example "sig_sdp_json ''answer'' (sig_json_escape ''v=0'' 4096)" 8192 sig_io_example "[]"]
    by (auto simp: tinyrtc_signaling_send_answer_def sig_send_sdp_def sig_io_example_def)
  have "io_events sig_io_example = []" by (simp add: sig_io_example_def)
  with signaling_sdp_roundtrip [of tinyrtc_signaling_send_answer TINYRTC_SIGNAL_EVENT_ANSWER, OF _ sent,
      of sig_example sig_env_example "sig_io_example\<lparr>io_rx := sent_between sig_io_example io' @ [Rx_Want]\<rparr>" "[Rx_Want]"] sent
  show ?thesis by (simp add: json_escape_char_def)
qed

text \<open>The fields of the public candidate structure, none of them NULL.\<close>

definition candidate_fields_of :: "ice_candidate \<Rightarrow> candidate_fields" where
  "candidate_fields_of c = \<lparr>cf_foundation = Some (ic_foundation c), cf_priority = ic_priority c, cf_ip = Some (ic_ip c),
     cf_port = ic_port c, cf_type = Some (ic_type c), cf_protocol = Some (ic_protocol c),
     cf_is_ipv6 = ic_is_ipv6 c\<rparr>"

text \<open>C34: an ICE candidate whose fields are words of the receiver's scan widths without quotes and
  backslashes, and whose port is not 0, is reported to the callback of a listening peer exactly as
  it was sent, including the address family that the receiver infers from the address.  The notes in
  \<^verbatim>\<open>docs/signaling.md\<close> that sending is unfinished, and the comment in \<^verbatim>\<open>sig_process_message\<close> that candidate
  objects are not fully parsed, are out of date for candidates of this form.\<close>

theorem signaling_candidate_roundtrip:
  assumes "tinyrtc_signaling_send_candidate (Some sig) (Some (candidate_fields_of c)) io = Some (TINYRTC_OK, sig', io')"
    and "sig_candidate_ok c" and "sig_listening peer" and "env_allocates env" and "io_rx pio = sent_between io io' @ rx"
  shows "tinyrtc_signaling_process env (Some peer) pio
    = Some (0, Some peer, pio\<lparr>io_rx := rx, io_events := io_events pio
        @ [\<lparr>se_type = TINYRTC_SIGNAL_EVENT_ICE_CANDIDATE, se_data = Signal_Candidate c\<rparr>]\<rparr>)"
proof -
  obtain s where "sig_send_json 2048 (candidate_json c) sig io = Some (TINYRTC_OK, s, io')"
    using assms(1) by (auto simp: tinyrtc_signaling_send_candidate_def candidate_fields_of_def split: if_splits)
  from sig_event_arrives [OF this assms(3,5,4) sig_process_candidate [OF assms(2)]] show ?thesis .
qed

definition candidate_example :: ice_candidate where
  "candidate_example = \<lparr>ic_foundation = ''1'', ic_priority = 2130706431, ic_ip = ''192.0.2.7'', ic_port = 50000,
     ic_type = ''host'', ic_protocol = ''udp'', ic_is_ipv6 = False\<rparr>"

lemma signaling_candidate_roundtrip_witness:
  "\<exists>sig' io'. tinyrtc_signaling_send_candidate (Some sig_example) (Some (candidate_fields_of candidate_example)) sig_io_example
       = Some (TINYRTC_OK, sig', io') \<and>
     tinyrtc_signaling_process sig_env_example (Some sig_example) (sig_io_example\<lparr>io_rx := sent_between sig_io_example io'\<rparr>)
       = Some (0, Some sig_example, sig_io_example\<lparr>io_rx := [], io_events :=
           [\<lparr>se_type = TINYRTC_SIGNAL_EVENT_ICE_CANDIDATE, se_data = Signal_Candidate candidate_example\<rparr>]\<rparr>)"
proof -
  have "length (candidate_json candidate_example) < 300"
    using length_show_word_le(1) [of 2130706431] length_show_word_le(2) [of 50000]
    by (simp add: sig_candidate_json_def sig_candidate_line_def or_null_def candidate_example_def)
  then obtain sig' io' where sent: "tinyrtc_signaling_send_candidate (Some sig_example) (Some (candidate_fields_of candidate_example))
      sig_io_example = Some (TINYRTC_OK, sig', io')"
    using sig_send_json_succeeds [of sig_example "candidate_json candidate_example" 2048 sig_io_example "[]"]
    by (auto simp: tinyrtc_signaling_send_candidate_def candidate_fields_of_def sig_io_example_def)
  have ok: "sig_candidate_ok candidate_example"
    by (simp add: sig_candidate_ok_def sig_word_def candidate_example_def c_isspace_def)
  have "io_events sig_io_example = []" by (simp add: sig_io_example_def)
  with signaling_candidate_roundtrip [OF sent ok, of sig_example sig_env_example
      "sig_io_example\<lparr>io_rx := sent_between sig_io_example io'\<rparr>" "[]"] sent
  show ?thesis by simp
qed

text \<open>C35: the frame reader implements a channel of messages.  Whatever way the messages are cut into
  masked or unmasked frames, each message at most 8192 bytes, polling once per frame hands every
  message to the message handler whole, once and in order, and leaves the client as it was.\<close>

theorem signaling_stream_refines_messages:
  assumes "sig_listening sig" and "sig_message_buf sig = None" and "env_alloc_fragments env"
    and "\<forall>ps \<in> set msgs. ws_message_ok ps"
    and "io_rx io = map Rx_Byte (concat (map (ws_fragments WS_OPCODE_TEXT) msgs)) @ rx"
  shows "sig_polls (length (concat msgs)) env sig io
    = Some (sig, fold (sig_deliver env) (map ws_payload msgs) (io\<lparr>io_rx := rx\<rparr>))"
  using assms(4,5)
proof (induction msgs arbitrary: io)
  case (Cons ps msgs)
  let ?io = "io\<lparr>io_rx := map Rx_Byte (concat (map (ws_fragments WS_OPCODE_TEXT) msgs)) @ rx\<rparr>"
  have "sig_polls (length ps) env sig io = Some (sig, sig_deliver env (ws_payload ps) ?io)"
    by (rule sig_polls_message [OF assms(1-3)]) (use Cons.prems in simp_all)
  moreover have "sig_polls (length (concat msgs)) env sig (sig_deliver env (ws_payload ps) ?io)
      = Some (sig, fold (sig_deliver env) (map ws_payload msgs) ((sig_deliver env (ws_payload ps) ?io)\<lparr>io_rx := rx\<rparr>))"
    by (rule Cons.IH) (use Cons.prems in simp_all)
  ultimately show ?case by (simp add: sig_polls_add sig_deliver_rx_update)
qed simp

lemma signaling_stream_refines_messages_witness:
  "sig_polls 3 sig_env_example sig_example
     (sig_io_example\<lparr>io_rx := map Rx_Byte (ws_fragments WS_OPCODE_TEXT [(None, [1, 2]), (Some [9, 8, 7, 6], [3])]
        @ ws_fragments WS_OPCODE_TEXT [(Some [1, 2, 3, 4], [5])]) @ [Rx_Failed]\<rparr>)
   = Some (sig_example, fold (sig_deliver sig_env_example) [[1, 2, 3], [5]] (sig_io_example\<lparr>io_rx := [Rx_Failed]\<rparr>))"
  using signaling_stream_refines_messages [of sig_example sig_env_example
      "[[(None, [1, 2]), (Some [9, 8, 7, 6], [3])], [(Some [1, 2, 3, 4], [5])]]"
      "sig_io_example\<lparr>io_rx := map Rx_Byte (ws_fragments WS_OPCODE_TEXT [(None, [1, 2]), (Some [9, 8, 7, 6], [3])]
        @ ws_fragments WS_OPCODE_TEXT [(Some [1, 2, 3, 4], [5])]) @ [Rx_Failed]\<rparr>" "[Rx_Failed]"]
  by (simp add: ws_message_ok_def ws_key_ok_def SIG_MAX_RECV_BUF_def numeral_3_eq_3 del: sig_polls.simps)

text \<open>C36: while the network takes an answer to a ping, a poll of a connected client is defined and
  returns.  It reads at most one frame and its result, the number of events processed, is 0 whatever
  was received; a failed read disconnects the client.\<close>

theorem signaling_process_returns:
  assumes "sig_ok sig" and "sig_state sig = TINYRTC_SIGNALING_CONNECTED" and "tx_ready SIG_MAX_SEND_BUF (io_tx io)"
  shows "\<exists>ret sig1 io'. sig_read_ws_frame env sig io = Some (ret, sig1, io') \<and>
    tinyrtc_signaling_process env (Some sig) io
      = Some (0, Some (if ret < 0 then sig1\<lparr>sig_state := TINYRTC_SIGNALING_DISCONNECTED\<rparr> else sig1), io')"
  using assms
  by (rule sig_process_once [where env = env and n = 0]) (simp add: tinyrtc_signaling_process_def assms(2))

lemma signaling_process_returns_witness:
  "\<exists>ret sig1 io'. sig_read_ws_frame sig_env_example sig_example sig_io_example = Some (ret, sig1, io') \<and>
    tinyrtc_signaling_process sig_env_example (Some sig_example) sig_io_example
      = Some (0, Some (if ret < 0 then sig1\<lparr>sig_state := TINYRTC_SIGNALING_DISCONNECTED\<rparr> else sig1), io')"
  by (rule signaling_process_returns) simp_all

text \<open>C37: a client that was created never writes outside its receive and fragment buffers and every
  call on it returns, for any sequence of polls, offers, answers, candidates and disconnections and
  anything the network delivers, as long as the network takes what is written or fails.\<close>

theorem signaling_session_safe:
  assumes "tinyrtc_signaling_create sha1 tls alloc_ok ctx config callback io = Some (Some sig, io')"
    and "\<forall>c \<in> set calls. tx_ready SIG_MAX_SEND_BUF (io_tx (snd c))"
  shows "\<exists>sig'. run_machine sig_step calls sig = Some sig' \<and> sig_ok sig'"
  by (rule signaling_machine.run_safe) (use assms sig_create_ok(1) in blast)+

lemma signaling_session_safe_witness:
  "\<exists>sig io' sig'. tinyrtc_signaling_create sha1_example tls_example True True (Some signaling_config_example) True sig_server_example
      = Some (Some sig, io') \<and>
    run_machine sig_step [(Call_offer (Some ''v=0''), sig_io_example), (Call_process sig_env_example, sig_io_example), (Call_disconnect, sig_io_example)] sig
      = Some sig' \<and> sig_ok sig'"
proof -
  obtain sig io' where create: "tinyrtc_signaling_create sha1_example tls_example True True (Some signaling_config_example) True
      sig_server_example = Some (Some sig, io')"
    using sig_create_example by blast
  from signaling_session_safe [OF create, of "[(Call_offer (Some ''v=0''), sig_io_example), (Call_process sig_env_example, sig_io_example),
      (Call_disconnect, sig_io_example)]"] create
  show ?thesis by (simp del: run_machine.simps sig_step.simps)
qed

end
