(* ===== verification/Jitter_Buffer.thy ===== *)
theory Jitter_Buffer
  imports Rtp "HOL-Library.Multiset"
begin

text \<open>
  The jitter buffer of \<^verbatim>\<open>src/media/rtp.c\<close> (lines 469 to 693).  The four parallel arrays
  \<^verbatim>\<open>packets\<close>, \<^verbatim>\<open>packet_len\<close>, \<^verbatim>\<open>sequence\<close> and \<^verbatim>\<open>arrival_time\<close> are one list of entries, the entries
  below \<^verbatim>\<open>count\<close>; each array has \<^verbatim>\<open>config.buffer_size\<close> elements, so an access at or beyond that
  index is undefined (\<open>None\<close>).  Whether \<^verbatim>\<open>malloc\<close> succeeds is an argument of each operation.
\<close>

record jitter_config =
  jc_min_delay_ms :: u32
  jc_max_delay_ms :: u32
  jc_buffer_size :: u32

record jitter_entry =
  je_packet :: bytes
  je_sequence :: u16
  je_arrival_time :: u64

record jitter_buffer =
  jb_config :: jitter_config
  jb_entries :: "jitter_entry list"
  jb_next_playout_time :: u64

definition tinyrtc_jitter_get_default_config :: jitter_config where
  "tinyrtc_jitter_get_default_config =
     \<lparr>jc_min_delay_ms = 30, jc_max_delay_ms = 200, jc_buffer_size = 64\<rparr>"

section \<open>Creation and destruction\<close>

text \<open>The heap blocks of a buffer, as far as \<^verbatim>\<open>destroy\<close> frees them.\<close>

datatype jitter_block =
  JB_Packet bytes | JB_Packets | JB_Packet_Len | JB_Sequence | JB_Arrival_Time | JB_Struct

text \<open>Which of the four arrays were allocated; freeing \<^verbatim>\<open>NULL\<close> does nothing.\<close>

record jitter_arrays =
  ja_packets :: bool
  ja_packet_len :: bool
  ja_sequence :: bool
  ja_arrival_time :: bool

definition jitter_free_blocks :: "jitter_arrays \<Rightarrow> jitter_entry list \<Rightarrow> jitter_block list" where
  "jitter_free_blocks a es =
     (if ja_packets a then map (JB_Packet \<circ> je_packet) es @ [JB_Packets] else [])
     @ (if ja_packet_len a then [JB_Packet_Len] else [])
     @ (if ja_sequence a then [JB_Sequence] else [])
     @ (if ja_arrival_time a then [JB_Arrival_Time] else [])
     @ [JB_Struct]"

definition jitter_all_arrays :: jitter_arrays where
  "jitter_all_arrays = \<lparr>ja_packets = True, ja_packet_len = True, ja_sequence = True, ja_arrival_time = True\<rparr>"

definition tinyrtc_jitter_buffer_destroy :: "jitter_buffer option \<Rightarrow> jitter_block list" where
  "tinyrtc_jitter_buffer_destroy jb =
     (case jb of None \<Rightarrow> [] | Some b \<Rightarrow> jitter_free_blocks jitter_all_arrays (jb_entries b))"

text \<open>The new buffer (\<open>None\<close> is \<^verbatim>\<open>NULL\<close>) and the blocks freed on the way out of a failure.\<close>

definition tinyrtc_jitter_buffer_create ::
  "bool \<Rightarrow> jitter_arrays \<Rightarrow> jitter_config option \<Rightarrow> jitter_buffer option \<times> jitter_block list" where
  "tinyrtc_jitter_buffer_create struct_ok a config =
     (case config of
        None \<Rightarrow> (None, [])
      | Some c \<Rightarrow>
          if \<not> struct_ok then (None, [])
          else if \<not> ja_packets a \<or> \<not> ja_packet_len a \<or> \<not> ja_sequence a \<or> \<not> ja_arrival_time a
          then (None, jitter_free_blocks a [])
          else (Some \<lparr>jb_config = c, jb_entries = [], jb_next_playout_time = 0\<rparr>, []))"

section \<open>Adding a packet\<close>

text \<open>Lines 556 to 570: drop the first entry when the buffer is full.\<close>

definition jitter_make_room :: "jitter_buffer \<Rightarrow> jitter_buffer option" where
  "jitter_make_room jb =
     (let size = unat (jc_buffer_size (jb_config jb)) in
      if size \<le> length (jb_entries jb) then
        (case jb_entries jb of
           [] \<Rightarrow> None
         | e # es \<Rightarrow> if size < length (jb_entries jb) then None else Some (jb\<lparr>jb_entries := es\<rparr>))
      else Some jb)"

text \<open>Lines 588 to 597: the first entry the new sequence number is before, modulo \<open>2 ^ 16\<close>.\<close>

fun jitter_insert_pos :: "u16 \<Rightarrow> jitter_entry list \<Rightarrow> nat" where
  "jitter_insert_pos seq [] = 0"
| "jitter_insert_pos seq (e # es) =
     (if sint (seq - je_sequence e) < 0 then 0 else Suc (jitter_insert_pos seq es))"

definition jitter_insert :: "jitter_entry \<Rightarrow> jitter_entry list \<Rightarrow> jitter_entry list" where
  "jitter_insert e es =
     (let pos = jitter_insert_pos (je_sequence e) es in take pos es @ [e] @ drop pos es)"

definition jitter_add :: "bool \<Rightarrow> bytes \<Rightarrow> u64 \<Rightarrow> jitter_buffer \<Rightarrow> (tinyrtc_error \<times> jitter_buffer) option" where
  "jitter_add alloc_ok packet timestamp jb0 = do {
     jb \<leftarrow> jitter_make_room jb0;
     if \<not> alloc_ok then Some (TINYRTC_ERROR_MEMORY, jb)
     else do {
       parsed \<leftarrow> rtp_parse_header packet;
       case parsed of
         None \<Rightarrow> Some (TINYRTC_ERROR_INVALID_ARG, jb)
       | Some header \<Rightarrow>
           if unat (jc_buffer_size (jb_config jb)) \<le> length (jb_entries jb) then None
           else
             (let es = jitter_insert \<lparr>je_packet = packet, je_sequence = hdr_sequence header,
                         je_arrival_time = timestamp\<rparr> (jb_entries jb);
                  jb' = jb\<lparr>jb_entries := es\<rparr> in
              Some (TINYRTC_OK,
                if length es = 1
                then jb'\<lparr>jb_next_playout_time := timestamp + ucast (jc_min_delay_ms (jb_config jb))\<rparr>
                else jb'))
     }
   }"

definition tinyrtc_jitter_buffer_add_packet ::
  "bool \<Rightarrow> jitter_buffer option \<Rightarrow> bytes option \<Rightarrow> u64 \<Rightarrow> (tinyrtc_error \<times> jitter_buffer option) option" where
  "tinyrtc_jitter_buffer_add_packet alloc_ok jb packet timestamp =
     (case (jb, packet) of
        (Some b, Some p) \<Rightarrow> map_option (\<lambda>(e, b'). (e, Some b')) (jitter_add alloc_ok p timestamp b)
      | _ \<Rightarrow> Some (TINYRTC_ERROR_INVALID_ARG, jb))"

section \<open>Taking a packet out\<close>

text \<open>The result, the bytes copied out (with \<^verbatim>\<open>out_len\<close> their length) and the new buffer.\<close>

definition jitter_get :: "nat \<Rightarrow> u64 \<Rightarrow> jitter_buffer \<Rightarrow> tinyrtc_error \<times> bytes option \<times> jitter_buffer" where
  "jitter_get max_len current_time_ms jb =
     (case jb_entries jb of
        [] \<Rightarrow> (TINYRTC_ERROR_NOT_FOUND, None, jb)
      | e # es \<Rightarrow>
          if current_time_ms < jb_next_playout_time jb then (TINYRTC_ERROR_NOT_FOUND, None, jb)
          else if length (je_packet e) > max_len then (TINYRTC_ERROR, None, jb)
          else
            (let next = current_time_ms + ucast (jc_min_delay_ms (jb_config jb));
                 next' = (if next - current_time_ms > ucast (jc_max_delay_ms (jb_config jb))
                          then current_time_ms + ucast (jc_max_delay_ms (jb_config jb))
                          else next) in
             (TINYRTC_OK, Some (je_packet e),
              jb\<lparr>jb_entries := es, jb_next_playout_time := next'\<rparr>)))"

text \<open>The pointer checks; the two booleans say that \<^verbatim>\<open>out_buffer\<close> and \<^verbatim>\<open>out_len\<close> are not \<^verbatim>\<open>NULL\<close>.\<close>

definition tinyrtc_jitter_buffer_get_packet ::
  "jitter_buffer option \<Rightarrow> bool \<Rightarrow> nat \<Rightarrow> u64 \<Rightarrow> bool \<Rightarrow> tinyrtc_error \<times> bytes option \<times> jitter_buffer option" where
  "tinyrtc_jitter_buffer_get_packet jb out_buffer max_len current_time_ms out_len =
     (case jb of
        None \<Rightarrow> (TINYRTC_ERROR_INVALID_ARG, None, None)
      | Some b \<Rightarrow>
          if \<not> out_buffer \<or> \<not> out_len then (TINYRTC_ERROR_INVALID_ARG, None, jb)
          else (case jitter_get max_len current_time_ms b of (e, out, b') \<Rightarrow> (e, out, Some b')))"

definition tinyrtc_jitter_buffer_get_delay :: "jitter_buffer option \<Rightarrow> u32" where
  "tinyrtc_jitter_buffer_get_delay jb =
     (case jb of
        None \<Rightarrow> 0
      | Some b \<Rightarrow>
          if jb_entries b = [] then 0
          else
            (let delay = word_of_nat (length (jb_entries b) * 33) in
             if delay > jc_max_delay_ms (jb_config b) then jc_max_delay_ms (jb_config b) else delay))"

section \<open>The entry count\<close>

definition jitter_inv :: "jitter_config \<Rightarrow> jitter_buffer \<Rightarrow> bool" where
  "jitter_inv c jb \<longleftrightarrow>
     jb_config jb = c \<and> length (jb_entries jb) \<le> unat (jc_buffer_size c)"

lemma jitter_insert_pos_le: "jitter_insert_pos seq es \<le> length es"
  by (induction es) auto

lemma length_jitter_insert [simp]: "length (jitter_insert e es) = Suc (length es)"
  using jitter_insert_pos_le [of "je_sequence e" es] by (simp add: jitter_insert_def Let_def)

lemma jitter_make_room_inv:
  assumes "jitter_inv c jb" and "jc_buffer_size c \<noteq> 0"
  obtains jb' where "jitter_make_room jb = Some jb'" and "jitter_inv c jb'"
    and "length (jb_entries jb') < unat (jc_buffer_size c)"
    and "jb_next_playout_time jb' = jb_next_playout_time jb"
    and "jb_entries jb' =
      (if length (jb_entries jb) = unat (jc_buffer_size c) then tl (jb_entries jb) else jb_entries jb)"
proof -
  from assms(1) have c: "jb_config jb = c" and l: "length (jb_entries jb) \<le> unat (jc_buffer_size c)"
    by (simp_all add: jitter_inv_def)
  show ?thesis
  proof (cases "length (jb_entries jb) = unat (jc_buffer_size c)")
    case True
    with assms(2) obtain e es where es: "jb_entries jb = e # es"
      by (cases "jb_entries jb") (simp_all add: unat_eq_0)
    with c True have "jitter_make_room jb = Some (jb\<lparr>jb_entries := es\<rparr>)"
      by (simp add: jitter_make_room_def Let_def)
    from that [OF this] c es True show ?thesis by (simp add: jitter_inv_def)
  next
    case False
    with c l have "jitter_make_room jb = Some jb"
      by (simp add: jitter_make_room_def Let_def)
    from that [OF this] c l False show ?thesis by (simp add: jitter_inv_def)
  qed
qed

lemma jitter_add_inv:
  assumes "jitter_inv c jb" and "jc_buffer_size c \<noteq> 0"
  shows "\<exists>e jb'. jitter_add ok p t jb = Some (e, jb') \<and> jitter_inv c jb'"
proof -
  obtain jb1 where r: "jitter_make_room jb = Some jb1" "jitter_inv c jb1"
    "length (jb_entries jb1) < unat (jc_buffer_size c)"
    using jitter_make_room_inv [OF assms] .
  obtain h where "rtp_parse_header p = Some h" using rtp_parse_header_safe by blast
  with r show ?thesis
    by (cases h) (auto simp: jitter_add_def jitter_inv_def Let_def)
qed

lemma jitter_get_inv: "jitter_inv c jb \<Longrightarrow> jitter_inv c (snd (snd (jitter_get n t jb)))"
  by (auto simp: jitter_get_def jitter_inv_def Let_def split: list.splits)

text \<open>A call of the buffer's interface, as a step of a machine.\<close>

datatype jitter_call = JB_Add bool bytes u64 | JB_Get nat u64

fun jitter_step :: "jitter_call \<Rightarrow> jitter_buffer \<Rightarrow> jitter_buffer option" where
  "jitter_step (JB_Add ok p t) jb = map_option snd (jitter_add ok p t jb)"
| "jitter_step (JB_Get n t) jb = Some (snd (snd (jitter_get n t jb)))"

interpretation jitter: safe_machine jitter_step
  "\<lambda>jb. jitter_inv c jb \<and> jc_buffer_size c \<noteq> 0" "\<lambda>_. True" for c
proof
  fix jb and e :: jitter_call
  assume i: "jitter_inv c jb \<and> jc_buffer_size c \<noteq> 0"
  show "\<exists>s'. jitter_step e jb = Some s' \<and> jitter_inv c s' \<and> jc_buffer_size c \<noteq> 0"
  proof (cases e)
    case (JB_Add ok p t)
    from i obtain r jb' where "jitter_add ok p t jb = Some (r, jb')" "jitter_inv c jb'"
      using jitter_add_inv by blast
    with i JB_Add show ?thesis by simp
  next
    case (JB_Get n t)
    with i show ?thesis by (simp add: jitter_get_inv)
  qed
qed

text \<open>A buffer created with no elements takes no packet: its arrays have no element 0 to drop.\<close>

lemma jitter_run_size_0:
  assumes "jb_entries jb = []" and "jc_buffer_size (jb_config jb) = 0"
  shows "run_machine jitter_step calls jb =
    (if \<exists>ok p t. JB_Add ok p t \<in> set calls then None else Some jb)"
proof (induction calls)
  case (Cons call calls)
  with assms show ?case
    by (cases call) (auto simp: jitter_add_def jitter_make_room_def jitter_get_def)
qed simp

section \<open>The order of the entries\<close>

text \<open>
  Sequence numbers are compared modulo \<open>2 ^ 16\<close>, which is no order on all of them.  It is one on
  every window of \<open>2 ^ 15\<close> consecutive numbers: from a base \<open>b\<close>, compare the offsets.
\<close>

definition seq_offset :: "u16 \<Rightarrow> jitter_entry \<Rightarrow> nat" where
  "seq_offset b e = unat (je_sequence e - b)"

definition in_window :: "u16 \<Rightarrow> jitter_entry \<Rightarrow> bool" where
  "in_window b e \<longleftrightarrow> seq_offset b e < 2 ^ 15"

lemma seq_diff_negative:
  assumes "in_window b e" and "in_window b f"
  shows "sint (je_sequence e - je_sequence f) < 0 \<longleftrightarrow> seq_offset b e < seq_offset b f"
proof -
  define x where "x = je_sequence e - b"
  define y where "y = je_sequence f - b"
  have "unat x < 2 ^ 15" "unat y < 2 ^ 15"
    using assms by (simp_all add: in_window_def seq_offset_def x_def y_def)
  then have x: "uint x < 2 ^ 15" and y: "uint y < 2 ^ 15"
    by (simp_all only: uint_less_power)
  have d: "je_sequence e - je_sequence f = x - y" by (simp add: x_def y_def)
  have "uint (x - y) = take_bit 16 (uint x - uint y)"
    by (simp add: uint_word_ariths(2) take_bit_eq_mod)
  then have "sint (x - y) = signed_take_bit 15 (take_bit 16 (uint x - uint y))"
    by (simp add: sint_uint)
  also have "\<dots> = signed_take_bit 15 (uint x - uint y)"
    by (simp only: signed_take_bit_take_bit) simp
  also have "\<dots> = uint x - uint y"
    using x y by (intro signed_take_bit_int_eq_self) (use uint_ge_0 [of x] uint_ge_0 [of y] in linarith)+
  finally have "sint (x - y) = uint x - uint y" .
  then show ?thesis
    unfolding d seq_offset_def x_def [symmetric] y_def [symmetric]
    by (simp add: word_less_nat_alt [symmetric] word_less_def)
qed

lemma jitter_insert_takeWhile:
  assumes "in_window b e" and "\<forall>f \<in> set es. in_window b f"
  shows "jitter_insert e es =
    takeWhile (\<lambda>f. seq_offset b f \<le> seq_offset b e) es @ [e]
    @ dropWhile (\<lambda>f. seq_offset b f \<le> seq_offset b e) es"
proof -
  have "jitter_insert_pos (je_sequence e) es = length (takeWhile (\<lambda>f. seq_offset b f \<le> seq_offset b e) es)"
    using assms(2) by (induction es) (auto simp: seq_diff_negative [OF assms(1)])
  then show ?thesis
    by (simp add: jitter_insert_def takeWhile_eq_take [symmetric] dropWhile_eq_drop [symmetric])
qed

text \<open>Inserting into the sorted buffer is stable sorting of the arrivals.\<close>

lemma jitter_insert_sort_key:
  assumes "\<forall>f \<in> set (e # es). in_window b f"
  shows "jitter_insert e (sort_key (seq_offset b) es) = sort_key (seq_offset b) (es @ [e])"
proof -
  let ?k = "seq_offset b"
  let ?s = "sort_key ?k es"
  let ?P = "\<lambda>f. ?k f \<le> ?k e"
  have i: "jitter_insert e ?s = takeWhile ?P ?s @ [e] @ dropWhile ?P ?s"
    using assms by (intro jitter_insert_takeWhile) auto
  have split: "?s = takeWhile ?P ?s @ dropWhile ?P ?s" by simp
  have sorted: "sorted (map ?k (takeWhile ?P ?s @ dropWhile ?P ?s))"
    by (simp only: takeWhile_dropWhile_id) simp
  have above: "?k e < ?k f" if "f \<in> set (dropWhile ?P ?s)" for f
  proof -
    from that obtain g gs where g: "dropWhile ?P ?s = g # gs" by (cases "dropWhile ?P ?s") auto
    then have "\<not> ?P g" using hd_dropWhile [of ?P ?s] by simp
    moreover have "?k g \<le> ?k f"
      using sorted that g by (auto simp: sorted_append)
    ultimately show ?thesis by simp
  qed
  have below: "?k f \<le> ?k e" if "f \<in> set (takeWhile ?P ?s)" for f
    using set_takeWhileD [OF that] by simp
  have "sort_key ?k (es @ [e]) = takeWhile ?P ?s @ [e] @ dropWhile ?P ?s"
  proof (rule properties_for_sort_key)
    have "mset ?s = mset (takeWhile ?P ?s) + mset (dropWhile ?P ?s)"
      by (subst split) (simp only: mset_append)
    then show "mset (takeWhile ?P ?s @ [e] @ dropWhile ?P ?s) = mset (es @ [e])"
      by simp
  next
    fix f assume "f \<in> set (takeWhile ?P ?s @ [e] @ dropWhile ?P ?s)"
    have s: "filter (\<lambda>x. ?k f = ?k x) ?s = filter (\<lambda>x. ?k f = ?k x) es"
      using sort_key_stable [of ?k "?k f" es] by (simp add: eq_commute)
    have d: "filter (\<lambda>x. ?k f = ?k x) (dropWhile ?P ?s) = []" if "?k f = ?k e"
      unfolding filter_empty_conv using above that by (metis less_irrefl)
    have "filter (\<lambda>x. ?k f = ?k x) ?s =
        filter (\<lambda>x. ?k f = ?k x) (takeWhile ?P ?s) @ filter (\<lambda>x. ?k f = ?k x) (dropWhile ?P ?s)"
      by (subst split) (simp only: filter_append)
    with s d show "filter (\<lambda>x. ?k f = ?k x) (takeWhile ?P ?s @ [e] @ dropWhile ?P ?s)
        = filter (\<lambda>x. ?k f = ?k x) (es @ [e])"
      by auto
  next
    show "sorted (map ?k (takeWhile ?P ?s @ [e] @ dropWhile ?P ?s))"
      using sorted unfolding map_append sorted_append by (auto dest: above below intro: less_imp_le)
  qed
  with i show ?thesis by simp
qed

text \<open>An arrival: the entry the buffer makes of a packet it accepts.\<close>

definition jitter_arrival :: "jitter_entry \<Rightarrow> bool" where
  "jitter_arrival e \<longleftrightarrow>
     (case rtp_parse_header (je_packet e) of
        Some (Some h) \<Rightarrow> hdr_sequence h = je_sequence e
      | _ \<Rightarrow> False)"

lemma jitter_add_accepts:
  assumes "jitter_inv c jb" and "length (jb_entries jb) < unat (jc_buffer_size c)" and "jitter_arrival e"
  obtains jb' where "jitter_add True (je_packet e) (je_arrival_time e) jb = Some (TINYRTC_OK, jb')"
    and "jb_entries jb' = jitter_insert e (jb_entries jb)" and "jitter_inv c jb'"
    and "jb_next_playout_time jb' =
      (if jb_entries jb = [] then je_arrival_time e + ucast (jc_min_delay_ms c) else jb_next_playout_time jb)"
proof -
  from assms(3) obtain h where h: "rtp_parse_header (je_packet e) = Some (Some h)"
    "hdr_sequence h = je_sequence e"
    by (auto simp: jitter_arrival_def split: option.splits)
  have room: "jitter_make_room jb = Some jb"
    using assms(1,2) by (simp add: jitter_make_room_def jitter_inv_def Let_def)
  have e: "\<lparr>je_packet = je_packet e, je_sequence = je_sequence e, je_arrival_time = je_arrival_time e\<rparr> = e"
    by simp
  have "jitter_add True (je_packet e) (je_arrival_time e) jb = Some (TINYRTC_OK,
      if jb_entries jb = []
      then jb\<lparr>jb_entries := jitter_insert e (jb_entries jb),
              jb_next_playout_time := je_arrival_time e + ucast (jc_min_delay_ms (jb_config jb))\<rparr>
      else jb\<lparr>jb_entries := jitter_insert e (jb_entries jb)\<rparr>)"
    using assms(1,2) by (simp add: jitter_add_def room h Let_def jitter_inv_def e)
  from that [OF this] assms(1,2) show ?thesis
    by (simp add: jitter_inv_def)
qed

definition jitter_adds :: "jitter_entry list \<Rightarrow> jitter_call list" where
  "jitter_adds es = map (\<lambda>e. JB_Add True (je_packet e) (je_arrival_time e)) es"

text \<open>Only the first packet of an empty buffer sets the playout time.\<close>

lemma jitter_adds_sorted:
  assumes "jitter_inv c jb" and "jb_entries jb = sort_key (seq_offset b) done"
    and "length (done @ es) \<le> unat (jc_buffer_size c)"
    and "\<forall>e \<in> set (done @ es). in_window b e" and "\<forall>e \<in> set es. jitter_arrival e"
  shows "\<exists>jb'. run_machine jitter_step (jitter_adds es) jb = Some jb' \<and>
           jb_entries jb' = sort_key (seq_offset b) (done @ es) \<and> jitter_inv c jb' \<and>
           jb_next_playout_time jb' =
             (if done = [] \<and> es \<noteq> [] then je_arrival_time (hd es) + ucast (jc_min_delay_ms c)
              else jb_next_playout_time jb)"
  using assms
proof (induction es arbitrary: jb "done")
  case Nil
  then show ?case by (simp add: jitter_adds_def)
next
  case (Cons e es)
  from Cons.prems obtain jb' where
      add: "jitter_add True (je_packet e) (je_arrival_time e) jb = Some (TINYRTC_OK, jb')"
    and es: "jb_entries jb' = jitter_insert e (jb_entries jb)" and inv: "jitter_inv c jb'"
    and next_time: "jb_next_playout_time jb' =
      (if jb_entries jb = [] then je_arrival_time e + ucast (jc_min_delay_ms c) else jb_next_playout_time jb)"
    by (elim jitter_add_accepts [of c jb e]) auto
  have "jb_entries jb' = sort_key (seq_offset b) (done @ [e])"
    unfolding es Cons.prems(2) using Cons.prems(4) by (intro jitter_insert_sort_key) auto
  moreover have "jb_entries jb = [] \<longleftrightarrow> done = []"
    unfolding Cons.prems(2) by (metis length_0_conv length_sort)
  ultimately show ?case
    using Cons.IH [OF inv, of "done @ [e]"] Cons.prems add next_time
    by (cases "done") (simp_all add: jitter_adds_def del: sort_key_simps)
qed

section \<open>Playing out\<close>

lemma jitter_next_playout:
  fixes now :: u64
  shows "(let next = now + ucast d in if next - now > ucast m then now + ucast m else next)
       = now + ucast (min d (m :: u32))"
  by (simp add: Let_def min_def not_less [symmetric] word_less_nat_alt del: not_less)

text \<open>The playout interval: the smaller of the two configured delays.\<close>

definition jitter_interval :: "jitter_config \<Rightarrow> u64" where
  "jitter_interval c = ucast (min (jc_min_delay_ms c) (jc_max_delay_ms c))"

lemma jitter_get_Cons:
  assumes "jb_entries jb = e # es" and "length (je_packet e) \<le> n"
  shows "jitter_get n t jb =
    (if t < jb_next_playout_time jb then (TINYRTC_ERROR_NOT_FOUND, None, jb)
     else (TINYRTC_OK, Some (je_packet e),
           jb\<lparr>jb_entries := es, jb_next_playout_time := t + jitter_interval (jb_config jb)\<rparr>))"
  using assms jitter_next_playout [of t "jc_min_delay_ms (jb_config jb)" "jc_max_delay_ms (jb_config jb)"]
  by (auto simp: jitter_get_def jitter_interval_def Let_def)

text \<open>Polling the buffer at the times \<open>ts\<close>: the packets handed out, each with its time, and what is left.\<close>

fun jitter_polls :: "nat \<Rightarrow> u64 list \<Rightarrow> jitter_buffer \<Rightarrow> (u64 \<times> bytes) list \<times> jitter_buffer" where
  "jitter_polls n [] jb = ([], jb)"
| "jitter_polls n (t # ts) jb =
     (case jitter_get n t jb of
        (_, handed, jb1) \<Rightarrow>
          (case jitter_polls n ts jb1 of
             (out, jb2) \<Rightarrow> ((case handed of None \<Rightarrow> out | Some p \<Rightarrow> (t, p) # out), jb2)))"

lemma jitter_polls_empty: "jb_entries jb = [] \<Longrightarrow> jitter_polls n ts jb = ([], jb)"
  by (induction ts) (simp_all add: jitter_get_def)

text \<open>What is handed out and what is left is what was there, in the same order, and the hand-outs keep
  the interval.\<close>

lemma jitter_polls_conserve:
  assumes "\<forall>e \<in> set (jb_entries jb). length (je_packet e) \<le> n" and "jitter_polls n ts jb = (out, jb')"
  shows "map snd out @ map je_packet (jb_entries jb') = map je_packet (jb_entries jb)"
    and "successively (\<lambda>t t'. t + jitter_interval (jb_config jb) \<le> t') (map fst out)"
    and "out \<noteq> [] \<Longrightarrow> jb_next_playout_time jb \<le> fst (hd out)"
proof -
  have "map snd out @ map je_packet (jb_entries jb') = map je_packet (jb_entries jb) \<and>
    successively (\<lambda>t t'. t + jitter_interval (jb_config jb) \<le> t') (map fst out) \<and>
    (out \<noteq> [] \<longrightarrow> jb_next_playout_time jb \<le> fst (hd out))"
    using assms
  proof (induction ts arbitrary: jb out)
    case Nil
    then show ?case by simp
  next
    case (Cons t ts)
    show ?case
    proof (cases "jb_entries jb")
      case Nil
      with Cons.prems(2) jitter_polls_empty [OF Nil] show ?thesis by simp
    next
      case (Cons e es)
      define jb1 where "jb1 = jb\<lparr>jb_entries := es, jb_next_playout_time := t + jitter_interval (jb_config jb)\<rparr>"
      from Cons Cons.prems(1) have "length (je_packet e) \<le> n" by simp
      note get = jitter_get_Cons [OF Cons this, of t, folded jb1_def]
      show ?thesis
      proof (cases "t < jb_next_playout_time jb")
        case True
        with get Cons.prems Cons.IH [of jb out] show ?thesis by (auto split: prod.splits)
      next
        case False
        with get Cons.prems(2) obtain out1 where
          o: "jitter_polls n ts jb1 = (out1, jb')" "out = (t, je_packet e) # out1"
          by (auto split: prod.splits)
        have "\<forall>e \<in> set (jb_entries jb1). length (je_packet e) \<le> n"
          using Cons Cons.prems(1) by (simp add: jb1_def)
        from Cons.IH [OF this o(1)] False o(2) Cons show ?thesis
          by (cases out1) (auto simp: jb1_def)
      qed
    qed
  qed
  then show "map snd out @ map je_packet (jb_entries jb') = map je_packet (jb_entries jb)"
    and "successively (\<lambda>t t'. t + jitter_interval (jb_config jb) \<le> t') (map fst out)"
    and "out \<noteq> [] \<Longrightarrow> jb_next_playout_time jb \<le> fst (hd out)" by blast+
qed

text \<open>Polls that respect the interval get a packet each, until the buffer is empty.\<close>

lemma jitter_polls_timely:
  assumes "\<forall>e \<in> set (jb_entries jb). length (je_packet e) \<le> n"
    and "successively (\<lambda>t t'. t + jitter_interval (jb_config jb) \<le> t') ts"
    and "ts \<noteq> [] \<Longrightarrow> jb_next_playout_time jb \<le> hd ts"
  shows "fst (jitter_polls n ts jb) = zip ts (map je_packet (jb_entries jb))"
  using assms
proof (induction ts arbitrary: jb)
  case Nil
  then show ?case by simp
next
  case (Cons t ts)
  show ?case
  proof (cases "jb_entries jb")
    case Nil
    with jitter_polls_empty [OF Nil] show ?thesis by simp
  next
    case (Cons e es)
    define jb1 where "jb1 = jb\<lparr>jb_entries := es, jb_next_playout_time := t + jitter_interval (jb_config jb)\<rparr>"
    from Cons Cons.prems(1) have "length (je_packet e) \<le> n" by simp
    note get = jitter_get_Cons [OF Cons this, of t, folded jb1_def]
    have "fst (jitter_polls n ts jb1) = zip ts (map je_packet (jb_entries jb1))"
      using Cons Cons.prems by (intro Cons.IH) (auto simp: jb1_def successively_Cons)
    with get Cons Cons.prems(3) show ?thesis
      by (auto simp: jb1_def split: prod.splits)
  qed
qed

section \<open>Properties\<close>

text \<open>C9: whatever packets arrive, valid or not, and whatever allocations fail, a sequence of calls
  makes the jitter buffer touch an array element outside its \<^verbatim>\<open>buffer_size\<close> elements in one case only:
  the buffer was created with \<^verbatim>\<open>buffer_size\<close> 0, which \<^verbatim>\<open>tinyrtc_jitter_buffer_create\<close> accepts, and a
  packet is added (the full-buffer branch then reads \<^verbatim>\<open>packets[0]\<close>).  In every other case the calls are
  defined and the buffer never holds more packets than \<^verbatim>\<open>buffer_size\<close>.\<close>
theorem jitter_buffer_safe:
  assumes "tinyrtc_jitter_buffer_create ok arrays (Some c) = (Some jb, freed)"
  shows "if jc_buffer_size c = 0 \<and> (\<exists>ok p t. JB_Add ok p t \<in> set calls)
     then run_machine jitter_step calls jb = None
     else \<exists>jb'. run_machine jitter_step calls jb = Some jb' \<and> jb_config jb' = c \<and>
       length (jb_entries jb') \<le> unat (jc_buffer_size c)"
proof (cases "jc_buffer_size c = 0")
  case True
  from assms have "jb_entries jb = []" "jb_config jb = c"
    by (auto simp: tinyrtc_jitter_buffer_create_def split: if_splits)
  with jitter_run_size_0 [of jb calls] True show ?thesis by auto
next
  case False
  from assms have "jitter_inv c jb"
    by (auto simp: tinyrtc_jitter_buffer_create_def jitter_inv_def split: if_splits)
  with jitter.run_safe [of c jb calls] False show ?thesis
    by (auto simp: jitter_inv_def)
qed

theorem jitter_buffer_safe_witness:
  "(\<exists>jb jb'. tinyrtc_jitter_buffer_create True jitter_all_arrays (Some tinyrtc_jitter_get_default_config) = (Some jb, [])
     \<and> run_machine jitter_step [JB_Add True [1, 2, 3] 5, JB_Get 100 7] jb = Some jb'
     \<and> length (jb_entries jb') \<le> 64) \<and>
   (\<exists>jb. tinyrtc_jitter_buffer_create True jitter_all_arrays
        (Some \<lparr>jc_min_delay_ms = 30, jc_max_delay_ms = 200, jc_buffer_size = 0\<rparr>) = (Some jb, [])
     \<and> run_machine jitter_step [JB_Get 100 7, JB_Add True [1, 2, 3] 5] jb = None)"
  using jitter_buffer_safe [of True jitter_all_arrays tinyrtc_jitter_get_default_config _ "[]"
      "[JB_Add True [1, 2, 3] 5, JB_Get 100 7]"]
    jitter_buffer_safe [of True jitter_all_arrays
      "\<lparr>jc_min_delay_ms = 30, jc_max_delay_ms = 200, jc_buffer_size = 0\<rparr>" _ "[]"
      "[JB_Get 100 7, JB_Add True [1, 2, 3] 5]"]
  by (auto simp: tinyrtc_jitter_buffer_create_def jitter_all_arrays_def tinyrtc_jitter_get_default_config_def
      ex_bool_eq simp del: run_machine.simps)

text \<open>C6: reordering is undone.  Packets whose sequence numbers lie within \<open>2 ^ 15\<close> of each other
  (across the wrap from 65535 to 0 too) may arrive in any order: as long as they fit, the buffer
  holds them in the order of their sequence numbers, duplicates in the order of arrival.\<close>
theorem jitter_buffer_orders_arrivals:
  assumes "jb_entries jb = []" and "length arrivals \<le> unat (jc_buffer_size (jb_config jb))"
    and "\<forall>e \<in> set arrivals. jitter_arrival e \<and> in_window base e"
  shows "\<exists>jb'. run_machine jitter_step (jitter_adds arrivals) jb = Some jb' \<and>
     jb_entries jb' = sort_key (seq_offset base) arrivals"
  using jitter_adds_sorted [of "jb_config jb" jb base "[]" arrivals] assms
  by (auto simp: jitter_inv_def)

definition jitter_example :: "u8 \<Rightarrow> u8 \<Rightarrow> jitter_entry" where
  "jitter_example hi lo = \<lparr>je_packet = [128, 96, hi, lo, 0, 0, 0, 0, 0, 0, 0, 7],
     je_sequence = push_bit 8 (ucast hi) OR ucast lo, je_arrival_time = 40\<rparr>"

lemma jitter_examples:
  "jitter_arrival (jitter_example 0 1)" "jitter_arrival (jitter_example 255 255)"
  "in_window 65535 (jitter_example 0 1)" "in_window 65535 (jitter_example 255 255)"
  "sort_key (seq_offset 65535) [jitter_example 0 1, jitter_example 255 255]
     = [jitter_example 255 255, jitter_example 0 1]"
  by (simp_all add: jitter_arrival_def jitter_example_def in_window_def seq_offset_def
      rtp_parse_header_def rd8_def rd16_def rd32_def rtp_read_csrcs.simps rtp_check_length_def)

lemma jitter_example_times:
  "je_arrival_time (jitter_example hi lo) = 40" "length (je_packet (jitter_example hi lo)) = 12"
  by (simp_all add: jitter_example_def)

theorem jitter_buffer_orders_arrivals_witness:
  "\<exists>jb'. run_machine jitter_step (jitter_adds [jitter_example 0 1, jitter_example 255 255])
        \<lparr>jb_config = tinyrtc_jitter_get_default_config, jb_entries = [], jb_next_playout_time = 0\<rparr> = Some jb' \<and>
     jb_entries jb' = [jitter_example 255 255, jitter_example 0 1]"
  using jitter_buffer_orders_arrivals [of "\<lparr>jb_config = tinyrtc_jitter_get_default_config, jb_entries = [],
      jb_next_playout_time = 0\<rparr>" "[jitter_example 0 1, jitter_example 255 255]" 65535]
  by (simp add: jitter_examples tinyrtc_jitter_get_default_config_def del: sort_key_simps)

text \<open>A full buffer gives up its first packet before it looks at the new one.  So a packet that is
  then refused, because it is no RTP packet or memory runs out, still costs a stored packet.\<close>
theorem jitter_add_full_loses_first:
  assumes "length (jb_entries jb) = unat (jc_buffer_size (jb_config jb))"
    and "jc_buffer_size (jb_config jb) \<noteq> 0"
    and "\<not> alloc_ok \<or> rtp_parse_header packet = Some None"
  shows "\<exists>e. jitter_add alloc_ok packet now jb = Some (e, jb\<lparr>jb_entries := tl (jb_entries jb)\<rparr>) \<and>
     e = (if alloc_ok then TINYRTC_ERROR_INVALID_ARG else TINYRTC_ERROR_MEMORY) \<and>
     Suc (length (tl (jb_entries jb))) = length (jb_entries jb)"
proof -
  from assms(1,2) obtain x xs where x: "jb_entries jb = x # xs"
    by (cases "jb_entries jb") (simp_all add: unat_eq_0)
  have "jitter_make_room jb = Some (jb\<lparr>jb_entries := xs\<rparr>)"
    using assms(1) x by (simp add: jitter_make_room_def Let_def)
  with assms(3) x show ?thesis by (simp add: jitter_add_def)
qed

theorem jitter_add_full_loses_first_witness:
  "let jb = \<lparr>jb_config = \<lparr>jc_min_delay_ms = 30, jc_max_delay_ms = 200, jc_buffer_size = 1\<rparr>,
        jb_entries = [jitter_example 0 1], jb_next_playout_time = 0\<rparr> in
   jitter_add True [1, 2, 3] 50 jb = Some (TINYRTC_ERROR_INVALID_ARG, jb\<lparr>jb_entries := []\<rparr>)"
  using jitter_add_full_loses_first [of "\<lparr>jb_config = \<lparr>jc_min_delay_ms = 30, jc_max_delay_ms = 200, jc_buffer_size = 1\<rparr>,
        jb_entries = [jitter_example 0 1], jb_next_playout_time = 0\<rparr>" True "[1, 2, 3]" 50]
  by (simp add: rtp_parse_header_def)



end
