(* ===== verification/Track.thy ===== *)
theory Track
  imports Sdp Jitter_Buffer
begin

text \<open>
  Media tracks, \<^verbatim>\<open>src/include/peer_connection_internal.h\<close> and the track functions of
  \<^verbatim>\<open>src/peer_connection.c\<close>: the track structure, the reassembly buffer of a received frame and
  the getters.  A track is known by its address; \<open>tk_reassembly\<close> is the used part of the buffer.
\<close>

record track =
  tk_address :: nat
  tk_kind :: track_kind
  tk_codec_id :: codec_id
  tk_mid :: string
  tk_payload_type :: int
  tk_clock_rate :: u32
  tk_is_local :: bool
  tk_next_sequence :: u16
  tk_jitter_buffer :: "jitter_buffer option"
  tk_reassembly :: bytes
  tk_reassembly_capacity :: nat
  tk_reassembly_timestamp :: u32
  tk_reassembly_active :: bool
  tk_frames_sent :: u64
  tk_bytes_sent :: u64
  tk_packets_received :: u64
  tk_frames_received :: u64

text \<open>\<^verbatim>\<open>calloc\<close>: audio and H.264 have the value 0.\<close>

definition track_zero :: "nat \<Rightarrow> track" where
  "track_zero address = \<lparr>tk_address = address, tk_kind = TINYRTC_TRACK_KIND_AUDIO, tk_codec_id = TINYRTC_CODEC_H264,
     tk_mid = [], tk_payload_type = 0, tk_clock_rate = 0, tk_is_local = False, tk_next_sequence = 0,
     tk_jitter_buffer = None, tk_reassembly = [], tk_reassembly_capacity = 0, tk_reassembly_timestamp = 0,
     tk_reassembly_active = False, tk_frames_sent = 0, tk_bytes_sent = 0, tk_packets_received = 0,
     tk_frames_received = 0\<rparr>"

section \<open>Reassembly\<close>

definition track_reset_reassembly :: "track \<Rightarrow> track" where
  "track_reset_reassembly track =
     track\<lparr>tk_reassembly := [], tk_reassembly_timestamp := 0, tk_reassembly_active := False\<rparr>"

text \<open>The loop that doubles the capacity.  The code never starts it at 0, where it would not end.\<close>

function grow_capacity :: "nat \<Rightarrow> nat \<Rightarrow> nat" where
  "grow_capacity capacity needed =
     (if capacity = 0 \<or> needed \<le> capacity then capacity else grow_capacity (capacity * 2) needed)"
  by pat_completeness auto
termination
  by (relation "measure (\<lambda>(capacity, needed). needed - capacity)") auto

declare grow_capacity.simps [simp del]

text \<open>The flag says whether the reallocation succeeds; the inner result is the C result.\<close>

definition track_append_reassembly :: "bool \<Rightarrow> bytes \<Rightarrow> track \<Rightarrow> bool \<times> track" where
  "track_append_reassembly realloc_ok data track =
     (let needed = length (tk_reassembly track) + length data in
      if data = [] then (True, track)
      else if needed \<le> tk_reassembly_capacity track then
        (True, track\<lparr>tk_reassembly := tk_reassembly track @ data\<rparr>)
      else if \<not> realloc_ok then (False, track)
      else
        (True, track\<lparr>tk_reassembly_capacity :=
            grow_capacity (if tk_reassembly_capacity track = 0 then 4096 else tk_reassembly_capacity track) needed,
          tk_reassembly := tk_reassembly track @ data\<rparr>))"

section \<open>Getters\<close>

definition tinyrtc_track_get_kind :: "track option \<Rightarrow> track_kind" where
  "tinyrtc_track_get_kind track = (case track of None \<Rightarrow> TINYRTC_TRACK_KIND_AUDIO | Some t \<Rightarrow> tk_kind t)"

definition tinyrtc_track_get_codec :: "track option \<Rightarrow> codec_id" where
  "tinyrtc_track_get_codec track = (case track of None \<Rightarrow> TINYRTC_CODEC_H264 | Some t \<Rightarrow> tk_codec_id t)"

definition tinyrtc_track_get_mid :: "track option \<Rightarrow> string" where
  "tinyrtc_track_get_mid track = (case track of None \<Rightarrow> [] | Some t \<Rightarrow> tk_mid t)"

section \<open>Creation\<close>

definition track_of_config :: "nat \<Rightarrow> track_config \<Rightarrow> track" where
  "track_of_config address config =
     (track_zero address)\<lparr>tk_kind := tc_kind config, tk_codec_id := tc_codec_id config,
       tk_payload_type := (if tc_payload_type config \<noteq> 0 then tc_payload_type config
                           else tinyrtc_codec_get_default_payload (tc_codec_id config)),
       tk_clock_rate := (if tc_clock_rate config \<noteq> 0 then tc_clock_rate config
                         else tinyrtc_codec_get_clock_rate (tc_codec_id config)),
       tk_mid := strncpy_into 16 (tc_mid config), tk_is_local := True\<rparr>"

definition track_of_media :: "nat \<Rightarrow> sdp_media \<Rightarrow> jitter_buffer \<Rightarrow> track" where
  "track_of_media address media jb =
     (track_zero address)\<lparr>tk_kind := sm_kind media, tk_codec_id := sm_codec_id media,
       tk_payload_type := sm_payload_type media, tk_clock_rate := sm_clock_rate media, tk_mid := sm_mid media,
       tk_is_local := False, tk_jitter_buffer := Some jb\<rparr>"

text \<open>The description of a local track in an offer: the number of channels is left to the codec.\<close>

definition track_offer_config :: "track \<Rightarrow> track_config" where
  "track_offer_config t =
     \<lparr>tc_kind = tk_kind t, tc_mid = tk_mid t, tc_codec_id = tk_codec_id t, tc_payload_type = tk_payload_type t,
      tc_clock_rate = tk_clock_rate t, tc_channels = 0\<rparr>"

section \<open>Invariant\<close>

text \<open>
  The reassembled bytes fit the buffer, a received track has a jitter buffer that holds no more than
  its arrays, and strings and integers fit their C types.
\<close>

definition track_ok :: "track \<Rightarrow> bool" where
  "track_ok t \<longleftrightarrow>
     length (tk_reassembly t) \<le> tk_reassembly_capacity t \<and> length (tk_mid t) < 16 \<and>
     - (2 ^ 31) \<le> tk_payload_type t \<and> tk_payload_type t < 2 ^ 31 \<and>
     (if tk_is_local t then tk_jitter_buffer t = None
      else \<exists>jb. tk_jitter_buffer t = Some jb \<and> jitter_inv tinyrtc_jitter_get_default_config jb)"

lemma grow_capacity_needed: "0 < capacity \<Longrightarrow> needed \<le> grow_capacity capacity needed"
  by (induction capacity needed rule: grow_capacity.induct) (subst grow_capacity.simps, simp)

text \<open>A new capacity stays below twice the size that is needed.\<close>

lemma grow_capacity_bound: "capacity \<le> b \<Longrightarrow> 2 * needed \<le> b + 1 \<Longrightarrow> grow_capacity capacity needed \<le> b"
proof (induction capacity needed rule: grow_capacity.induct)
  case (1 capacity needed)
  then show ?case
    by (cases "capacity = 0 \<or> needed \<le> capacity") (simp_all add: grow_capacity.simps [of capacity needed])
qed

lemma track_append_cases:
  obtains (kept) "track_append_reassembly ok data t = (data = [], t)" "data = [] \<or> \<not> ok"
  | (put) c where "track_append_reassembly ok data t
        = (True, t\<lparr>tk_reassembly_capacity := c, tk_reassembly := tk_reassembly t @ data\<rparr>)"
      "length (tk_reassembly t) + length data \<le> c"
proof -
  define needed where "needed = length (tk_reassembly t) + length data"
  consider "data = []" | "data \<noteq> []" "needed \<le> tk_reassembly_capacity t"
    | "data \<noteq> []" "tk_reassembly_capacity t < needed" by linarith
  then show ?thesis
  proof cases
    case 1
    with kept show ?thesis by (simp add: track_append_reassembly_def)
  next
    case 2
    with put [of "tk_reassembly_capacity t"] show ?thesis
      by (simp add: track_append_reassembly_def Let_def needed_def [symmetric])
  next
    case 3
    show ?thesis
    proof (cases ok)
      case True
      have "needed \<le> grow_capacity (if tk_reassembly_capacity t = 0 then 4096 else tk_reassembly_capacity t) needed"
        by (rule grow_capacity_needed) simp
      with put 3 True show ?thesis by (simp add: track_append_reassembly_def Let_def needed_def [symmetric])
    next
      case False
      with kept 3 show ?thesis by (simp add: track_append_reassembly_def Let_def needed_def [symmetric])
    qed
  qed
qed

lemma track_append_ok: "track_ok t \<Longrightarrow> track_ok (snd (track_append_reassembly ok data t))"
  by (rule track_append_cases [of ok data t]) (auto simp: track_ok_def)

lemma track_reset_ok: "track_ok t \<Longrightarrow> track_ok (track_reset_reassembly t)"
  by (simp add: track_ok_def track_reset_reassembly_def)

lemma track_ok_updates [simp]:
  "track_ok (t\<lparr>tk_next_sequence := q\<rparr>) = track_ok t" "track_ok (t\<lparr>tk_frames_sent := a\<rparr>) = track_ok t"
  "track_ok (t\<lparr>tk_bytes_sent := a\<rparr>) = track_ok t" "track_ok (t\<lparr>tk_packets_received := a\<rparr>) = track_ok t"
  "track_ok (t\<lparr>tk_frames_received := a\<rparr>) = track_ok t" "track_ok (t\<lparr>tk_reassembly_timestamp := s\<rparr>) = track_ok t"
  "track_ok (t\<lparr>tk_reassembly_active := b\<rparr>) = track_ok t"
  by (simp_all add: track_ok_def)

lemma track_of_config_ok:
  "track_config_int config \<Longrightarrow> track_ok (track_of_config address config)"
  using codec_defaults_fit [of "tc_codec_id config"]
  by (simp add: track_ok_def track_of_config_def track_zero_def track_config_int_def length_strncpy_into)

lemma track_of_media_ok:
  "sdp_media_fits media \<Longrightarrow> jitter_inv tinyrtc_jitter_get_default_config jb \<Longrightarrow> track_ok (track_of_media address media jb)"
  by (simp add: track_ok_def track_of_media_def track_zero_def sdp_media_fits_def)

lemma track_offer_config_int: "track_ok t \<Longrightarrow> track_config_int (track_offer_config t)"
  by (simp add: track_ok_def track_config_int_def track_offer_config_def)

end
