(* ===== verification/Srtp.thy ===== *)
theory Srtp
  imports Rtp
begin

text \<open>
  SRTP, \<^verbatim>\<open>src/media/srtp.c\<close>.  The two primitives of mbedtls are arguments: \<open>aes key block\<close> is
  AES-128 of one block in ECB mode, \<open>hmac key msg\<close> is HMAC-SHA1.  A packet is its whole buffer, as
  a byte list, and the length in use; a write or read outside the buffer is undefined.
\<close>

type_synonym cipher = "bytes \<Rightarrow> bytes \<Rightarrow> bytes"

record srtp_context =
  srtp_initialized :: bool
  srtp_key :: bytes
  srtp_salt :: bytes
  srtp_roc :: u32

definition SRTP_AUTH_TAG_LEN :: nat where "SRTP_AUTH_TAG_LEN = 10"

section \<open>Local helpers\<close>

definition xor_bytes :: "bytes \<Rightarrow> bytes \<Rightarrow> bytes" where
  "xor_bytes xs ys = map2 (XOR) xs ys"

text \<open>\<^verbatim>\<open>timingsafe_bcmp\<close> over \<open>n\<close> bytes: the \<open>OR\<close> of all differences.\<close>

definition timingsafe_bcmp :: "bytes \<Rightarrow> bytes \<Rightarrow> nat \<Rightarrow> u8" where
  "timingsafe_bcmp b1 b2 n = fold (\<lambda>i res. res OR (b1 ! i XOR b2 ! i)) [0..<n] 0"

text \<open>XOR of the first 14 bytes of a block with the salt.\<close>

definition srtp_salt_block :: "bytes \<Rightarrow> bytes \<Rightarrow> bytes" where
  "srtp_salt_block salt block = xor_bytes (take 14 block) (take 14 salt) @ drop 14 block"

definition srtp_derive_key :: "cipher \<Rightarrow> srtp_context \<Rightarrow> u32 \<Rightarrow> bytes" where
  "srtp_derive_key aes srtp ssrc =
     aes (srtp_key srtp) (srtp_salt_block (srtp_salt srtp) (replicate 12 0 @ wr32 ssrc))"

definition srtp_generate_auth :: "cipher \<Rightarrow> srtp_context \<Rightarrow> bytes \<Rightarrow> bytes" where
  "srtp_generate_auth hmac srtp packet = take SRTP_AUTH_TAG_LEN (hmac (srtp_key srtp) packet)"

definition srtp_verify_auth :: "cipher \<Rightarrow> srtp_context \<Rightarrow> bytes \<Rightarrow> bytes \<Rightarrow> bool" where
  "srtp_verify_auth hmac srtp packet tag \<longleftrightarrow>
     timingsafe_bcmp (hmac (srtp_key srtp) packet) tag SRTP_AUTH_TAG_LEN = 0"

text \<open>The increment of bytes 15 down to 8 of the counter block, carrying.\<close>

fun srtp_incr_at :: "nat \<Rightarrow> bytes \<Rightarrow> bytes" where
  "srtp_incr_at 0 cb = cb"
| "srtp_incr_at (Suc i) cb =
     (if Suc i < 8 then cb
      else
        (let cb' = cb[Suc i := cb ! Suc i + 1] in
         if cb' ! Suc i \<noteq> 0 then cb' else srtp_incr_at i cb'))"

text \<open>The loop over the 16-byte blocks of the payload; \<open>counter\<close> only guards the increment.\<close>

function srtp_ctr :: "(bytes \<Rightarrow> bytes) \<Rightarrow> bytes \<Rightarrow> u64 \<Rightarrow> bytes \<Rightarrow> bytes" where
  "srtp_ctr enc cb counter payload =
     (if payload = [] then []
      else xor_bytes (take 16 payload) (enc cb)
           @ srtp_ctr enc (if counter + 1 > 0 then srtp_incr_at 15 cb else cb) (counter + 1)
               (drop 16 payload))"
  by pat_completeness auto
termination
  by (relation "measure (\<lambda>(e, cb, c, p). length p)") auto

declare srtp_ctr.simps [simp del]

text \<open>The payload under the session key of the packet's SSRC; the counter block starts at the salt.\<close>

definition srtp_crypt_payload :: "cipher \<Rightarrow> srtp_context \<Rightarrow> u32 \<Rightarrow> bytes \<Rightarrow> bytes" where
  "srtp_crypt_payload aes srtp ssrc payload =
     srtp_ctr (aes (srtp_derive_key aes srtp ssrc))
       (srtp_salt_block (srtp_salt srtp) (replicate 16 0)) 0 payload"

section \<open>Public functions\<close>

definition srtp_init :: "bool \<Rightarrow> bytes option \<Rightarrow> bytes option \<Rightarrow> srtp_context option option" where
  "srtp_init alloc_ok key salt =
     (case (key, salt) of
        (Some k, Some s) \<Rightarrow>
          if \<not> alloc_ok then Some None
          else do {
            k' \<leftarrow> rd_bytes k 0 16;
            s' \<leftarrow> rd_bytes s 0 14;
            Some (Some \<lparr>srtp_initialized = True, srtp_key = k', srtp_salt = s', srtp_roc = 0\<rparr>)
          }
      | _ \<Rightarrow> Some None)"

text \<open>
  \<^verbatim>\<open>srtp_encrypt_packet\<close> for arguments that are not \<^verbatim>\<open>NULL\<close>: the result, the buffer, the length and
  the context afterwards.  \<^verbatim>\<open>payload_len\<close> wraps for a packet shorter than 12 bytes, and the cipher
  loop then runs out of the buffer.
\<close>

definition srtp_encrypt_packet ::
  "cipher \<Rightarrow> cipher \<Rightarrow> srtp_context \<Rightarrow> bytes \<Rightarrow> nat \<Rightarrow> nat \<Rightarrow> (tinyrtc_error \<times> bytes \<times> nat \<times> srtp_context) option"
  where
  "srtp_encrypt_packet aes hmac srtp packet original_len max_len =
     (if size_t (int (original_len + SRTP_AUTH_TAG_LEN)) > max_len
      then Some (TINYRTC_ERROR, packet, original_len, srtp)
      else do {
        ssrc \<leftarrow> rd32 packet 8;
        if original_len < 12 then None
        else do {
          header \<leftarrow> rd_bytes packet 0 12;
          payload \<leftarrow> rd_bytes packet 12 (original_len - 12);
          let body = header @ srtp_crypt_payload aes srtp ssrc payload;
          if length packet < original_len + SRTP_AUTH_TAG_LEN then None
          else Some (TINYRTC_OK,
                 body @ srtp_generate_auth hmac srtp body @ drop (original_len + SRTP_AUTH_TAG_LEN) packet,
                 original_len + SRTP_AUTH_TAG_LEN,
                 srtp\<lparr>srtp_roc := srtp_roc srtp + 1\<rparr>)
        }
      })"

text \<open>The result, the buffer, \<^verbatim>\<open>*output_len\<close> where it is written, and the context.\<close>

definition srtp_decrypt_packet ::
  "cipher \<Rightarrow> cipher \<Rightarrow> srtp_context \<Rightarrow> bytes \<Rightarrow> nat
     \<Rightarrow> (tinyrtc_error \<times> bytes \<times> nat option \<times> srtp_context) option"
  where
  "srtp_decrypt_packet aes hmac srtp packet len =
     (if len < 12 + SRTP_AUTH_TAG_LEN then Some (TINYRTC_ERROR, packet, None, srtp)
      else do {
        let packet_len_without_auth = len - SRTP_AUTH_TAG_LEN;
        body \<leftarrow> rd_bytes packet 0 packet_len_without_auth;
        received_tag \<leftarrow> rd_bytes packet packet_len_without_auth SRTP_AUTH_TAG_LEN;
        if \<not> srtp_verify_auth hmac srtp body received_tag then Some (TINYRTC_ERROR, packet, None, srtp)
        else do {
          ssrc \<leftarrow> rd32 packet 8;
          Some (TINYRTC_OK,
            take 12 packet @ srtp_crypt_payload aes srtp ssrc (drop 12 body)
              @ drop packet_len_without_auth packet,
            Some packet_len_without_auth,
            srtp\<lparr>srtp_roc := srtp_roc srtp + 1\<rparr>)
        }
      })"

section \<open>Counter mode\<close>

lemma length_xor_bytes [simp]: "length (xor_bytes xs ys) = min (length xs) (length ys)"
  by (simp add: xor_bytes_def)

lemma xor_bytes_twice: "length xs \<le> length ks \<Longrightarrow> xor_bytes (xor_bytes xs ks) ks = xs"
proof (induction xs arbitrary: ks)
  case Nil
  then show ?case by (simp add: xor_bytes_def)
next
  case (Cons x xs)
  then show ?case by (cases ks) (simp_all add: xor_bytes_def xor.assoc)
qed

text \<open>Counter mode is XOR with a keystream that depends on the length only.\<close>

fun srtp_keystream :: "(bytes \<Rightarrow> bytes) \<Rightarrow> bytes \<Rightarrow> u64 \<Rightarrow> nat \<Rightarrow> bytes" where
  "srtp_keystream enc cb counter 0 = []"
| "srtp_keystream enc cb counter (Suc n) =
     enc cb @ srtp_keystream enc (if counter + 1 > 0 then srtp_incr_at 15 cb else cb) (counter + 1) n"

lemma xor_bytes_append:
  "length xs = length ks \<Longrightarrow> xor_bytes (xs @ ys) (ks @ ls) = xor_bytes xs ks @ xor_bytes ys ls"
  by (simp add: xor_bytes_def)

lemma length_srtp_keystream:
  "(\<And>b. length (enc b) = 16) \<Longrightarrow> length (srtp_keystream enc cb c n) = 16 * n"
  by (induction n arbitrary: cb c) simp_all

lemma xor_bytes_prefix:
  "length xs \<le> length ks \<Longrightarrow> xor_bytes xs (ks @ ls) = xor_bytes xs ks"
proof (induction xs arbitrary: ks)
  case Nil
  then show ?case by (simp add: xor_bytes_def)
next
  case (Cons x xs)
  then show ?case by (cases ks) (simp_all add: xor_bytes_def)
qed

lemma srtp_ctr_keystream:
  assumes "\<And>b. length (enc b) = 16"
  shows "length p \<le> 16 * n \<Longrightarrow> srtp_ctr enc cb c p = xor_bytes p (srtp_keystream enc cb c n)"
proof (induction n arbitrary: cb c p)
  case 0
  then show ?case by (subst srtp_ctr.simps) (simp add: xor_bytes_def)
next
  case (Suc n)
  show ?case
  proof (cases "16 \<le> length p")
    case True
    then have "p \<noteq> []" by auto
    from Suc.IH [of "drop 16 p"] Suc.prems \<open>p \<noteq> []\<close>
    have "srtp_ctr enc cb c p = xor_bytes (take 16 p) (enc cb)
        @ xor_bytes (drop 16 p) (srtp_keystream enc (if c + 1 > 0 then srtp_incr_at 15 cb else cb) (c + 1) n)"
      by (subst srtp_ctr.simps) simp
    also have "\<dots> = xor_bytes (take 16 p @ drop 16 p) (srtp_keystream enc cb c (Suc n))"
      using True assms by (subst xor_bytes_append [symmetric]) simp_all
    finally show ?thesis by simp
  next
    case False
    then show ?thesis
      using assms
      by (subst srtp_ctr.simps) (auto simp: xor_bytes_prefix srtp_ctr.simps [of _ _ _ "[]"], simp add: xor_bytes_def)
  qed
qed

lemma length_srtp_ctr:
  assumes "\<And>b. length (enc b) = 16"
  shows "length (srtp_ctr enc cb c p) = length p"
  using srtp_ctr_keystream [of enc p "length p" cb c, OF assms] length_srtp_keystream [of enc cb c "length p", OF assms]
  by simp

lemma srtp_ctr_twice:
  assumes "\<And>b. length (enc b) = 16"
  shows "srtp_ctr enc cb c (srtp_ctr enc cb c p) = p"
proof -
  have k: "length p \<le> length (srtp_keystream enc cb c (length p))"
    using length_srtp_keystream [of enc cb c "length p", OF assms] by simp
  have "srtp_ctr enc cb c (srtp_ctr enc cb c p)
      = xor_bytes (srtp_ctr enc cb c p) (srtp_keystream enc cb c (length p))"
    by (rule srtp_ctr_keystream [OF assms]) (simp add: length_srtp_ctr [OF assms])
  also have "\<dots> = xor_bytes (xor_bytes p (srtp_keystream enc cb c (length p))) (srtp_keystream enc cb c (length p))"
    by (simp add: srtp_ctr_keystream [of enc p "length p", OF assms])
  also have "\<dots> = p" by (rule xor_bytes_twice [OF k])
  finally show ?thesis .
qed

section \<open>Authentication\<close>

lemma or_eq_0: "(a :: u8) OR b = 0 \<longleftrightarrow> a = 0 \<and> b = 0"
  by (auto simp: bit_eq_iff bit_simps)

lemma xor_eq_0: "(a :: u8) XOR b = 0 \<longleftrightarrow> a = b"
  by (auto simp: bit_eq_iff bit_simps)

lemma timingsafe_bcmp_eq_0: "timingsafe_bcmp a b n = 0 \<longleftrightarrow> (\<forall>i < n. a ! i = b ! i)"
  by (induction n) (auto simp: timingsafe_bcmp_def or_eq_0 xor_eq_0 less_Suc_eq)

lemma srtp_verify_auth_iff:
  assumes "10 \<le> length (hmac (srtp_key srtp) p)" and "length tag = 10"
  shows "srtp_verify_auth hmac srtp p tag \<longleftrightarrow> tag = srtp_generate_auth hmac srtp p"
  using assms
  by (auto simp: srtp_verify_auth_def srtp_generate_auth_def SRTP_AUTH_TAG_LEN_def timingsafe_bcmp_eq_0
      list_eq_iff_nth_eq)

section \<open>The packet\<close>

lemma length_srtp_crypt_payload:
  "(\<And>k b. length (aes k b) = 16) \<Longrightarrow> length (srtp_crypt_payload aes srtp ssrc p) = length p"
  by (simp add: srtp_crypt_payload_def length_srtp_ctr)

lemma srtp_crypt_payload_twice:
  "(\<And>k b. length (aes k b) = 16) \<Longrightarrow>
   srtp_crypt_payload aes srtp ssrc (srtp_crypt_payload aes srtp ssrc p) = p"
  by (simp add: srtp_crypt_payload_def srtp_ctr_twice)

lemma srtp_crypt_payload_context:
  "srtp_key rx = srtp_key tx \<Longrightarrow> srtp_salt rx = srtp_salt tx \<Longrightarrow>
   srtp_crypt_payload aes rx ssrc p = srtp_crypt_payload aes tx ssrc p"
  by (simp add: srtp_crypt_payload_def srtp_derive_key_def)

lemma srtp_generate_auth_context:
  "srtp_key rx = srtp_key tx \<Longrightarrow> srtp_generate_auth hmac rx p = srtp_generate_auth hmac tx p"
  by (simp add: srtp_generate_auth_def)

lemma rd32_take12: "12 \<le> length p \<Longrightarrow> rd32 (take 12 p @ ys) 8 = rd32 p 8"
  by (simp add: rd32_Some nth_append)

text \<open>The buffer a successful encryption leaves.\<close>

definition srtp_protected :: "cipher \<Rightarrow> srtp_context \<Rightarrow> bytes \<Rightarrow> nat \<Rightarrow> bytes" where
  "srtp_protected aes srtp packet n =
     take 12 packet @ srtp_crypt_payload aes srtp (the (rd32 packet 8)) (take (n - 12) (drop 12 packet))"

lemma srtp_encrypt_ok:
  assumes "12 \<le> n" and "n + 10 \<le> max_len" and "max_len \<le> length packet" and "max_len < 2 ^ 64"
  shows "srtp_encrypt_packet aes hmac srtp packet n max_len =
    Some (TINYRTC_OK,
      srtp_protected aes srtp packet n @ srtp_generate_auth hmac srtp (srtp_protected aes srtp packet n)
        @ drop (n + 10) packet,
      n + 10, srtp\<lparr>srtp_roc := srtp_roc srtp + 1\<rparr>)"
proof -
  have s: "size_t (int (n + 10)) = n + 10" using assms by (intro size_t_int) simp
  have l: "12 \<le> length packet" "8 + 4 \<le> length packet" using assms by simp_all
  obtain v where v: "rd32 packet 8 = Some v" using be32.dec_in_bounds [OF l(2)] by blast
  show ?thesis
    using assms l s
    by (simp add: srtp_encrypt_packet_def SRTP_AUTH_TAG_LEN_def v rd_bytes_def Let_def srtp_protected_def)
qed

lemma length_srtp_protected:
  "(\<And>k b. length (aes k b) = 16) \<Longrightarrow> 12 \<le> n \<Longrightarrow> n \<le> length packet \<Longrightarrow>
   length (srtp_protected aes srtp packet n) = n"
  by (simp add: srtp_protected_def length_srtp_crypt_payload)

lemma length_srtp_generate_auth:
  "10 \<le> length (hmac (srtp_key srtp) p) \<Longrightarrow> length (srtp_generate_auth hmac srtp p) = 10"
  by (simp add: srtp_generate_auth_def SRTP_AUTH_TAG_LEN_def)

lemma srtp_decrypt_cases:
  assumes h: "\<And>k m. length (hmac k m) = 20" and len: "22 \<le> len" "len \<le> length packet"
  shows "srtp_decrypt_packet aes hmac srtp packet len =
    (if take 10 (drop (len - 10) packet) = srtp_generate_auth hmac srtp (take (len - 10) packet)
     then Some (TINYRTC_OK,
       srtp_protected aes srtp packet (len - 10) @ drop (len - 10) packet,
       Some (len - 10), srtp\<lparr>srtp_roc := srtp_roc srtp + 1\<rparr>)
     else Some (TINYRTC_ERROR, packet, None, srtp))"
proof -
  have l: "8 + 4 \<le> length packet" using len by simp
  obtain v where v: "rd32 packet 8 = Some v" using be32.dec_in_bounds [OF l] by blast
  have tag: "srtp_verify_auth hmac srtp (take (len - 10) packet) (take 10 (drop (len - 10) packet)) \<longleftrightarrow>
    take 10 (drop (len - 10) packet) = srtp_generate_auth hmac srtp (take (len - 10) packet)"
    using len by (intro srtp_verify_auth_iff) (simp_all add: h)
  have d: "drop 12 (take (len - 10) packet) = take (len - 10 - 12) (drop 12 packet)"
    by (simp add: drop_take)
  have le: "0 + (len - 10) \<le> length packet" "len - 10 + 10 \<le> length packet" "\<not> len < 12 + 10"
    using len by linarith+
  from rd_bytes_Some [OF le(1)] rd_bytes_Some [OF le(2)] le(3) tag show ?thesis
    unfolding srtp_decrypt_packet_def SRTP_AUTH_TAG_LEN_def
    by (simp add: Let_def v srtp_protected_def d)
qed

section \<open>Properties\<close>

text \<open>C7: what one side protects the other side recovers.  For AES with 16-byte blocks and
  HMAC-SHA1 with 20-byte tags, contexts of equal key and salt, and an RTP packet of at least 12
  bytes with room for the tag: encryption leaves the RTP header in the clear and adds ten
  bytes, and decryption of the result returns the original packet and length.\<close>
theorem srtp_roundtrip:
  assumes aes: "\<And>k b. length (aes k b) = 16" and hmac: "\<And>k m. length (hmac k m) = 20"
    and keys: "srtp_key rx = srtp_key tx" "srtp_salt rx = srtp_salt tx"
    and len: "12 \<le> n" "n + 10 \<le> max_len" "max_len \<le> length packet" "max_len < 2 ^ 64"
  shows "\<exists>buf tx'. srtp_encrypt_packet aes hmac tx packet n max_len = Some (TINYRTC_OK, buf, n + 10, tx') \<and>
     length buf = length packet \<and> take 12 buf = take 12 packet \<and>
     (\<exists>out rx'. srtp_decrypt_packet aes hmac rx buf (n + 10) = Some (TINYRTC_OK, out, Some n, rx') \<and>
        take n out = take n packet)"
proof -
  define body where "body = srtp_protected aes tx packet n"
  define buf where "buf = body @ srtp_generate_auth hmac tx body @ drop (n + 10) packet"
  have "n \<le> length packet" using len by simp
  then have lb: "length body = n"
    unfolding body_def using len(1) by (intro length_srtp_protected aes)
  have lt: "length (srtp_generate_auth hmac tx body) = 10"
    by (rule length_srtp_generate_auth) (simp add: hmac)
  have lbuf: "length buf = length packet" using len lb lt by (simp add: buf_def)
  have hd12: "take 12 buf = take 12 packet"
    using len by (simp add: buf_def body_def srtp_protected_def)
  have "take 10 (drop (n + 10 - 10) buf) = srtp_generate_auth hmac rx (take (n + 10 - 10) buf)"
    using lb lt by (simp add: buf_def srtp_generate_auth_context [OF keys(1)])
  moreover have "22 \<le> n + 10" "n + 10 \<le> length buf" using len lbuf by simp_all
  ultimately have dec: "srtp_decrypt_packet aes hmac rx buf (n + 10) =
      Some (TINYRTC_OK, srtp_protected aes rx buf n @ drop n buf, Some n, rx\<lparr>srtp_roc := srtp_roc rx + 1\<rparr>)"
    using srtp_decrypt_cases [of hmac "n + 10" buf aes rx, OF hmac] by simp
  have r: "rd32 buf 8 = rd32 packet 8"
    using rd32_take12 [of packet] len
    by (simp add: buf_def body_def srtp_protected_def)
  have "take (n - 12) (drop 12 buf) =
      srtp_crypt_payload aes tx (the (rd32 packet 8)) (take (n - 12) (drop 12 packet))"
    using len lb by (simp add: buf_def body_def srtp_protected_def length_srtp_crypt_payload [OF aes])
  then have "srtp_protected aes rx buf n = take 12 packet @ take (n - 12) (drop 12 packet)"
    unfolding srtp_protected_def [of aes rx] r hd12
    by (simp add: srtp_crypt_payload_context [OF keys] srtp_crypt_payload_twice [OF aes])
  also have "\<dots> = take n packet"
    using len by (metis le_add_diff_inverse take_add)
  finally have p: "srtp_protected aes rx buf n = take n packet" .
  have "take n (take n packet @ drop n buf) = take n packet"
    using len by simp
  with srtp_encrypt_ok [OF len, of aes hmac tx] dec lbuf hd12 show ?thesis
    unfolding body_def [symmetric] buf_def [symmetric] p by blast
qed

definition toy_cipher :: "nat \<Rightarrow> cipher" where
  "toy_cipher n k m = take n (m @ replicate n (fold (+) (k @ m) 0))"

lemma length_toy_cipher [simp]: "length (toy_cipher n k m) = n"
  by (simp add: toy_cipher_def)

definition srtp_example :: srtp_context where
  "srtp_example = \<lparr>srtp_initialized = True, srtp_key = replicate 16 3, srtp_salt = replicate 14 5, srtp_roc = 0\<rparr>"

theorem srtp_roundtrip_witness:
  "\<exists>buf tx'. srtp_encrypt_packet (toy_cipher 16) (toy_cipher 20) srtp_example (replicate 40 7) 30 40
       = Some (TINYRTC_OK, buf, 40, tx') \<and>
     (\<exists>out rx'. srtp_decrypt_packet (toy_cipher 16) (toy_cipher 20) srtp_example buf 40
       = Some (TINYRTC_OK, out, Some 30, rx') \<and> take 30 out = replicate 30 7)"
  using srtp_roundtrip [of "toy_cipher 16" "toy_cipher 20" srtp_example srtp_example 30 40 "replicate 40 7"]
  by (auto simp: min_def)

text \<open>C14: a packet is accepted exactly when its last ten bytes are the tag of the bytes before
  them; every other packet is refused with buffer and context untouched.\<close>
theorem srtp_decrypt_authenticates:
  assumes "\<And>k m. length (hmac k m) = 20" and "len \<le> length packet"
  shows "\<exists>e out n srtp'. srtp_decrypt_packet aes hmac srtp packet len = Some (e, out, n, srtp') \<and>
     (e = TINYRTC_OK \<longleftrightarrow> 22 \<le> len \<and>
        take 10 (drop (len - 10) packet) = take 10 (hmac (srtp_key srtp) (take (len - 10) packet))) \<and>
     (e \<noteq> TINYRTC_OK \<longrightarrow> e = TINYRTC_ERROR \<and> out = packet \<and> n = None \<and> srtp' = srtp)"
proof (cases "22 \<le> len")
  case True
  from srtp_decrypt_cases [of hmac, OF assms(1) True assms(2), of aes srtp] True show ?thesis
    by (simp add: srtp_generate_auth_def SRTP_AUTH_TAG_LEN_def)
next
  case False
  then show ?thesis by (simp add: srtp_decrypt_packet_def SRTP_AUTH_TAG_LEN_def)
qed

theorem srtp_decrypt_authenticates_witness:
  "\<exists>out n srtp'. srtp_decrypt_packet (toy_cipher 16) (toy_cipher 20) srtp_example
     (replicate 20 1 @ replicate 10 2) 30 = Some (TINYRTC_ERROR, out, n, srtp')"
  using srtp_decrypt_authenticates [of "toy_cipher 20" 30 "replicate 20 1 @ replicate 10 2" "toy_cipher 16" srtp_example,
      OF length_toy_cipher]
  by (auto simp: toy_cipher_def)

lemma xor_bytes_cancel:
  "length xs = length ys \<Longrightarrow> length xs \<le> length ks \<Longrightarrow>
   xor_bytes (xor_bytes xs ks) (xor_bytes ys ks) = xor_bytes xs ys"
proof (induction xs ys arbitrary: ks rule: list_induct2)
  case Nil
  then show ?case by (simp add: xor_bytes_def)
next
  case (Cons x xs y ys)
  then show ?case by (cases ks) (simp_all add: xor_bytes_def ac_simps)
qed

lemma srtp_crypt_payload_xor:
  assumes aes: "\<And>k b. length (aes k b) = 16" and l: "length p = length q"
    and ctx: "srtp_key tx' = srtp_key tx" "srtp_salt tx' = srtp_salt tx"
  shows "xor_bytes (srtp_crypt_payload aes tx ssrc p) (srtp_crypt_payload aes tx' ssrc q) = xor_bytes p q"
proof -
  define enc where "enc = aes (srtp_derive_key aes tx ssrc)"
  define ks where "ks = srtp_keystream enc (srtp_salt_block (srtp_salt tx) (replicate 16 0)) 0 (length p)"
  have e: "length (enc b) = 16" for b by (simp add: enc_def aes)
  have c: "srtp_crypt_payload aes tx ssrc r = xor_bytes r ks" if "length r = length p" for r
    unfolding srtp_crypt_payload_def enc_def [symmetric] ks_def
    by (rule srtp_ctr_keystream [OF e]) (simp add: that)
  have "length p \<le> length ks"
    unfolding ks_def using length_srtp_keystream [of enc, OF e] by simp
  then show ?thesis
    unfolding srtp_crypt_payload_context [OF ctx] using l by (simp add: c xor_bytes_cancel)
qed

text \<open>C25: the keystream depends on nothing but key, salt and SSRC: the roll-over counter and the
  sequence number do not enter it.  So two packets of one stream, protected one after the
  other, leak the XOR of their plaintexts.\<close>
theorem srtp_keystream_reused:
  assumes "\<And>k b. length (aes k b) = 16"
    and "12 \<le> n" and "n + 10 \<le> max_len" and "max_len < 2 ^ 64"
    and "max_len \<le> length packet1" and "max_len \<le> length packet2"
    and "rd32 packet1 8 = rd32 packet2 8"
  shows "\<exists>buf1 tx1 buf2 tx2.
     srtp_encrypt_packet aes hmac tx packet1 n max_len = Some (TINYRTC_OK, buf1, n + 10, tx1) \<and>
     srtp_encrypt_packet aes hmac tx1 packet2 n max_len = Some (TINYRTC_OK, buf2, n + 10, tx2) \<and>
     xor_bytes (take (n - 12) (drop 12 buf1)) (take (n - 12) (drop 12 buf2)) =
     xor_bytes (take (n - 12) (drop 12 packet1)) (take (n - 12) (drop 12 packet2))"
proof -
  let ?tx = "tx\<lparr>srtp_roc := srtp_roc tx + 1\<rparr>"
  have body: "take (n - 12) (drop 12 (srtp_protected aes c packet n @ ys)) =
      srtp_crypt_payload aes c (the (rd32 packet 8)) (take (n - 12) (drop 12 packet))"
    if "max_len \<le> length packet" for c packet ys
    using that assms(2,3) by (simp add: srtp_protected_def length_srtp_crypt_payload [OF assms(1)])
  show ?thesis
  proof (intro exI conjI)
    show "xor_bytes
        (take (n - 12) (drop 12 (srtp_protected aes tx packet1 n @ srtp_generate_auth hmac tx (srtp_protected aes tx packet1 n) @ drop (n + 10) packet1)))
        (take (n - 12) (drop 12 (srtp_protected aes ?tx packet2 n @ srtp_generate_auth hmac ?tx (srtp_protected aes ?tx packet2 n) @ drop (n + 10) packet2))) =
      xor_bytes (take (n - 12) (drop 12 packet1)) (take (n - 12) (drop 12 packet2))"
      unfolding body [OF assms(5)] body [OF assms(6)] assms(7)
      by (rule srtp_crypt_payload_xor [OF assms(1)]) (use assms(2,3,5,6) in simp_all)
  qed (rule srtp_encrypt_ok [OF assms(2,3,5,4)] srtp_encrypt_ok [OF assms(2,3,6,4)])+
qed

theorem srtp_keystream_reused_witness:
  "\<exists>buf1 tx1 buf2 tx2.
     srtp_encrypt_packet (toy_cipher 16) (toy_cipher 20) srtp_example (replicate 30 1) 20 30
       = Some (TINYRTC_OK, buf1, 30, tx1) \<and>
     srtp_encrypt_packet (toy_cipher 16) (toy_cipher 20) tx1 (replicate 12 1 @ replicate 18 2) 20 30
       = Some (TINYRTC_OK, buf2, 30, tx2) \<and>
     xor_bytes (take 8 (drop 12 buf1)) (take 8 (drop 12 buf2)) = replicate 8 3"
proof -
  have "rd32 (replicate 30 1) 8 = rd32 (replicate 12 1 @ replicate 18 2) 8"
    by (simp add: rd32_def rd8_def nth_append)
  moreover have "xor_bytes (replicate 8 1) (replicate 8 2) = replicate 8 3"
    by (simp add: xor_bytes_def eval_nat_numeral)
  ultimately show ?thesis
    using srtp_keystream_reused [of "toy_cipher 16" 20 30 "replicate 30 1" "replicate 12 1 @ replicate 18 2"
        "toy_cipher 20" srtp_example, OF length_toy_cipher]
    by simp
qed

end
