(* ===== verification/Dtls.thy ===== *)
theory Dtls
  imports Ice Srtp
begin

text \<open>
  DTLS, \<^verbatim>\<open>src/media/dtls.c\<close>: creation with certificate fingerprint, the transport callbacks, the
  handshake driver, delivery of datagrams and derivation of the SRTP keys.  mbedTLS is an argument:
  its handshake is an arbitrary program that calls the transport callbacks and the key export
  callback any number of times before it returns (\<open>tls_run\<close>).  A DTLS context refers to an ICE
  session by its position in the list of all sessions that were created, so that it keeps the
  session it was started with.
\<close>

definition MBEDTLS_ERR_SSL_WANT_READ :: int where "MBEDTLS_ERR_SSL_WANT_READ = -0x6900"
definition MBEDTLS_ERR_SSL_WANT_WRITE :: int where "MBEDTLS_ERR_SSL_WANT_WRITE = -0x6880"
definition MBEDTLS_ERR_SSL_BAD_INPUT_DATA :: int where "MBEDTLS_ERR_SSL_BAD_INPUT_DATA = -0x7100"
definition MBEDTLS_ERR_SSL_PEER_CLOSE_NOTIFY :: int where "MBEDTLS_ERR_SSL_PEER_CLOSE_NOTIFY = -0x7880"
definition MBEDTLS_ERR_SSL_HELLO_VERIFY_REQUIRED :: int where "MBEDTLS_ERR_SSL_HELLO_VERIFY_REQUIRED = -0x6A80"

lemmas mbedtls_codes = MBEDTLS_ERR_SSL_WANT_READ_def MBEDTLS_ERR_SSL_WANT_WRITE_def MBEDTLS_ERR_SSL_BAD_INPUT_DATA_def
  MBEDTLS_ERR_SSL_PEER_CLOSE_NOTIFY_def MBEDTLS_ERR_SSL_HELLO_VERIFY_REQUIRED_def

datatype dtls_role = DTLS_ROLE_CLIENT | DTLS_ROLE_SERVER

text \<open>
  \<open>'ssl\<close> is the library's session.  The pending datagram is its first \<^verbatim>\<open>pending_datagram_len\<close> bytes,
  the master secret \<open>None\<close> until it was captured.
\<close>

record 'ssl dtls =
  dt_ssl :: 'ssl
  dt_role :: dtls_role
  dt_ice :: "nat option"
  dt_socket :: int
  dt_fingerprint :: string
  dt_handshake_complete :: bool
  dt_cookie_initialized :: bool
  dt_pending_datagram :: bytes
  dt_master_secret :: "bytes option"
  dt_client_master_key :: bytes
  dt_server_master_key :: bytes
  dt_client_salt :: bytes
  dt_server_salt :: bytes

section \<open>The library\<close>

text \<open>
  A handshake call of the library: it returns a code and its new session, reads a datagram of at
  most so many bytes (the answer is an error code or the bytes), sends one (the answer is a code or
  a length), or exports a master secret, which may be NULL.
\<close>

datatype 'ssl tls_run =
    Tls_Done int 'ssl
  | Tls_Recv nat "int + bytes \<Rightarrow> 'ssl tls_run"
  | Tls_Send bytes "int \<Rightarrow> 'ssl tls_run"
  | Tls_Export "bytes option" "'ssl tls_run"

record 'ssl tls_library =
  tl_handshake :: "'ssl \<Rightarrow> 'ssl tls_run"
  tl_handshake_over :: "'ssl \<Rightarrow> bool"
  tl_session_reset :: "'ssl \<Rightarrow> int \<times> 'ssl"
  tl_set_transport_id :: "bytes \<Rightarrow> 'ssl \<Rightarrow> int \<times> 'ssl"

type_synonym datagrams = "(sockaddr \<times> bytes) list"

section \<open>Transport\<close>

definition session_at :: "ice_session list \<Rightarrow> nat \<Rightarrow> ice_session option" where
  "session_at sessions k = (if k < length sessions then Some (sessions ! k) else None)"

text \<open>\<^verbatim>\<open>selected_pair->remote\<close>, with the pair's index checked.\<close>

definition ice_selected_remote :: "ice_session \<Rightarrow> nat \<Rightarrow> ice_candidate_internal option" where
  "ice_selected_remote ice i =
     (if i < length (ice_pairs ice) \<and> pair_remote (ice_pairs ice ! i) < length (ice_remote ice)
      then Some (ice_remote ice ! pair_remote (ice_pairs ice ! i)) else None)"

text \<open>\<open>sendto\<close> is the result of the call of that name for a destination and a datagram.\<close>

definition dtls_bio_send ::
  "(sockaddr \<Rightarrow> bytes \<Rightarrow> int) \<Rightarrow> ice_session list \<Rightarrow> bytes \<Rightarrow> 'ssl dtls \<Rightarrow> (int \<times> datagrams) option" where
  "dtls_bio_send sendto sessions buf dtls =
     (case dt_ice dtls of
        None \<Rightarrow> Some (MBEDTLS_ERR_SSL_BAD_INPUT_DATA, [])
      | Some k \<Rightarrow> do {
          ice \<leftarrow> session_at sessions k;
          (case ice_selected_pair ice of
             None \<Rightarrow> Some (MBEDTLS_ERR_SSL_BAD_INPUT_DATA, [])
           | Some i \<Rightarrow>
               if dt_socket dtls < 0 then Some (MBEDTLS_ERR_SSL_BAD_INPUT_DATA, [])
               else do {
                 remote \<leftarrow> ice_selected_remote ice i;
                 (case inet_pton (ica_ip remote) of
                    None \<Rightarrow> Some (MBEDTLS_ERR_SSL_BAD_INPUT_DATA, [])
                  | Some ip \<Rightarrow>
                      let addr = (ip, ica_port remote); sent = sendto addr buf in
                      if sent < 0 then Some (MBEDTLS_ERR_SSL_WANT_WRITE, []) else Some (sent, [(addr, buf)]))
               })
        })"

definition dtls_bio_recv :: "nat \<Rightarrow> 'ssl dtls \<Rightarrow> (int + bytes) \<times> 'ssl dtls" where
  "dtls_bio_recv len dtls =
     (if dt_pending_datagram dtls = [] then (Inl MBEDTLS_ERR_SSL_WANT_READ, dtls)
      else (Inr (take len (dt_pending_datagram dtls)), dtls\<lparr>dt_pending_datagram := []\<rparr>))"

text \<open>The callback copies 48 bytes.\<close>

definition dtls_key_export_callback :: "bytes option \<Rightarrow> 'ssl dtls \<Rightarrow> 'ssl dtls option" where
  "dtls_key_export_callback ms dtls =
     (case ms of
        None \<Rightarrow> Some dtls
      | Some m \<Rightarrow> do { secret \<leftarrow> rd_bytes m 0 48; Some (dtls\<lparr>dt_master_secret := Some secret\<rparr>) })"

text \<open>A handshake call with its callbacks served by the context.\<close>

primrec dtls_run ::
  "'ssl tls_run \<Rightarrow> (sockaddr \<Rightarrow> bytes \<Rightarrow> int) \<Rightarrow> ice_session list \<Rightarrow> 'ssl dtls \<Rightarrow> (int \<times> 'ssl dtls \<times> datagrams) option" where
  "dtls_run (Tls_Done ret ssl) sendto sessions dtls = Some (ret, dtls\<lparr>dt_ssl := ssl\<rparr>, [])"
| "dtls_run (Tls_Recv len k) sendto sessions dtls =
     dtls_run (k (fst (dtls_bio_recv len dtls))) sendto sessions (snd (dtls_bio_recv len dtls))"
| "dtls_run (Tls_Send buf k) sendto sessions dtls =
     (case dtls_bio_send sendto sessions buf dtls of
        None \<Rightarrow> None
      | Some (sent, out) \<Rightarrow>
          map_option (\<lambda>(ret, d, more). (ret, d, out @ more)) (dtls_run (k sent) sendto sessions dtls))"
| "dtls_run (Tls_Export ms run) sendto sessions dtls =
     (case dtls_key_export_callback ms dtls of None \<Rightarrow> None | Some d \<Rightarrow> dtls_run run sendto sessions d)"

section \<open>Handshake\<close>

definition dtls_continue_handshake ::
  "'ssl tls_library \<Rightarrow> (sockaddr \<Rightarrow> bytes \<Rightarrow> int) \<Rightarrow> ice_session list \<Rightarrow> 'ssl dtls \<Rightarrow> (int \<times> 'ssl dtls \<times> datagrams) option" where
  "dtls_continue_handshake lib sendto sessions dtls =
     (if dt_handshake_complete dtls then Some (0, dtls, [])
      else map_option (\<lambda>(ret, d, out). (ret, if ret = 0 then d\<lparr>dt_handshake_complete := True\<rparr> else d, out))
             (dtls_run (tl_handshake lib (dt_ssl dtls)) sendto sessions dtls))"

definition dtls_configure_runtime_io ::
  "'ssl tls_library \<Rightarrow> ice_session list \<Rightarrow> 'ssl dtls \<Rightarrow> (tinyrtc_error \<times> 'ssl dtls) option" where
  "dtls_configure_runtime_io lib sessions dtls =
     (case dt_ice dtls of
        None \<Rightarrow> Some (TINYRTC_ERROR_INVALID_ARG, dtls)
      | Some k \<Rightarrow> do {
          ice \<leftarrow> session_at sessions k;
          (case ice_selected_pair ice of
             None \<Rightarrow> Some (TINYRTC_ERROR_INVALID_ARG, dtls)
           | Some i \<Rightarrow>
               if ice_socket ice < 0 then Some (TINYRTC_ERROR_INVALID_ARG, dtls)
               else
                 (let d = dtls\<lparr>dt_socket := ice_socket ice, dt_pending_datagram := []\<rparr> in
                  if dt_role dtls = DTLS_ROLE_SERVER then do {
                    remote \<leftarrow> ice_selected_remote ice i;
                    let transport_id = ica_ip remote @ '':'' @ show_word (ica_port remote);
                    if length transport_id \<ge> 80 then Some (TINYRTC_ERROR_INVALID_ARG, d)
                    else
                      (case tl_set_transport_id lib (string_bytes transport_id) (dt_ssl d) of (ret, ssl) \<Rightarrow>
                         Some (if ret \<noteq> 0 then TINYRTC_ERROR else TINYRTC_OK, d\<lparr>dt_ssl := ssl\<rparr>))
                  }
                  else Some (TINYRTC_OK, d)))
        })"

definition dtls_handle_handshake_result ::
  "'ssl tls_library \<Rightarrow> ice_session list \<Rightarrow> int \<Rightarrow> 'ssl dtls \<Rightarrow> (tinyrtc_error \<times> 'ssl dtls) option" where
  "dtls_handle_handshake_result lib sessions ret dtls =
     (if ret = 0 \<or> ret = MBEDTLS_ERR_SSL_WANT_READ \<or> ret = MBEDTLS_ERR_SSL_WANT_WRITE then Some (TINYRTC_OK, dtls)
      else if ret = MBEDTLS_ERR_SSL_PEER_CLOSE_NOTIFY then Some (TINYRTC_OK, dtls)
      else if ret = MBEDTLS_ERR_SSL_HELLO_VERIFY_REQUIRED then
        if dt_role dtls = DTLS_ROLE_SERVER then
          (case tl_session_reset lib (dt_ssl dtls) of (r, ssl) \<Rightarrow>
             if r \<noteq> 0 then Some (TINYRTC_ERROR, dtls\<lparr>dt_ssl := ssl\<rparr>)
             else do {
               (e, d) \<leftarrow> dtls_configure_runtime_io lib sessions (dtls\<lparr>dt_ssl := ssl, dt_handshake_complete := False\<rparr>);
               Some (if e \<noteq> TINYRTC_OK then TINYRTC_ERROR else TINYRTC_OK, d)
             })
        else Some (TINYRTC_OK, dtls)
      else Some (TINYRTC_ERROR, dtls))"

text \<open>The record header is only read to be logged.\<close>

definition dtls_process_data ::
  "'ssl tls_library \<Rightarrow> (sockaddr \<Rightarrow> bytes \<Rightarrow> int) \<Rightarrow> ice_session list \<Rightarrow> bytes \<Rightarrow> 'ssl dtls
     \<Rightarrow> (tinyrtc_error \<times> 'ssl dtls \<times> datagrams) option" where
  "dtls_process_data lib sendto sessions data dtls =
     (if length data > 2048 then Some (TINYRTC_ERROR, dtls, [])
      else do {
        (ret, d, out) \<leftarrow> dtls_continue_handshake lib sendto sessions (dtls\<lparr>dt_pending_datagram := data\<rparr>);
        if ret = MBEDTLS_ERR_SSL_HELLO_VERIFY_REQUIRED \<and> dt_role d = DTLS_ROLE_SERVER then do {
          (handled, d) \<leftarrow> dtls_handle_handshake_result lib sessions ret d;
          if handled \<noteq> TINYRTC_OK then Some (handled, d, out)
          else do {
            (ret, d, more) \<leftarrow> dtls_continue_handshake lib sendto sessions (d\<lparr>dt_pending_datagram := data\<rparr>);
            (e, d) \<leftarrow> dtls_handle_handshake_result lib sessions ret d;
            Some (e, d, out @ more)
          }
        }
        else do {
          (e, d) \<leftarrow> dtls_handle_handshake_result lib sessions ret d;
          Some (e, d, out)
        }
      })"

definition dtls_poll_handshake ::
  "'ssl tls_library \<Rightarrow> (sockaddr \<Rightarrow> bytes \<Rightarrow> int) \<Rightarrow> ice_session list \<Rightarrow> 'ssl dtls
     \<Rightarrow> (tinyrtc_error \<times> 'ssl dtls \<times> datagrams) option" where
  "dtls_poll_handshake lib sendto sessions dtls = do {
     (ret, d, out) \<leftarrow> dtls_continue_handshake lib sendto sessions dtls;
     (e, d) \<leftarrow> dtls_handle_handshake_result lib sessions ret d;
     Some (e, d, out)
   }"

definition dtls_is_handshake_complete :: "'ssl tls_library \<Rightarrow> 'ssl dtls option \<Rightarrow> bool" where
  "dtls_is_handshake_complete lib dtls =
     (case dtls of None \<Rightarrow> False | Some d \<Rightarrow> dt_handshake_complete d \<and> tl_handshake_over lib (dt_ssl d))"

definition dtls_start ::
  "'ssl tls_library \<Rightarrow> (sockaddr \<Rightarrow> bytes \<Rightarrow> int) \<Rightarrow> ice_session list \<Rightarrow> nat \<Rightarrow> 'ssl dtls
     \<Rightarrow> (tinyrtc_error \<times> 'ssl dtls \<times> datagrams) option" where
  "dtls_start lib sendto sessions k dtls = do {
     ice \<leftarrow> session_at sessions k;
     if ice_socket ice < 0 \<or> ice_selected_pair ice = None then Some (TINYRTC_ERROR_INVALID_ARG, dtls, [])
     else do {
       (e, d) \<leftarrow> dtls_configure_runtime_io lib sessions (dtls\<lparr>dt_ice := Some k\<rparr>);
       if e \<noteq> TINYRTC_OK then Some (TINYRTC_ERROR, d, [])
       else do {
         (ret, d, out) \<leftarrow> dtls_continue_handshake lib sendto sessions d;
         Some (if ret \<noteq> 0 \<and> ret \<noteq> MBEDTLS_ERR_SSL_WANT_READ \<and> ret \<noteq> MBEDTLS_ERR_SSL_WANT_WRITE
               then TINYRTC_ERROR else TINYRTC_OK, d, out)
       }
     }
   }"

section \<open>Creation and fingerprint\<close>

definition hex_digits :: string where "hex_digits = ''0123456789ABCDEF''"

text \<open>\<^verbatim>\<open>snprintf(hex, sizeof(hex), "%02X", byte)\<close>.\<close>

definition hex_byte :: "u8 \<Rightarrow> string" where
  "hex_byte b = [hex_digits ! (unat b div 16), hex_digits ! (unat b mod 16)]"

text \<open>The loop stops three characters before the end of the 192-byte array.\<close>

fun dtls_fingerprint_loop :: "string \<Rightarrow> bytes \<Rightarrow> string" where
  "dtls_fingerprint_loop out [] = out"
| "dtls_fingerprint_loop out (b # md) =
     (if length out < 64 * 3 - 3
      then dtls_fingerprint_loop (out @ (if out = [] then [] else '':'') @ hex_byte b) md
      else out)"

text \<open>
  What the library answers during creation: seeding, the allocations (context, session,
  configuration, certificate, key, curve key), cookie set-up, key generation, serial number (read
  and set), signing, parsing, and the DER bytes of the certificate and the fresh session.
\<close>

record 'ssl dtls_init_env =
  di_seed :: int
  di_alloc_dtls :: bool
  di_alloc_ssl :: bool
  di_alloc_cfg :: bool
  di_cookie_setup :: int
  di_alloc_cert :: bool
  di_alloc_pkey :: bool
  di_alloc_ec_key :: bool
  di_gen_key :: int
  di_serial_read :: int
  di_serial_set :: int
  di_sign :: int
  di_parse :: int
  di_cert_raw :: bytes
  di_ssl :: 'ssl

definition dtls_new :: "(bytes \<Rightarrow> bytes) \<Rightarrow> 'ssl dtls_init_env \<Rightarrow> dtls_role \<Rightarrow> 'ssl dtls" where
  "dtls_new sha256 env role =
     \<lparr>dt_ssl = di_ssl env, dt_role = role, dt_ice = None, dt_socket = 0,
      dt_fingerprint = dtls_fingerprint_loop [] (sha256 (di_cert_raw env)), dt_handshake_complete = False,
      dt_cookie_initialized = (role = DTLS_ROLE_SERVER), dt_pending_datagram = [], dt_master_secret = None,
      dt_client_master_key = replicate 16 0, dt_server_master_key = replicate 16 0,
      dt_client_salt = replicate 14 0, dt_server_salt = replicate 14 0\<rparr>"

text \<open>
  \<open>initialized\<close> is the static flag of the random generator, returned updated; the inner \<open>None\<close> is
  NULL.  When the cookies of a server cannot be set up, the clean-up code frees a certificate and a
  key whose pointers were never assigned.
\<close>

definition dtls_init ::
  "(bytes \<Rightarrow> bytes) \<Rightarrow> 'ssl dtls_init_env \<Rightarrow> bool \<Rightarrow> dtls_role \<Rightarrow> (bool \<times> 'ssl dtls option) option" where
  "dtls_init sha256 env initialized role =
     (if \<not> initialized \<and> di_seed env \<noteq> 0 then Some (False, None)
      else if \<not> di_alloc_dtls env then Some (True, None)
      else if \<not> di_alloc_ssl env \<or> \<not> di_alloc_cfg env then Some (True, None)
      else if role = DTLS_ROLE_SERVER \<and> di_cookie_setup env \<noteq> 0 then None
      else if \<not> di_alloc_cert env \<or> \<not> di_alloc_pkey env then Some (True, None)
      else if \<not> di_alloc_ec_key env then Some (True, None)
      else if di_gen_key env \<noteq> 0 then Some (True, None)
      else if di_serial_read env \<noteq> 0 then Some (True, None)
      else if di_serial_set env \<noteq> 0 then Some (True, None)
      else if di_sign env < 0 then Some (True, None)
      else if di_parse env \<noteq> 0 then Some (True, None)
      else Some (True, Some (dtls_new sha256 env role)))"

text \<open>The length of the fingerprint and what \<^verbatim>\<open>strncpy\<close> puts into a buffer of \<open>len\<close> bytes.\<close>

definition dtls_get_fingerprint :: "'ssl dtls option \<Rightarrow> nat \<Rightarrow> int \<times> string" where
  "dtls_get_fingerprint dtls len =
     (case dtls of None \<Rightarrow> (-1, []) | Some d \<Rightarrow> (int (length (dt_fingerprint d)), take len (dt_fingerprint d)))"

definition dtls_verify_fingerprint :: "'ssl dtls option \<Rightarrow> string option \<Rightarrow> bool" where
  "dtls_verify_fingerprint dtls peer_fingerprint =
     (case (dtls, peer_fingerprint) of (Some d, Some fp) \<Rightarrow> dt_fingerprint d = fp | _ \<Rightarrow> False)"

text \<open>What is released, in order: the certificate, the key, the session, its configuration, and the cookie
  context of a server.  The fingerprint is read for the log after the context itself was freed.\<close>

datatype dtls_block = DT_Cert | DT_Pkey | DT_Ssl | DT_Cfg | DT_Cookie | DT_Struct

definition dtls_destroy :: "'ssl dtls option \<Rightarrow> dtls_block list" where
  "dtls_destroy dtls =
     (case dtls of
        None \<Rightarrow> []
      | Some d \<Rightarrow> [DT_Cert, DT_Pkey, DT_Ssl, DT_Cfg] @ (if dt_cookie_initialized d then [DT_Cookie] else []) @ [DT_Struct])"

section \<open>SRTP keys\<close>

text \<open>The four bytes of the counter, on a little-endian host.\<close>

definition le32 :: "u32 \<Rightarrow> bytes" where
  "le32 v = [ucast v, ucast (drop_bit 8 v), ucast (drop_bit 16 v), ucast (drop_bit 24 v)]"

record srtp_keys =
  sk_client_key :: bytes
  sk_client_salt :: bytes
  sk_server_key :: bytes
  sk_server_salt :: bytes

text \<open>The loop over \<open>offset\<close>: blocks of 32 bytes, the last one cut to 60 bytes in all.\<close>

definition dtls_key_material :: "(bytes \<Rightarrow> bytes) \<Rightarrow> bytes \<Rightarrow> bytes" where
  "dtls_key_material sha256 master_secret =
     (let tmp_hash = sha256 (string_bytes ''EXTRACTOR-dtls_srtp'') in
      take 60 (concat (map (\<lambda>counter. take 32 (sha256 (master_secret @ tmp_hash @ le32 counter))) [0, 1])))"

definition dtls_split_keys :: "bytes \<Rightarrow> srtp_keys" where
  "dtls_split_keys output =
     \<lparr>sk_client_key = take 16 output, sk_client_salt = take 14 (drop 16 output),
      sk_server_key = take 16 (drop 30 output), sk_server_salt = take 14 (drop 46 output)\<rparr>"

definition dtls_derive_srtp_keys ::
  "(bytes \<Rightarrow> bytes) \<Rightarrow> bool \<Rightarrow> 'ssl dtls \<Rightarrow> (tinyrtc_error + srtp_keys) \<times> 'ssl dtls" where
  "dtls_derive_srtp_keys sha256 alloc_ok dtls =
     (case dt_master_secret dtls of
        None \<Rightarrow> (Inl TINYRTC_ERROR_INVALID_STATE, dtls)
      | Some ms \<Rightarrow>
          if \<not> alloc_ok then (Inl TINYRTC_ERROR_MEMORY, dtls)
          else
            (let keys = dtls_split_keys (dtls_key_material sha256 ms) in
             (Inr keys,
              dtls\<lparr>dt_client_master_key := sk_client_key keys, dt_client_salt := sk_client_salt keys,
                   dt_server_master_key := sk_server_key keys, dt_server_salt := sk_server_salt keys\<rparr>)))"

definition dtls_get_master_secret :: "'ssl dtls option \<Rightarrow> nat \<Rightarrow> bytes option" where
  "dtls_get_master_secret dtls len =
     (case dtls of None \<Rightarrow> None | Some d \<Rightarrow> map_option (take len) (dt_master_secret d))"

section \<open>The fingerprint text\<close>

fun hex_list :: "bytes \<Rightarrow> string" where
  "hex_list [] = []"
| "hex_list [b] = hex_byte b"
| "hex_list (b # c # md) = hex_byte b @ '':'' @ hex_list (c # md)"

lemma length_hex_byte [simp]: "length (hex_byte b) = 2"
  by (simp add: hex_byte_def)

lemma length_hex_list: "length (hex_list md) = 3 * length md - 1"
  by (induction md rule: hex_list.induct) simp_all

lemma hex_list_snoc: "md \<noteq> [] \<Longrightarrow> hex_list (md @ [b]) = hex_list md @ '':'' @ hex_byte b"
  by (induction md rule: hex_list.induct) simp_all

lemma dtls_fingerprint_loop_list:
  "length md0 + length md \<le> 63 \<Longrightarrow> dtls_fingerprint_loop (hex_list md0) md = hex_list (md0 @ md)"
proof (induction md arbitrary: md0)
  case (Cons b md)
  have fits: "length (hex_list md0) < 64 * 3 - 3" using Cons.prems by (simp add: length_hex_list)
  have empty: "hex_list md0 = [] \<longleftrightarrow> md0 = []" using length_hex_list [of md0] by (cases md0) auto
  have "hex_list (md0 @ [b]) = hex_list md0 @ (if md0 = [] then [] else '':'') @ hex_byte b"
    by (cases "md0 = []") (simp_all add: hex_list_snoc)
  with Cons.IH [of "md0 @ [b]"] Cons.prems fits show ?case by (simp add: empty)
qed simp

lemma hex_digits_inject: "i < 16 \<Longrightarrow> j < 16 \<Longrightarrow> hex_digits ! i = hex_digits ! j \<Longrightarrow> i = j"
  using nth_eq_iff_index_eq [of hex_digits i j] by (simp add: hex_digits_def)

lemma hex_byte_inject: "hex_byte a = hex_byte b \<longleftrightarrow> a = b"
proof
  assume eq: "hex_byte a = hex_byte b"
  have bounds: "unat a < 256" "unat b < 256" using unat_less [of a] unat_less [of b] by simp_all
  from eq have "unat a div 16 = unat b div 16" "unat a mod 16 = unat b mod 16"
    using hex_digits_inject [of "unat a div 16" "unat b div 16"] hex_digits_inject [of "unat a mod 16" "unat b mod 16"] bounds
    by (simp_all add: hex_byte_def)
  then have "unat a = unat b" by (metis div_mult_mod_eq)
  then show "a = b" by (simp only: word_unat_eq_iff)
qed simp

lemma hex_list_inject: "length a = length b \<Longrightarrow> hex_list a = hex_list b \<Longrightarrow> a = b"
proof (induction a arbitrary: b rule: hex_list.induct)
  case (2 x)
  then obtain y where "b = [y]" by (cases b) auto
  with 2 show ?case by (simp add: hex_byte_inject)
next
  case (3 x y md)
  then obtain u v ms where b: "b = u # v # ms" by (metis Suc_length_conv length_Cons)
  with 3 have "hex_byte x = hex_byte u" "hex_list (y # md) = hex_list (v # ms)" by (simp_all add: append_eq_append_conv)
  moreover have "y # md = v # ms" using "3.IH" [of "v # ms"] "3.prems"(1) b calculation(2) by simp
  ultimately show ?case by (simp add: b hex_byte_inject)
qed simp

section \<open>Safety\<close>

text \<open>Every secret a handshake call exports has 48 bytes, whatever the callbacks answer.\<close>

primrec tls_exports_ok :: "'ssl tls_run \<Rightarrow> bool" where
  "tls_exports_ok (Tls_Done ret ssl) = True"
| "tls_exports_ok (Tls_Recv len k) = (\<forall>x. tls_exports_ok (k x))"
| "tls_exports_ok (Tls_Send buf k) = (\<forall>x. tls_exports_ok (k x))"
| "tls_exports_ok (Tls_Export ms run) =
     ((case ms of None \<Rightarrow> True | Some m \<Rightarrow> length m = 48) \<and> tls_exports_ok run)"

definition tls_library_ok :: "'ssl tls_library \<Rightarrow> bool" where
  "tls_library_ok lib \<longleftrightarrow> (\<forall>ssl. tls_exports_ok (tl_handshake lib ssl))"

text \<open>Sizes, and a reference to an existing ICE session.\<close>

definition dtls_ok :: "ice_session list \<Rightarrow> 'ssl dtls \<Rightarrow> bool" where
  "dtls_ok sessions dtls \<longleftrightarrow>
     length (dt_pending_datagram dtls) \<le> 2048 \<and>
     (\<forall>k. dt_ice dtls = Some k \<longrightarrow> k < length sessions) \<and>
     (\<forall>ms. dt_master_secret dtls = Some ms \<longrightarrow> length ms = 48)"

lemma dtls_ok_updates [simp]:
  "dtls_ok sessions (dtls\<lparr>dt_ssl := ssl\<rparr>) = dtls_ok sessions dtls"
  "dtls_ok sessions (dtls\<lparr>dt_socket := sk\<rparr>) = dtls_ok sessions dtls"
  "dtls_ok sessions (dtls\<lparr>dt_handshake_complete := c\<rparr>) = dtls_ok sessions dtls"
  "dtls_ok sessions dtls \<Longrightarrow> length data \<le> 2048 \<Longrightarrow> dtls_ok sessions (dtls\<lparr>dt_pending_datagram := data\<rparr>)"
  "dtls_ok sessions dtls \<Longrightarrow> k < length sessions \<Longrightarrow> dtls_ok sessions (dtls\<lparr>dt_ice := Some k\<rparr>)"
  "dtls_ok sessions dtls \<Longrightarrow> length ms = 48 \<Longrightarrow> dtls_ok sessions (dtls\<lparr>dt_master_secret := Some ms\<rparr>)"
  by (simp_all add: dtls_ok_def)

lemma ice_selected_remote_ok:
  "ice_inv ice \<Longrightarrow> ice_selected_pair ice = Some i \<Longrightarrow> \<exists>r. ice_selected_remote ice i = Some r"
  using ice_pair_index [of ice "ice_pairs ice ! i"] nth_mem [of i "ice_pairs ice"]
  by (auto simp: ice_selected_remote_def ice_inv_def)

lemma dtls_bio_send_ok:
  assumes "dtls_ok sessions dtls" and "\<forall>ice \<in> set sessions. ice_inv ice"
  shows "\<exists>sent out. dtls_bio_send sendto sessions buf dtls = Some (sent, out)"
proof (cases "dt_ice dtls")
  case (Some k)
  then have k: "k < length sessions" using assms(1) by (simp add: dtls_ok_def)
  then have inv: "ice_inv (sessions ! k)" using assms(2) by simp
  show ?thesis
  proof (cases "ice_selected_pair (sessions ! k)")
    case (Some i)
    then obtain r where "ice_selected_remote (sessions ! k) i = Some r" using ice_selected_remote_ok [OF inv] by blast
    with Some \<open>dt_ice dtls = Some k\<close> k show ?thesis
      by (simp add: dtls_bio_send_def session_at_def Let_def split: option.split)
  qed (simp add: dtls_bio_send_def session_at_def Some k)
qed (simp add: dtls_bio_send_def)

text \<open>What a handshake call changes and what it leaves.\<close>

definition dtls_same :: "'ssl dtls \<Rightarrow> 'ssl dtls \<Rightarrow> bool" where
  "dtls_same a b \<longleftrightarrow> dt_role b = dt_role a \<and> dt_ice b = dt_ice a \<and> dt_fingerprint b = dt_fingerprint a \<and>
     (dt_master_secret a \<noteq> None \<longrightarrow> dt_master_secret b \<noteq> None)"

lemma dtls_same_refl [simp, intro]: "dtls_same a a"
  by (simp add: dtls_same_def)

lemma dtls_same_trans: "dtls_same a b \<Longrightarrow> dtls_same b c \<Longrightarrow> dtls_same a c"
  by (simp add: dtls_same_def)

lemma dtls_same_updates [simp]:
  "dtls_same a (b\<lparr>dt_ssl := ssl\<rparr>) = dtls_same a b" "dtls_same a (b\<lparr>dt_socket := sk\<rparr>) = dtls_same a b"
  "dtls_same a (b\<lparr>dt_handshake_complete := c\<rparr>) = dtls_same a b" "dtls_same a (b\<lparr>dt_pending_datagram := data\<rparr>) = dtls_same a b"
  "dtls_same (a\<lparr>dt_pending_datagram := data\<rparr>) b = dtls_same a b"
  "dtls_same a b \<Longrightarrow> dtls_same a (b\<lparr>dt_master_secret := Some ms\<rparr>)"
  by (simp_all add: dtls_same_def)

lemma dtls_run_ok:
  assumes "\<forall>ice \<in> set sessions. ice_inv ice"
  shows "tls_exports_ok run \<Longrightarrow> dtls_ok sessions dtls \<Longrightarrow>
    \<exists>ret d out. dtls_run run sendto sessions dtls = Some (ret, d, out) \<and> dtls_ok sessions d \<and> dtls_same dtls d \<and>
      dt_handshake_complete d = dt_handshake_complete dtls"
proof (induction run arbitrary: dtls)
  case (Tls_Recv len k)
  let ?d = "snd (dtls_bio_recv len dtls)"
  have "dtls_ok sessions ?d" "dt_handshake_complete ?d = dt_handshake_complete dtls" "dtls_same dtls ?d"
    using Tls_Recv.prems(2) by (simp_all add: dtls_bio_recv_def)
  then show ?case
    using Tls_Recv.IH [of "k (fst (dtls_bio_recv len dtls))" ?d] Tls_Recv.prems(1) by (auto intro: dtls_same_trans)
next
  case (Tls_Send buf k)
  obtain sent out where send: "dtls_bio_send sendto sessions buf dtls = Some (sent, out)"
    using dtls_bio_send_ok [OF Tls_Send.prems(2) assms] by blast
  show ?case using Tls_Send.IH [of "k sent" dtls] Tls_Send.prems by (auto simp: send)
next
  case (Tls_Export ms run)
  show ?case
  proof (cases ms)
    case None
    then show ?thesis using Tls_Export.IH [of dtls] Tls_Export.prems by (simp add: dtls_key_export_callback_def)
  next
    case (Some m)
    let ?d = "dtls\<lparr>dt_master_secret := Some m\<rparr>"
    have "dtls_key_export_callback ms dtls = Some ?d"
      using Tls_Export.prems(1) Some by (simp add: dtls_key_export_callback_def rd_bytes_def)
    moreover have "dtls_ok sessions ?d" using Tls_Export.prems Some by simp
    ultimately show ?thesis
      using Tls_Export.IH [of ?d] Tls_Export.prems(1) by (auto simp: dtls_same_def)
  qed
qed simp

lemma dtls_continue_ok:
  assumes "\<forall>ice \<in> set sessions. ice_inv ice" and "tls_library_ok lib" and "dtls_ok sessions dtls"
  shows "\<exists>ret d out. dtls_continue_handshake lib sendto sessions dtls = Some (ret, d, out) \<and> dtls_ok sessions d \<and>
    dtls_same dtls d \<and> (dt_handshake_complete d \<longleftrightarrow> dt_handshake_complete dtls \<or> ret = 0)"
proof (cases "dt_handshake_complete dtls")
  case False
  obtain ret d out where run: "dtls_run (tl_handshake lib (dt_ssl dtls)) sendto sessions dtls = Some (ret, d, out)"
    "dtls_ok sessions d" "dtls_same dtls d" "\<not> dt_handshake_complete d"
    using dtls_run_ok [OF assms(1), of "tl_handshake lib (dt_ssl dtls)" dtls sendto] assms(2,3) False
    by (auto simp: tls_library_ok_def)
  then show ?thesis using False by (cases "ret = 0") (simp_all add: dtls_continue_handshake_def)
qed (use assms(3) in \<open>simp add: dtls_continue_handshake_def\<close>)

lemma dtls_configure_ok:
  assumes "\<forall>ice \<in> set sessions. ice_inv ice" and "dtls_ok sessions dtls"
  shows "\<exists>e d. dtls_configure_runtime_io lib sessions dtls = Some (e, d) \<and> dtls_ok sessions d \<and> dtls_same dtls d \<and>
    dt_handshake_complete d = dt_handshake_complete dtls"
proof (cases "dt_ice dtls")
  case (Some k)
  then have k: "k < length sessions" using assms(2) by (simp add: dtls_ok_def)
  show ?thesis
  proof (cases "ice_selected_pair (sessions ! k)")
    case (Some i)
    then obtain r where "ice_selected_remote (sessions ! k) i = Some r"
      using ice_selected_remote_ok [of "sessions ! k"] assms(1) k by auto
    with Some \<open>dt_ice dtls = Some k\<close> k assms(2) show ?thesis
      by (simp add: dtls_configure_runtime_io_def session_at_def Let_def split: prod.split)
  qed (use assms(2) in \<open>simp add: dtls_configure_runtime_io_def session_at_def Some k\<close>)
qed (use assms(2) in \<open>simp add: dtls_configure_runtime_io_def\<close>)

lemma dtls_handle_ok:
  assumes "\<forall>ice \<in> set sessions. ice_inv ice" and "dtls_ok sessions dtls"
  shows "\<exists>e d. dtls_handle_handshake_result lib sessions ret dtls = Some (e, d) \<and> dtls_ok sessions d \<and> dtls_same dtls d \<and>
    (dt_handshake_complete d \<longrightarrow> dt_handshake_complete dtls)"
proof -
  obtain r ssl where reset: "tl_session_reset lib (dt_ssl dtls) = (r, ssl)" by fastforce
  let ?d = "dtls\<lparr>dt_ssl := ssl, dt_handshake_complete := False\<rparr>"
  obtain e d where configure: "dtls_configure_runtime_io lib sessions ?d = Some (e, d)" "dtls_ok sessions d"
    "dtls_same ?d d" "dt_handshake_complete d = dt_handshake_complete ?d"
    using dtls_configure_ok [OF assms(1), of ?d lib] assms(2) by auto
  have "dtls_same dtls d" using configure(3) by (auto simp: dtls_same_def)
  then show ?thesis
    using assms(2) configure by (simp add: dtls_handle_handshake_result_def reset)
qed

text \<open>Where the datagrams of a context go: the selected remote candidate of its session.\<close>

definition dtls_peer :: "ice_session list \<Rightarrow> nat option \<Rightarrow> sockaddr option" where
  "dtls_peer sessions ice = do {
     k \<leftarrow> ice;
     s \<leftarrow> session_at sessions k;
     i \<leftarrow> ice_selected_pair s;
     r \<leftarrow> ice_selected_remote s i;
     ip \<leftarrow> inet_pton (ica_ip r);
     Some (ip, ica_port r)
   }"

lemma dtls_bio_send_peer:
  "dtls_bio_send sendto sessions buf dtls = Some (sent, out) \<Longrightarrow> m \<in> set out \<Longrightarrow>
   dtls_peer sessions (dt_ice dtls) = Some (fst m)"
  by (auto simp: dtls_bio_send_def dtls_peer_def Let_def split: option.splits if_splits bind_splits)

lemma dtls_run_peer:
  "dtls_run run sendto sessions dtls = Some (ret, d, out) \<Longrightarrow> m \<in> set out \<Longrightarrow>
   dtls_peer sessions (dt_ice dtls) = Some (fst m)"
proof (induction run arbitrary: dtls ret d out)
  case (Tls_Recv len k)
  have same: "dt_ice (snd (dtls_bio_recv len dtls)) = dt_ice dtls" by (simp add: dtls_bio_recv_def)
  from Tls_Recv.prems show ?case
    using Tls_Recv.IH [of "k (fst (dtls_bio_recv len dtls))" "snd (dtls_bio_recv len dtls)" ret d out]
    by (simp add: same)
next
  case (Tls_Send buf k)
  then obtain sent o1 o2 where send: "dtls_bio_send sendto sessions buf dtls = Some (sent, o1)"
    and run: "dtls_run (k sent) sendto sessions dtls = Some (ret, d, o2)" and out: "out = o1 @ o2"
    by (auto split: option.splits)
  from out Tls_Send.prems(2) have "m \<in> set o1 \<or> m \<in> set o2" by simp
  then show ?case using Tls_Send.IH [OF _ run] dtls_bio_send_peer [OF send, of m] by blast
next
  case (Tls_Export ms run)
  then obtain d1 where export: "dtls_key_export_callback ms dtls = Some d1"
    and run: "dtls_run run sendto sessions d1 = Some (ret, d, out)" by (auto split: option.splits)
  have "dt_ice d1 = dt_ice dtls"
    using export by (auto simp: dtls_key_export_callback_def split: option.splits bind_splits)
  then show ?case using Tls_Export.IH [OF run Tls_Export.prems(2)] by simp
qed simp

lemma dtls_continue_peer:
  "dtls_continue_handshake lib sendto sessions dtls = Some (ret, d, out) \<Longrightarrow> m \<in> set out \<Longrightarrow>
   dtls_peer sessions (dt_ice dtls) = Some (fst m)"
  using dtls_run_peer [of "tl_handshake lib (dt_ssl dtls)" sendto sessions dtls _ _ out m]
  by (force simp: dtls_continue_handshake_def split: if_splits)

text \<open>The outcome of an operation that is defined, keeps the context and sends only to the peer.\<close>

definition dtls_outcome ::
  "ice_session list \<Rightarrow> 'ssl dtls \<Rightarrow> (tinyrtc_error \<times> 'ssl dtls \<times> datagrams) option \<Rightarrow> bool" where
  "dtls_outcome sessions dtls r \<longleftrightarrow>
     (case r of
        None \<Rightarrow> False
      | Some (e, d, out) \<Rightarrow>
          dtls_ok sessions d \<and> dtls_same dtls d \<and>
          (\<forall>m \<in> set out. dtls_peer sessions (dt_ice dtls) = Some (fst m)))"

lemma dtls_round_outcome:
  assumes "\<forall>ice \<in> set sessions. ice_inv ice" and "tls_library_ok lib" and "dtls_ok sessions dtls"
  shows "dtls_outcome sessions dtls (dtls_poll_handshake lib sendto sessions dtls)"
proof -
  obtain ret d out where c: "dtls_continue_handshake lib sendto sessions dtls = Some (ret, d, out)"
    "dtls_ok sessions d" "dtls_same dtls d" using dtls_continue_ok [OF assms] by blast
  obtain e d' where h: "dtls_handle_handshake_result lib sessions ret d = Some (e, d')" "dtls_ok sessions d'"
    "dtls_same d d'" using dtls_handle_ok [OF assms(1) c(2)] by blast
  show ?thesis
    using c h dtls_continue_peer [OF c(1)] dtls_same_trans [OF c(3) h(3)]
    by (simp add: dtls_outcome_def dtls_poll_handshake_def)
qed

lemma dtls_process_data_outcome:
  assumes inv: "\<forall>ice \<in> set sessions. ice_inv ice" and lib: "tls_library_ok lib" and ok: "dtls_ok sessions dtls"
  shows "dtls_outcome sessions dtls (dtls_process_data lib sendto sessions data dtls)"
proof (cases "length data > 2048")
  case False
  let ?d0 = "dtls\<lparr>dt_pending_datagram := data\<rparr>"
  have ok0: "dtls_ok sessions ?d0" using ok False by simp
  obtain ret d out where c: "dtls_continue_handshake lib sendto sessions ?d0 = Some (ret, d, out)"
    "dtls_ok sessions d" "dtls_same ?d0 d" using dtls_continue_ok [OF inv lib ok0, of sendto] by blast
  have same: "dtls_same dtls d" using c(3) by simp
  have peer: "\<forall>m \<in> set out. dtls_peer sessions (dt_ice dtls) = Some (fst m)"
    using dtls_continue_peer [OF c(1)] by auto
  obtain e d1 where h: "dtls_handle_handshake_result lib sessions ret d = Some (e, d1)" "dtls_ok sessions d1"
    "dtls_same d d1" using dtls_handle_ok [OF inv c(2)] by blast
  have same1: "dtls_same dtls d1" using same h(3) by (rule dtls_same_trans)
  let ?d2 = "d1\<lparr>dt_pending_datagram := data\<rparr>"
  have ok2: "dtls_ok sessions ?d2" using h(2) False by simp
  have round: "dtls_outcome sessions ?d2 (dtls_poll_handshake lib sendto sessions ?d2)"
    by (rule dtls_round_outcome [OF inv lib ok2])
  then obtain ret2 d3 out2 e2 d4 where r: "dtls_continue_handshake lib sendto sessions ?d2 = Some (ret2, d3, out2)"
    "dtls_handle_handshake_result lib sessions ret2 d3 = Some (e2, d4)" "dtls_ok sessions d4" "dtls_same d1 d4"
    "\<forall>m \<in> set out2. dtls_peer sessions (dt_ice d1) = Some (fst m)"
    by (auto simp: dtls_outcome_def dtls_poll_handshake_def split: option.splits bind_splits)
  have ice: "dt_ice d1 = dt_ice dtls" using same1 by (simp add: dtls_same_def)
  have same4: "dtls_same dtls d4" using same1 r(4) by (rule dtls_same_trans)
  show ?thesis
  proof (cases "ret = MBEDTLS_ERR_SSL_HELLO_VERIFY_REQUIRED \<and> dt_role d = DTLS_ROLE_SERVER")
    case True
    have both: "\<forall>m \<in> set (out @ out2). dtls_peer sessions (dt_ice dtls) = Some (fst m)"
      using peer r(5) ice by auto
    have "dtls_process_data lib sendto sessions data dtls
        = (if e \<noteq> TINYRTC_OK then Some (e, d1, out) else Some (e2, d4, out @ out2))"
      unfolding dtls_process_data_def using False True c(1) h(1) r(1,2) by simp
    then show ?thesis unfolding dtls_outcome_def using h(2) same1 peer r(3) same4 both by simp
  next
    case no_retry: False
    then have "dtls_process_data lib sendto sessions data dtls = Some (e, d1, out)"
      unfolding dtls_process_data_def using False c(1) h(1) by auto
    then show ?thesis unfolding dtls_outcome_def using h(2) same1 peer by simp
  qed
qed (use ok in \<open>simp add: dtls_outcome_def dtls_process_data_def\<close>)

section \<open>Property\<close>

text \<open>C40: delivering a datagram to a DTLS context is safe whatever the datagram and the handshake are.
  For every library that exports 48-byte secrets and every program of transport calls its handshake
  makes, the call is defined, keeps the sizes of the context, its role, fingerprint, session and
  secret, and sends datagrams to the selected remote candidate only; a datagram that does not fit the
  2048-byte buffer is refused and changes nothing.\<close>

theorem dtls_process_data_safe:
  assumes "\<forall>ice \<in> set sessions. ice_inv ice" and "tls_library_ok lib" and "dtls_ok sessions dtls"
  shows "\<exists>e d out. dtls_process_data lib sendto sessions data dtls = Some (e, d, out) \<and>
    dtls_ok sessions d \<and> dtls_same dtls d \<and>
    (\<forall>m \<in> set out. dtls_peer sessions (dt_ice dtls) = Some (fst m)) \<and>
    (2048 < length data \<longrightarrow> (e, d, out) = (TINYRTC_ERROR, dtls, []))"
proof -
  obtain e d out where r: "dtls_process_data lib sendto sessions data dtls = Some (e, d, out)" "dtls_ok sessions d"
    "dtls_same dtls d" "\<forall>m \<in> set out. dtls_peer sessions (dt_ice dtls) = Some (fst m)"
    using dtls_process_data_outcome [OF assms, of sendto data] by (auto simp: dtls_outcome_def split: option.splits)
  moreover have "(e, d, out) = (TINYRTC_ERROR, dtls, [])" if "2048 < length data"
    using r(1) that by (simp add: dtls_process_data_def)
  ultimately show ?thesis by blast
qed

text \<open>A library whose handshake reads one datagram, sends it back, exports a secret and is over.\<close>

definition tls_library_example :: "bool tls_library" where
  "tls_library_example =
     \<lparr>tl_handshake = (\<lambda>ssl. Tls_Recv 2048 (\<lambda>r. case r of
          Inl e \<Rightarrow> Tls_Done e ssl
        | Inr bs \<Rightarrow> Tls_Send bs (\<lambda>_. Tls_Export (Some (replicate 48 7)) (Tls_Done 0 True)))),
      tl_handshake_over = id, tl_session_reset = (\<lambda>_. (0, False)), tl_set_transport_id = (\<lambda>_ ssl. (0, ssl))\<rparr>"

definition ice_connected_example :: ice_session where
  "ice_connected_example = ice_session_example\<lparr>ice_phase := ICE_DONE,
     ice_pairs := [ice_new_pair 0 0, (ice_new_pair 0 1)\<lparr>pair_succeeded := True\<rparr>], ice_selected_pair := Some 1\<rparr>"

definition dtls_example :: "dtls_role \<Rightarrow> bool dtls" where
  "dtls_example role =
     \<lparr>dt_ssl = False, dt_role = role, dt_ice = Some 0, dt_socket = 3, dt_fingerprint = [], dt_handshake_complete = False,
      dt_cookie_initialized = False, dt_pending_datagram = [], dt_master_secret = None,
      dt_client_master_key = replicate 16 0, dt_server_master_key = replicate 16 0,
      dt_client_salt = replicate 14 0, dt_server_salt = replicate 14 0\<rparr>"

lemma tls_library_example_ok: "tls_library_ok tls_library_example"
  by (simp add: tls_library_ok_def tls_library_example_def split: sum.split)

lemma ice_connected_example_inv: "ice_inv ice_connected_example"
  by (auto simp: ice_connected_example_def ice_session_example_def ice_inv_def ice_pairs_complete_def
      ICE_MAX_CANDIDATES_def ice_new_pair_def)

lemma dtls_example_ok: "dtls_ok [ice] (dtls_example role)"
  by (simp add: dtls_ok_def dtls_example_def)

theorem dtls_process_data_safe_witness:
  "\<exists>e d out. dtls_process_data tls_library_example (\<lambda>_ bs. int (length bs)) [ice_connected_example] [22, 254]
      (dtls_example DTLS_ROLE_CLIENT) = Some (e, d, out) \<and> dtls_ok [ice_connected_example] d \<and>
    (\<forall>m \<in> set out. dtls_peer [ice_connected_example] (Some 0) = Some (fst m))"
  using dtls_process_data_safe [OF _ tls_library_example_ok dtls_example_ok, of ice_connected_example
      "\<lambda>_ bs. int (length bs)" "[22, 254]" DTLS_ROLE_CLIENT] ice_connected_example_inv
  by (auto simp: dtls_example_def)

end
