(* ===== verification/Peer_Connection.thy ===== *)
theory Peer_Connection
  imports Track Dtls Sdp_Parser Sdp_Generator
begin

text \<open>
  Peer connections, \<^verbatim>\<open>src/peer_connection.c\<close>: the connection's state, local tracks, offer, answer,
  remote description and remote candidates.  Media is in theory \<open>Media_Path\<close>, the event loop
  and the context's list of connections in theory \<open>Library_Context\<close>.

  The operations are given for a connection that is not NULL; a NULL connection is refused by the
  first check of each of them.  The mutexes are left out: the model has one thread.
\<close>

datatype pc_state =
    TINYRTC_PC_STATE_NEW | TINYRTC_PC_STATE_CONNECTING | TINYRTC_PC_STATE_CONNECTED
  | TINYRTC_PC_STATE_DISCONNECTED | TINYRTC_PC_STATE_FAILED | TINYRTC_PC_STATE_CLOSED

text \<open>
  The configuration: of the observer, which callbacks the code uses are set.  The TURN and data
  channel fields are not read by the code.
\<close>

record pc_configuration =
  pcc_stun_server :: "string option"
  pcc_is_initiator :: bool
  pcc_on_ice_candidate :: bool
  pcc_on_connection_state_change :: bool
  pcc_on_track_added :: bool
  pcc_on_audio_frame :: bool
  pcc_on_video_frame :: bool

text \<open>
  \<open>pc_sessions\<close> are all ICE sessions the connection created; \<open>pc_ice\<close> is the index of the current one.
  A session that a second description replaces is not destroyed, and the DTLS context keeps using
  the session it was started with.
\<close>

record 'ssl peer_connection =
  pc_config :: pc_configuration
  pc_state :: pc_state
  pc_local_tracks :: "track list"
  pc_remote_tracks :: "track list"
  pc_local_sdp :: sdp_session
  pc_remote_sdp :: sdp_session
  pc_sessions :: "ice_session list"
  pc_ice :: "nat option"
  pc_dtls :: "'ssl dtls option"
  pc_srtp_initialized :: bool
  pc_srtp :: "srtp_context option"
  pc_srtp_rx :: "srtp_context option"

text \<open>What a connection does to its surroundings: callbacks, datagrams, closed sockets.\<close>

datatype pc_event =
    On_Ice_Candidate sdp_candidate
  | On_Connection_State_Change pc_state
  | On_Track_Added nat
  | On_Audio_Frame nat bytes u32
  | On_Video_Frame nat bytes u32
  | Udp_Send sockaddr bytes
  | Socket_Closed int

section \<open>Creation and closing\<close>

definition pc_new :: "pc_configuration \<Rightarrow> 'ssl peer_connection" where
  "pc_new config =
     \<lparr>pc_config = config, pc_state = TINYRTC_PC_STATE_NEW, pc_local_tracks = [], pc_remote_tracks = [],
      pc_local_sdp = sdp_session_init, pc_remote_sdp = sdp_session_init, pc_sessions = [], pc_ice = None,
      pc_dtls = None, pc_srtp_initialized = False, pc_srtp = None, pc_srtp_rx = None\<rparr>"

definition tinyrtc_peer_connection_close :: "'ssl peer_connection \<Rightarrow> 'ssl peer_connection \<times> pc_event list" where
  "tinyrtc_peer_connection_close pc =
     (pc\<lparr>pc_state := TINYRTC_PC_STATE_CLOSED\<rparr>,
      if pcc_on_connection_state_change (pc_config pc) then [On_Connection_State_Change TINYRTC_PC_STATE_CLOSED] else [])"

definition tinyrtc_peer_connection_get_state :: "'ssl peer_connection option \<Rightarrow> pc_state" where
  "tinyrtc_peer_connection_get_state pc = (case pc of None \<Rightarrow> TINYRTC_PC_STATE_FAILED | Some p \<Rightarrow> pc_state p)"

section \<open>Local tracks\<close>

text \<open>
  \<open>allocated\<close> is the address \<^verbatim>\<open>calloc\<close> returns; the result is the address of the track or NULL.  A
  configuration whose \<^verbatim>\<open>mid\<close> is NULL is dereferenced once the track is allocated.
\<close>

definition tinyrtc_peer_connection_add_track ::
  "nat option \<Rightarrow> track_fields option \<Rightarrow> 'ssl peer_connection \<Rightarrow> (nat option \<times> 'ssl peer_connection) option" where
  "tinyrtc_peer_connection_add_track allocated config pc =
     (case config of
        None \<Rightarrow> Some (None, pc)
      | Some f \<Rightarrow>
          if length (pc_local_tracks pc) \<ge> SDP_MAX_MEDIA then Some (None, pc)
          else
            (case allocated of
               None \<Rightarrow> Some (None, pc)
             | Some address \<Rightarrow> do {
                 c \<leftarrow> track_config_of_fields f;
                 Some (Some address, pc\<lparr>pc_local_tracks := pc_local_tracks pc @ [track_of_config address c]\<rparr>)
               }))"

definition tinyrtc_peer_connection_remove_track ::
  "nat option \<Rightarrow> 'ssl peer_connection \<Rightarrow> tinyrtc_error \<times> 'ssl peer_connection" where
  "tinyrtc_peer_connection_remove_track track pc =
     (case track of
        None \<Rightarrow> (TINYRTC_ERROR_INVALID_ARG, pc)
      | Some address \<Rightarrow>
          if \<exists>t \<in> set (pc_local_tracks pc). tk_address t = address then
            (TINYRTC_OK,
             pc\<lparr>pc_local_tracks := takeWhile (\<lambda>t. tk_address t \<noteq> address) (pc_local_tracks pc)
                  @ tl (dropWhile (\<lambda>t. tk_address t \<noteq> address) (pc_local_tracks pc))\<rparr>)
          else (TINYRTC_ERROR_NOT_FOUND, pc))"

section \<open>Descriptions\<close>

text \<open>The buffers of 32 and 64 bytes; \<open>now\<close> is the clock in milliseconds.\<close>

definition pc_generate_local_ice_credentials :: "u64 \<Rightarrow> sdp_session \<Rightarrow> sdp_session" where
  "pc_generate_local_ice_credentials now session =
     session\<lparr>ss_ice_ufrag := take 31 (''tiny'' @ show_word now),
       ss_ice_pwd := take 63 (''rtc'' @ show_word (now + 12345) @ ''random'')\<rparr>"

text \<open>\<open>seeded\<close> is the static flag of the random generator, which the call may set.\<close>

definition pc_dtls_role :: "'ssl peer_connection \<Rightarrow> dtls_role" where
  "pc_dtls_role pc = (if pcc_is_initiator (pc_config pc) then DTLS_ROLE_CLIENT else DTLS_ROLE_SERVER)"

definition pc_create_dtls ::
  "(bytes \<Rightarrow> bytes) \<Rightarrow> 'ssl dtls_init_env \<Rightarrow> bool \<Rightarrow> 'ssl peer_connection \<Rightarrow> 'ssl peer_connection option" where
  "pc_create_dtls sha256 env seeded pc =
     (case pc_dtls pc of
        Some _ \<Rightarrow> Some pc
      | None \<Rightarrow> map_option (\<lambda>(_, dtls). pc\<lparr>pc_dtls := dtls\<rparr>) (dtls_init sha256 env seeded (pc_dtls_role pc)))"

definition pc_ensure_local_dtls_material ::
  "(bytes \<Rightarrow> bytes) \<Rightarrow> 'ssl dtls_init_env \<Rightarrow> bool \<Rightarrow> sdp_session \<Rightarrow> 'ssl peer_connection
     \<Rightarrow> (sdp_session \<times> 'ssl peer_connection) option" where
  "pc_ensure_local_dtls_material sha256 env seeded session pc = do {
     pc \<leftarrow> pc_create_dtls sha256 env seeded pc;
     case pc_dtls pc of
       None \<Rightarrow> Some (session, pc)
     | Some dtls \<Rightarrow>
         (case dtls_get_fingerprint (Some dtls) (64 * 3) of (n, fingerprint) \<Rightarrow>
            Some (if n > 0
              then session\<lparr>ss_fingerprint_type := ''sha-256'', ss_fingerprint := strncpy_into 128 fingerprint\<rparr>
              else session, pc))
   }"

text \<open>What a description call needs from its surroundings.\<close>

record 'ssl description_env =
  de_sha256 :: "bytes \<Rightarrow> bytes"
  de_now_id :: u64
  de_now_version :: u64
  de_now_credentials :: u64
  de_dtls :: "'ssl dtls_init_env"
  de_seeded :: bool
  de_ice_alloc :: bool
  de_gather :: ice_gather_env
  de_sdp_alloc :: bool

definition pc_ice_events :: "pc_configuration \<Rightarrow> ice_event list \<Rightarrow> pc_event list" where
  "pc_ice_events config evs = concat (map (\<lambda>e. case e of
       Ice_Send addr bs \<Rightarrow> [Udp_Send addr bs]
     | Ice_On_Candidate c \<Rightarrow> if pcc_on_ice_candidate config then [On_Ice_Candidate c] else []) evs)"

definition ice_add_remote_candidates :: "sdp_candidate list \<Rightarrow> ice_session \<Rightarrow> ice_session" where
  "ice_add_remote_candidates cands ice = fold (\<lambda>c s. snd (ice_add_remote_candidate c s)) cands ice"

text \<open>
  A new ICE session, filled with the remote candidates known so far.  Without memory for it the code
  dereferences NULL.
\<close>

definition pc_start_ice ::
  "'ssl description_env \<Rightarrow> 'ssl peer_connection \<Rightarrow> (ice_session \<times> ice_event list) option" where
  "pc_start_ice env pc = do {
     ice0 \<leftarrow> ice_session_create (de_ice_alloc env);
     (_, ice1, evs) \<leftarrow> ice_start_gathering (de_gather env) (pcc_stun_server (pc_config pc)) ice0;
     Some (ice_add_remote_candidates (ss_candidates (pc_remote_sdp pc)) ice1, evs)
   }"

text \<open>
  The common end of both calls: the session is stored, an ICE session started, its local candidates
  are copied behind the session's own and reported, and the text is printed.
\<close>

definition pc_describe ::
  "'ssl description_env \<Rightarrow> sdp_session \<Rightarrow> 'ssl peer_connection
     \<Rightarrow> (tinyrtc_error \<times> string option \<times> 'ssl peer_connection \<times> pc_event list) option" where
  "pc_describe env session0 pc0 = do {
     (ice, ice_evs) \<leftarrow> pc_start_ice env pc0;
     let cands = map ice_candidate_to_sdp (ice_local ice);
     let session = session0\<lparr>ss_candidates := ss_candidates session0 @ cands\<rparr>;
     if length (ss_candidates session) > SDP_MAX_CANDIDATES then None
     else do {
       printed \<leftarrow> sdp_generate (de_sdp_alloc env) session;
       let pc = pc0\<lparr>pc_local_sdp := session, pc_sessions := pc_sessions pc0 @ [ice],
                    pc_ice := Some (length (pc_sessions pc0))\<rparr>;
       let evs = pc_ice_events (pc_config pc0) ice_evs
         @ (if pcc_on_ice_candidate (pc_config pc0) then map On_Ice_Candidate cands else []);
       Some (case printed of Inl e \<Rightarrow> (e, None, pc, evs) | Inr text \<Rightarrow> (TINYRTC_OK, Some text, pc, evs))
     }
   }"

definition pc_offer_session :: "u64 \<Rightarrow> u64 \<Rightarrow> sdp_session" where
  "pc_offer_session now_id now_version =
     sdp_session_init\<lparr>ss_version := 0, ss_username := ''-'', ss_session_id := now_id, ss_session_version := now_version,
       ss_network_type := ''IN'', ss_address_type := ''IP4'', ss_unicast_address := ''0.0.0.0'',
       ss_session_name := ''TinyRTC'', ss_start_time := 0, ss_stop_time := 0\<rparr>"

definition pc_add_tracks :: "track_config list \<Rightarrow> sdp_session \<Rightarrow> sdp_session" where
  "pc_add_tracks cfgs session = fold (\<lambda>cfg s. snd (sdp_add_media cfg s)) cfgs session"

text \<open>\<open>out_sdp\<close> says whether the pointer for the result is set.\<close>

definition tinyrtc_peer_connection_create_offer ::
  "'ssl description_env \<Rightarrow> bool \<Rightarrow> 'ssl peer_connection
     \<Rightarrow> (tinyrtc_error \<times> string option \<times> 'ssl peer_connection \<times> pc_event list) option" where
  "tinyrtc_peer_connection_create_offer env out_sdp pc =
     (if \<not> out_sdp then Some (TINYRTC_ERROR_INVALID_ARG, None, pc, [])
      else if pc_state pc = TINYRTC_PC_STATE_CLOSED then Some (TINYRTC_ERROR_INVALID_STATE, None, pc, [])
      else do {
        let offer = (pc_generate_local_ice_credentials (de_now_credentials env)
                      (pc_offer_session (de_now_id env) (de_now_version env)))\<lparr>ss_dtls_setup := ''actpass''\<rparr>;
        (offer, pc) \<leftarrow> pc_ensure_local_dtls_material (de_sha256 env) (de_dtls env) (de_seeded env) offer
                         (pc\<lparr>pc_state := TINYRTC_PC_STATE_CONNECTING\<rparr>);
        pc_describe env (pc_add_tracks (map track_offer_config (pc_local_tracks pc)) offer) pc
      })"

definition pc_answer_session :: "sdp_session \<Rightarrow> sdp_session" where
  "pc_answer_session remote =
     sdp_session_init\<lparr>ss_version := 0, ss_username := ss_username remote, ss_session_id := ss_session_id remote,
       ss_session_version := ss_session_version remote + 1, ss_network_type := ss_network_type remote,
       ss_address_type := ss_address_type remote, ss_unicast_address := ''0.0.0.0'',
       ss_session_name := ''TinyRTC'', ss_start_time := 0, ss_stop_time := 0\<rparr>"

text \<open>A remote medium is answered when some local track is of its kind.\<close>

definition pc_answer_configs :: "track list \<Rightarrow> sdp_media list \<Rightarrow> track_config list" where
  "pc_answer_configs tracks media =
     map (\<lambda>m. \<lparr>tc_kind = sm_kind m, tc_mid = sm_mid m, tc_codec_id = sm_codec_id m, tc_payload_type = sm_payload_type m,
                tc_clock_rate = sm_clock_rate m, tc_channels = sm_channels m\<rparr>)
       (filter (\<lambda>m. \<exists>t \<in> set tracks. tk_kind t = sm_kind m) media)"

definition tinyrtc_peer_connection_create_answer ::
  "'ssl description_env \<Rightarrow> bool \<Rightarrow> 'ssl peer_connection
     \<Rightarrow> (tinyrtc_error \<times> string option \<times> 'ssl peer_connection \<times> pc_event list) option" where
  "tinyrtc_peer_connection_create_answer env out_sdp pc =
     (if \<not> out_sdp then Some (TINYRTC_ERROR_INVALID_ARG, None, pc, [])
      else if pc_state pc = TINYRTC_PC_STATE_CLOSED then Some (TINYRTC_ERROR_INVALID_STATE, None, pc, [])
      else do {
        let answer = (pc_generate_local_ice_credentials (de_now_credentials env)
                       (pc_answer_session (pc_remote_sdp pc)))\<lparr>ss_dtls_setup := ''active''\<rparr>;
        (answer, pc) \<leftarrow> pc_ensure_local_dtls_material (de_sha256 env) (de_dtls env) (de_seeded env) answer
                          (pc\<lparr>pc_state := TINYRTC_PC_STATE_CONNECTING\<rparr>);
        pc_describe env
          (pc_add_tracks (pc_answer_configs (pc_local_tracks pc) (ss_media (pc_remote_sdp pc))) answer) pc
      })"

section \<open>Remote description\<close>

text \<open>
  One remote medium becomes a track with a jitter buffer; the three values say where \<^verbatim>\<open>calloc\<close> puts the
  track and which allocations of the jitter buffer succeed.
\<close>

type_synonym track_alloc = "nat option \<times> bool \<times> jitter_arrays"

definition pc_add_remote_track ::
  "track_alloc \<Rightarrow> sdp_media \<Rightarrow> 'ssl peer_connection \<Rightarrow> 'ssl peer_connection \<times> pc_event list" where
  "pc_add_remote_track alloc media pc =
     (case alloc of (allocated, struct_ok, arrays) \<Rightarrow>
        case (allocated, fst (tinyrtc_jitter_buffer_create struct_ok arrays (Some tinyrtc_jitter_get_default_config))) of
          (Some address, Some jb) \<Rightarrow>
            if length (pc_remote_tracks pc) < SDP_MAX_MEDIA then
              (pc\<lparr>pc_remote_tracks := pc_remote_tracks pc @ [track_of_media address media jb]\<rparr>,
               if pcc_on_track_added (pc_config pc) then [On_Track_Added address] else [])
            else (pc, [])
        | _ \<Rightarrow> (pc, []))"

fun pc_add_remote_tracks ::
  "(nat \<Rightarrow> track_alloc) \<Rightarrow> nat \<Rightarrow> sdp_media list \<Rightarrow> 'ssl peer_connection \<Rightarrow> 'ssl peer_connection \<times> pc_event list" where
  "pc_add_remote_tracks alloc i [] pc = (pc, [])"
| "pc_add_remote_tracks alloc i (m # ms) pc =
     (case pc_add_remote_track (alloc i) m pc of (pc, evs) \<Rightarrow>
        case pc_add_remote_tracks alloc (Suc i) ms pc of (pc, more_evs) \<Rightarrow> (pc, evs @ more_evs))"

definition pc_update_ice :: "(ice_session \<Rightarrow> ice_session) \<Rightarrow> 'ssl peer_connection \<Rightarrow> 'ssl peer_connection" where
  "pc_update_ice f pc =
     (case pc_ice pc of
        None \<Rightarrow> pc
      | Some k \<Rightarrow> pc\<lparr>pc_sessions := (pc_sessions pc)[k := f (pc_sessions pc ! k)]\<rparr>)"

text \<open>The parser fills \<^verbatim>\<open>remote_sdp\<close> in place, so a description it refuses still replaces the old one.\<close>

definition tinyrtc_peer_connection_set_remote_description ::
  "u64 \<times> u64 \<Rightarrow> (nat \<Rightarrow> track_alloc) \<Rightarrow> string option \<Rightarrow> 'ssl peer_connection
     \<Rightarrow> (tinyrtc_error \<times> 'ssl peer_connection \<times> pc_event list) option" where
  "tinyrtc_peer_connection_set_remote_description uninit alloc sdp pc =
     (case sdp of
        None \<Rightarrow> Some (TINYRTC_ERROR_INVALID_ARG, pc, [])
      | Some text \<Rightarrow>
          if pc_state pc = TINYRTC_PC_STATE_CLOSED then Some (TINYRTC_ERROR_INVALID_STATE, pc, [])
          else do {
            (err, session) \<leftarrow> sdp_parse uninit text;
            let pc = pc\<lparr>pc_remote_sdp := session\<rparr>;
            if err \<noteq> TINYRTC_OK then Some (err, pc, [])
            else
              (case pc_add_remote_tracks alloc 0 (ss_media session) pc of (pc, evs) \<Rightarrow>
                 Some (TINYRTC_OK, pc_update_ice (ice_add_remote_candidates (ss_candidates session)) pc, evs))
          })"

section \<open>Remote candidates\<close>

definition or_null :: "string \<Rightarrow> string option \<Rightarrow> string" where
  "or_null d s = (case s of None \<Rightarrow> d | Some v \<Rightarrow> v)"

definition pc_sdp_candidate :: "candidate_fields \<Rightarrow> sdp_candidate" where
  "pc_sdp_candidate c =
     \<lparr>sc_foundation = strncpy_into 32 (or_null [] (cf_foundation c)), sc_priority = cf_priority c,
      sc_ip = strncpy_into 64 (or_null [] (cf_ip c)), sc_port = cf_port c,
      sc_type = strncpy_into 32 (or_null [] (cf_type c)), sc_protocol = strncpy_into 16 (or_null ''udp'' (cf_protocol c)),
      sc_is_ipv6 = cf_is_ipv6 c\<rparr>"

text \<open>The candidate without NULL: \<^verbatim>\<open>strncpy\<close> of the session's list dereferences all four strings.\<close>

definition candidate_of_fields :: "candidate_fields \<Rightarrow> ice_candidate option" where
  "candidate_of_fields c =
     (case (cf_foundation c, cf_ip c, cf_type c, cf_protocol c) of
        (Some f, Some ip, Some type, Some protocol) \<Rightarrow>
          Some \<lparr>ic_foundation = f, ic_priority = cf_priority c, ic_ip = ip, ic_port = cf_port c, ic_type = type,
                ic_protocol = protocol, ic_is_ipv6 = cf_is_ipv6 c\<rparr>
      | _ \<Rightarrow> None)"

definition tinyrtc_peer_connection_add_ice_candidate ::
  "candidate_fields option \<Rightarrow> 'ssl peer_connection \<Rightarrow> (tinyrtc_error \<times> 'ssl peer_connection) option" where
  "tinyrtc_peer_connection_add_ice_candidate candidate pc =
     (case candidate of
        None \<Rightarrow> Some (TINYRTC_ERROR_INVALID_ARG, pc)
      | Some c \<Rightarrow>
          if (case cf_protocol c of None \<Rightarrow> False | Some p \<Rightarrow> \<not> strcasecmp_eq p ''udp'') then Some (TINYRTC_OK, pc)
          else if length (ss_candidates (pc_remote_sdp pc)) \<ge> SDP_MAX_CANDIDATES then Some (TINYRTC_ERROR, pc)
          else do {
            ic \<leftarrow> candidate_of_fields c;
            let pc = pc\<lparr>pc_remote_sdp := snd (sdp_add_candidate ic (pc_remote_sdp pc))\<rparr>;
            (case pc_ice pc of
               None \<Rightarrow> Some (TINYRTC_OK, pc)
             | Some k \<Rightarrow>
                 (case ice_add_remote_candidate (pc_sdp_candidate c) (pc_sessions pc ! k) of (err, ice) \<Rightarrow>
                    Some (err, pc\<lparr>pc_sessions := (pc_sessions pc)[k := ice]\<rparr>)))
          })"

section \<open>Secure media\<close>

definition pc_ice_session :: "'ssl peer_connection \<Rightarrow> ice_session option" where
  "pc_ice_session pc = map_option (\<lambda>k. pc_sessions pc ! k) (pc_ice pc)"

definition pc_is_secure_media_ready :: "'ssl peer_connection \<Rightarrow> bool" where
  "pc_is_secure_media_ready pc =
     (case pc_ice_session pc of
        None \<Rightarrow> False
      | Some ice \<Rightarrow> 0 \<le> ice_socket ice \<and> ice_is_connected (Some ice) \<and> pc_srtp_initialized pc)"

text \<open>The credentials the connectivity checks use are those of the two descriptions.\<close>

definition pc_credentials :: "'ssl peer_connection \<Rightarrow> ice_credentials" where
  "pc_credentials pc =
     \<lparr>cred_local_ufrag = ss_ice_ufrag (pc_local_sdp pc), cred_local_pwd = ss_ice_pwd (pc_local_sdp pc),
      cred_remote_ufrag = ss_ice_ufrag (pc_remote_sdp pc), cred_remote_pwd = ss_ice_pwd (pc_remote_sdp pc),
      cred_is_initiator = pcc_is_initiator (pc_config pc)\<rparr>"

end
