(* ===== verification/Packetize.thy ===== *)
theory Packetize
  imports Rtp Media_Codec
begin

text \<open>
  Frame packetisation of \<^verbatim>\<open>src/media/rtp.c\<close> (lines 695 to 961).  The packet callback is the list
  of its calls, each the payload and the marker; a pointer into the frame and the length that
  goes with it are one byte list, the rest of the frame.  \<open>alloc_ok\<close> says, for the NAL unit that
  starts at an offset of the frame, whether the \<^verbatim>\<open>malloc\<close> of its fragment buffer succeeds.
\<close>

type_synonym packet_calls = "(bytes \<times> bool) list"

definition H264_NALU_TYPE_STAP_A :: u8 where "H264_NALU_TYPE_STAP_A = 24"
definition H264_NALU_TYPE_FU_A :: u8 where "H264_NALU_TYPE_FU_A = 28"

record codec_packetization =
  cp_codec_id :: codec_id
  cp_payload_type :: int
  cp_mtu :: u32

section \<open>Start codes\<close>

definition h264_start_code_len :: "bytes \<Rightarrow> nat" where
  "h264_start_code_len d =
     (if 4 \<le> length d \<and> d ! 0 = 0 \<and> d ! 1 = 0 \<and> d ! 2 = 0 \<and> d ! 3 = 1 then 4
      else if 3 \<le> length d \<and> d ! 0 = 0 \<and> d ! 1 = 0 \<and> d ! 2 = 1 then 3
      else 0)"

fun h264_find_start_code :: "bytes \<Rightarrow> nat" where
  "h264_find_start_code [] = 0"
| "h264_find_start_code (x # xs) =
     (if h264_start_code_len (x # xs) \<noteq> 0 then 0 else Suc (h264_find_start_code xs))"

section \<open>One NAL unit\<close>

text \<open>
  The fragment loop of lines 766 to 781, at \<open>offset\<close> of the data after the NAL unit header.  The
  caller has checked that \<open>fragment_payload\<close> is not zero, which the definition tests once more to
  be total.
\<close>

function h264_fua_loop :: "u8 \<Rightarrow> bytes \<Rightarrow> nat \<Rightarrow> bool \<Rightarrow> nat \<Rightarrow> packet_calls" where
  "h264_fua_loop nalu_header nalu_data fragment_payload is_last_nalu offset =
     (let remaining = length nalu_data - offset in
      if remaining = 0 \<or> fragment_payload = 0 then []
      else
        (let chunk = min remaining fragment_payload;
             is_start = (offset = 0);
             is_end = (chunk = remaining);
             b0 = (nalu_header AND 0xE0) OR H264_NALU_TYPE_FU_A;
             b1 = (if is_start then 0x80 else 0x00) OR (if is_end then 0x40 else 0x00)
                    OR (nalu_header AND 0x1F) in
         (b0 # b1 # take chunk (drop offset nalu_data), is_last_nalu \<and> is_end)
         # h264_fua_loop nalu_header nalu_data fragment_payload is_last_nalu (offset + chunk)))"
  by pat_completeness auto
termination
  by (relation "measure (\<lambda>(h, d, f, l, off). length d - off)") auto

declare h264_fua_loop.simps [simp del]

text \<open>The number of packets and the callback's calls.\<close>

definition h264_packetize_nalu :: "bool \<Rightarrow> bytes \<Rightarrow> nat \<Rightarrow> bool \<Rightarrow> int \<times> packet_calls" where
  "h264_packetize_nalu alloc_ok nalu max_payload is_last_nalu =
     (let nalu_len = length nalu in
      if nalu_len = 0 then (0, [])
      else if nalu_len \<le> max_payload then (1, [(nalu, is_last_nalu)])
      else if max_payload \<le> 2 \<or> nalu_len \<le> 1 then (0, [])
      else if \<not> alloc_ok then (0, [])
      else (let calls = h264_fua_loop (hd nalu) (tl nalu) (max_payload - 2) is_last_nalu 0 in
            (int (length calls), calls)))"

section \<open>A frame\<close>

text \<open>The loop over the NAL units of a byte stream (lines 813 to 840).\<close>

lemma h264_start_code_len_cases: "h264_start_code_len d \<noteq> 0 \<Longrightarrow> 3 \<le> h264_start_code_len d"
  unfolding h264_start_code_len_def by (simp split: if_splits)

lemma h264_start_code_at:
  "h264_find_start_code d \<noteq> length d \<Longrightarrow> 3 \<le> h264_start_code_len (drop (h264_find_start_code d) d)"
  by (induction d) (simp_all add: h264_start_code_len_cases split: if_splits)

lemma h264_find_start_code_le: "h264_find_start_code d \<le> length d"
  by (induction d) simp_all

function h264_packetize_stream :: "(nat \<Rightarrow> bool) \<Rightarrow> bytes \<Rightarrow> nat \<Rightarrow> nat \<Rightarrow> int \<times> packet_calls" where
  "h264_packetize_stream alloc_ok frame max_payload offset =
     (if length frame \<le> offset then (0, [])
      else
        (let rest = drop offset frame;
             next_start = h264_find_start_code rest;
             nalu_len = (if next_start = length rest then length rest else next_start);
             next_start_code = h264_start_code_len (drop next_start rest) in
         if nalu_len = 0 then
           h264_packetize_stream alloc_ok frame max_payload (offset + next_start + next_start_code)
         else
           (let is_last_nalu = (next_start = length rest);
                (n, calls) = h264_packetize_nalu (alloc_ok offset) (take nalu_len rest) max_payload is_last_nalu in
            if next_start = length rest then (n, calls)
            else
              (let (m, more) = h264_packetize_stream alloc_ok frame max_payload
                                 (offset + next_start + next_start_code) in
               (n + m, calls @ more)))))"
  by pat_completeness auto
termination
proof (relation "measure (\<lambda>(a, frame, m, off). length frame - off)", goal_cases)
  case 1
  then show ?case by simp
next
  case (2 alloc_ok frame max_payload offset)
  have "h264_find_start_code (drop offset frame) \<noteq> length (drop offset frame)"
    using 2 by (auto split: if_splits)
  from h264_start_code_at [OF this] 2 show ?case by simp
next
  case (3 alloc_ok frame max_payload offset)
  then show ?case by (auto split: if_splits)
qed

declare h264_packetize_stream.simps [simp del]

text \<open>The generic chunk loop (lines 849 to 858); \<open>max_payload\<close> is at least 8 there.\<close>

function packetize_chunks :: "bytes \<Rightarrow> nat \<Rightarrow> nat \<Rightarrow> packet_calls" where
  "packetize_chunks frame max_payload offset =
     (if length frame \<le> offset \<or> max_payload = 0 then []
      else
        (let chunk_len = min (length frame - offset) max_payload in
         (take chunk_len (drop offset frame), offset + chunk_len = length frame)
         # packetize_chunks frame max_payload (offset + chunk_len)))"
  by pat_completeness auto
termination
  by (relation "measure (\<lambda>(frame, m, off). length frame - off)") auto

declare packetize_chunks.simps [simp del]

text \<open>
  \<^verbatim>\<open>tinyrtc_packetize_frame\<close>; \<open>None\<close> arguments are \<^verbatim>\<open>NULL\<close>, \<open>callback\<close> says that the function pointer
  is not.
\<close>

definition tinyrtc_packetize_frame ::
  "(nat \<Rightarrow> bool) \<Rightarrow> bytes option \<Rightarrow> codec_packetization option \<Rightarrow> bool \<Rightarrow> int \<times> packet_calls" where
  "tinyrtc_packetize_frame alloc_ok frame params callback =
     (case (frame, params) of
        (Some f, Some ps) \<Rightarrow>
          if \<not> callback then (0, [])
          else if cp_mtu ps < 20 then (0, [])
          else
            (let max_payload = unat (cp_mtu ps - 12) in
             if cp_codec_id ps = TINYRTC_CODEC_H264 then
               (let initial_start_code = h264_start_code_len f in
                if initial_start_code \<noteq> 0
                then h264_packetize_stream alloc_ok f max_payload initial_start_code
                else h264_packetize_nalu (alloc_ok 0) f max_payload True)
             else (let calls = packetize_chunks f max_payload 0 in (int (length calls), calls)))
      | _ \<Rightarrow> (0, []))"

section \<open>Depacketisation\<close>

text \<open>
  The result is undefined, or the C return value with the bytes of the frame buffer up to
  \<^verbatim>\<open>*frame_len\<close>.  Shown for arguments that are not \<^verbatim>\<open>NULL\<close>.
\<close>

definition h264_start_code :: bytes where
  "h264_start_code = [0x00, 0x00, 0x00, 0x01]"

definition depacketize_payload :: "codec_id \<Rightarrow> bytes \<Rightarrow> bool \<Rightarrow> nat \<Rightarrow> (bool \<times> bytes) option" where
  "depacketize_payload codec payload marker max_len =
     (if codec = TINYRTC_CODEC_H264 then
        (if length payload = 0 then Some (False, [])
         else do {
           b0 \<leftarrow> rd8 payload 0;
           let nalu_type = b0 AND 0x1F;
           if nalu_type > 0 \<and> nalu_type < H264_NALU_TYPE_STAP_A then
             if length payload + 4 > max_len then Some (False, [])
             else Some (marker, h264_start_code @ payload)
           else if nalu_type = H264_NALU_TYPE_FU_A then
             if length payload < 2 then Some (False, [])
             else do {
               fu_header \<leftarrow> rd8 payload 1;
               let is_start = fu_header AND 0x80 \<noteq> 0;
               let is_end = fu_header AND 0x40 \<noteq> 0;
               let fragment_len = length payload - 2;
               fragment \<leftarrow> rd_bytes payload 2 fragment_len;
               if is_start then
                 if fragment_len + 5 > max_len then Some (False, [])
                 else Some (marker \<or> is_end,
                        h264_start_code @ [(b0 AND 0xE0) OR (fu_header AND 0x1F)] @ fragment)
               else
                 if fragment_len > max_len then Some (False, [])
                 else Some (marker \<or> is_end, fragment)
             }
           else Some (False, [])
         })
      else if length payload > max_len then Some (False, [])
      else Some (marker, payload))"

definition tinyrtc_depacketize_frame :: "codec_id \<Rightarrow> bytes \<Rightarrow> nat \<Rightarrow> (bool \<times> bytes) option" where
  "tinyrtc_depacketize_frame codec packet max_len = do {
     parsed \<leftarrow> rtp_parse_header packet;
     case parsed of
       None \<Rightarrow> Some (False, [])
     | Some header \<Rightarrow> do {
         payload \<leftarrow> rtp_get_payload packet header;
         case payload of
           None \<Rightarrow> Some (False, [])
         | Some off \<Rightarrow> depacketize_payload codec (drop off packet) (hdr_marker header) max_len
       }
   }"

section \<open>FU-A header bytes\<close>

lemma fua_indicator:
  "((h AND 0xE0) OR H264_NALU_TYPE_FU_A) AND 0x1F = (H264_NALU_TYPE_FU_A :: u8)"
  unfolding H264_NALU_TYPE_FU_A_def by (rule byte_eqI) (simp_all add: bit_simps)

lemma fua_nalu_header:
  "(((h AND 0xE0) OR H264_NALU_TYPE_FU_A) AND 0xE0)
     OR (((if s then 0x80 else 0) OR (if e then 0x40 else 0) OR (h AND 0x1F)) AND 0x1F) = (h :: u8)"
  unfolding H264_NALU_TYPE_FU_A_def by (rule byte_eqI) (simp_all add: bit_simps)

lemma fua_flags:
  "((if s then 0x80 else 0) OR (if e then 0x40 else 0) OR (h AND 0x1F)) AND 0x80 \<noteq> (0 :: u8) \<longleftrightarrow> s"
  "((if s then 0x80 else 0) OR (if e then 0x40 else 0) OR (h AND 0x1F)) AND 0x40 \<noteq> (0 :: u8) \<longleftrightarrow> e"
proof -
  have "((if s then 0x80 else 0) OR (if e then 0x40 else 0) OR (h AND 0x1F)) AND 0x80
      = (if s then 0x80 else 0 :: u8)"
    by (rule byte_eqI) (simp_all add: bit_simps)
  moreover have "((if s then 0x80 else 0) OR (if e then 0x40 else 0) OR (h AND 0x1F)) AND 0x40
      = (if e then 0x40 else 0 :: u8)"
    by (rule byte_eqI) (simp_all add: bit_simps)
  ultimately show "((if s then 0x80 else 0) OR (if e then 0x40 else 0) OR (h AND 0x1F)) AND 0x80 \<noteq> (0 :: u8) \<longleftrightarrow> s"
    "((if s then 0x80 else 0) OR (if e then 0x40 else 0) OR (h AND 0x1F)) AND 0x40 \<noteq> (0 :: u8) \<longleftrightarrow> e"
    by simp_all
qed

text \<open>What the receiver makes of one fragment.\<close>

lemma depacketize_fragment:
  assumes "length xs + 5 \<le> max_len"
  shows "depacketize_payload TINYRTC_CODEC_H264
      (((h AND 0xE0) OR H264_NALU_TYPE_FU_A)
       # ((if s then 0x80 else 0) OR (if e then 0x40 else 0) OR (h AND 0x1F)) # xs) m max_len
    = Some (m \<or> e, (if s then h264_start_code @ [h] else []) @ xs)"
proof -
  define b1 :: u8 where "b1 = (if s then 0x80 else 0) OR (if e then 0x40 else 0) OR (h AND 0x1F)"
  have f: "b1 AND 0x80 \<noteq> 0 \<longleftrightarrow> s" "b1 AND 0x40 \<noteq> 0 \<longleftrightarrow> e"
    "(((h AND 0xE0) OR H264_NALU_TYPE_FU_A) AND 0xE0) OR (b1 AND 0x1F) = h"
    unfolding b1_def by (rule fua_flags fua_nalu_header)+
  show ?thesis
    unfolding b1_def [symmetric] depacketize_payload_def
    using assms by (simp add: wire_simps Let_def fua_indicator f rd_bytes_def)
      (simp add: H264_NALU_TYPE_FU_A_def H264_NALU_TYPE_STAP_A_def)
qed

text \<open>
  Depacketising a list of payloads: the completion flags and the bytes the receiver appends to
  its reassembly buffer.
\<close>

fun depacketize_calls :: "codec_id \<Rightarrow> nat \<Rightarrow> packet_calls \<Rightarrow> (bool list \<times> bytes) option" where
  "depacketize_calls codec max_len [] = Some ([], [])"
| "depacketize_calls codec max_len ((p, m) # cs) = do {
     (done, bs) \<leftarrow> depacketize_payload codec p m max_len;
     (ds, rest) \<leftarrow> depacketize_calls codec max_len cs;
     Some (done # ds, bs @ rest)
   }"

lemma depacketize_calls_append:
  "depacketize_calls codec max_len (xs @ ys) = do {
     (ds, bs) \<leftarrow> depacketize_calls codec max_len xs;
     (es, cs) \<leftarrow> depacketize_calls codec max_len ys;
     Some (ds @ es, bs @ cs)
   }"
  by (induction xs) (auto split: bind_splits prod.splits)

lemma last_flag_append:
  "ys \<noteq> [] \<Longrightarrow> replicate (length xs) False @ replicate (length ys - 1) False @ [b]
     = replicate (length (xs @ ys) - 1) False @ [b]"
  by (cases ys) (simp_all add: replicate_add [symmetric])

section \<open>Fragments\<close>

lemma h264_fua_loop_depacketize:
  assumes "0 < frag" and "frag + 5 \<le> max_len" and "off < length d"
  shows "depacketize_calls TINYRTC_CODEC_H264 max_len (h264_fua_loop h d frag l off)
    = Some (replicate (length (h264_fua_loop h d frag l off) - 1) False @ [True],
            (if off = 0 then h264_start_code @ [h] else []) @ drop off d)"
  using assms
proof (induction h d frag l off rule: h264_fua_loop.induct)
  case (1 h d frag l off)
  define chunk where "chunk = min (length d - off) frag"
  define more where "more = h264_fua_loop h d frag l (off + chunk)"
  define b0 where "b0 = (h AND 0xE0) OR H264_NALU_TYPE_FU_A"
  define b1 where "b1 = (if off = 0 then 0x80 else 0)
    OR (if chunk = length d - off then 0x40 else 0) OR (h AND 0x1F)"
  have unfold: "h264_fua_loop h d frag l off =
    (b0 # b1 # take chunk (drop off d), l \<and> chunk = length d - off) # more"
    using "1.prems" by (subst h264_fua_loop.simps) (simp add: Let_def chunk_def more_def b0_def b1_def)
  have len: "length (take chunk (drop off d)) + 5 \<le> max_len"
    using "1.prems" by (simp add: chunk_def)
  have one: "depacketize_payload TINYRTC_CODEC_H264 (b0 # b1 # take chunk (drop off d)) m max_len
    = Some (m \<or> chunk = length d - off, (if off = 0 then h264_start_code @ [h] else []) @ take chunk (drop off d))"
    for m
    unfolding b0_def b1_def by (rule depacketize_fragment [OF len])
  show ?case
  proof (cases "chunk = length d - off")
    case True
    then have "more = []"
      unfolding more_def by (subst h264_fua_loop.simps) simp
    with True one [of l] show ?thesis
      unfolding unfold by simp
  next
    case False
    then have off: "0 < chunk" "off + chunk < length d"
      using "1.prems" by (auto simp: chunk_def)
    with "1.IH" [OF refl _ refl refl refl refl refl, folded chunk_def more_def] "1.prems"
    have IH: "depacketize_calls TINYRTC_CODEC_H264 max_len more =
        Some (replicate (length more - 1) False @ [True], drop (off + chunk) d)"
      by auto
    have "more \<noteq> []"
      using off "1.prems" unfolding more_def by (subst h264_fua_loop.simps) (simp add: Let_def)
    then have "replicate (length more) False = False # replicate (length more - 1) False"
      by (cases more) simp_all
    moreover have "take chunk (drop off d) @ drop (off + chunk) d = drop off d"
      by (metis append_take_drop_id drop_drop add.commute)
    ultimately show ?thesis
      using False unfolding unfold
      by (auto simp: one IH)
  qed
qed

lemma h264_fua_loop_markers:
  assumes "0 < frag" and "off < length d"
  shows "map snd (h264_fua_loop h d frag l off)
    = replicate (length (h264_fua_loop h d frag l off) - 1) False @ [l]"
  using assms
proof (induction h d frag l off rule: h264_fua_loop.induct)
  case (1 h d frag l off)
  define chunk where "chunk = min (length d - off) frag"
  define more where "more = h264_fua_loop h d frag l (off + chunk)"
  have "\<exists>p. h264_fua_loop h d frag l off = (p, l \<and> chunk = length d - off) # more"
    using "1.prems" by (subst h264_fua_loop.simps) (simp add: Let_def chunk_def more_def)
  then obtain p where unfold: "h264_fua_loop h d frag l off = (p, l \<and> chunk = length d - off) # more" ..
  show ?case
  proof (cases "chunk = length d - off")
    case True
    then have "more = []"
      unfolding more_def by (subst h264_fua_loop.simps) simp
    with True show ?thesis unfolding unfold by simp
  next
    case False
    then have off: "off + chunk < length d" using "1.prems" by (auto simp: chunk_def)
    with "1.IH" [OF refl _ refl refl refl refl refl, folded chunk_def more_def] "1.prems"
    have IH: "map snd more = replicate (length more - 1) False @ [l]" by auto
    then have "more \<noteq> []" by auto
    then have "replicate (length more) False = False # replicate (length more - 1) False"
      by (cases more) simp_all
    with False IH show ?thesis unfolding unfold by simp
  qed
qed

lemma h264_fua_loop_sizes:
  "c \<in> set (h264_fua_loop h d frag l off) \<Longrightarrow> 0 < length (fst c) \<and> length (fst c) \<le> frag + 2"
proof (induction h d frag l off rule: h264_fua_loop.induct)
  case (1 h d frag l off)
  define chunk where "chunk = min (length d - off) frag"
  show ?case
  proof (cases "length d - off = 0 \<or> frag = 0")
    case True
    then have "h264_fua_loop h d frag l off = []"
      by (subst h264_fua_loop.simps) (simp add: Let_def)
    with "1.prems" show ?thesis by simp
  next
    case False
    then have "h264_fua_loop h d frag l off =
      (((h AND 0xE0) OR H264_NALU_TYPE_FU_A)
        # ((if off = 0 then 0x80 else 0x00) OR (if chunk = length d - off then 0x40 else 0x00) OR (h AND 0x1F))
        # take chunk (drop off d), l \<and> chunk = length d - off)
      # h264_fua_loop h d frag l (off + chunk)"
      by (subst h264_fua_loop.simps) (simp add: Let_def chunk_def)
    with "1.prems" consider "length (fst c) = Suc (Suc (min (length d - off) chunk))"
      | "c \<in> set (h264_fua_loop h d frag l (off + chunk))" by auto
    then show ?thesis
      using False "1.IH" [OF refl False refl refl refl refl refl, folded chunk_def]
      by cases (simp_all add: chunk_def)
  qed
qed

section \<open>NAL units\<close>

text \<open>A NAL unit the receiver supports: a single-unit type, and no start code inside.\<close>

definition h264_nalu_ok :: "bytes \<Rightarrow> bool" where
  "h264_nalu_ok n \<longleftrightarrow> n \<noteq> [] \<and> h264_find_start_code n = length n \<and>
     0 < hd n AND 0x1F \<and> hd n AND 0x1F < H264_NALU_TYPE_STAP_A"

lemma depacketize_single:
  "h264_nalu_ok n \<Longrightarrow> length n + 4 \<le> max_len \<Longrightarrow>
   depacketize_payload TINYRTC_CODEC_H264 n m max_len = Some (m, h264_start_code @ n)"
  by (cases n) (simp_all add: h264_nalu_ok_def depacketize_payload_def wire_simps)

lemma h264_packetize_nalu_depacketize:
  fixes l :: bool
  assumes n: "h264_nalu_ok n" and "2 < mp" and "mp + 4 \<le> max_len"
  defines "calls \<equiv> snd (h264_packetize_nalu True n mp l)"
  shows "map snd calls = replicate (length calls - 1) False @ [l]"
    and "\<exists>done. depacketize_calls TINYRTC_CODEC_H264 max_len calls = Some (done, h264_start_code @ n) \<and>
           done = replicate (length calls - 1) False @ [l \<or> mp < length n]"
proof -
  from n obtain h d where nd: "n = h # d" by (cases n) (simp_all add: h264_nalu_ok_def)
  consider "length n \<le> mp" | "mp < length n" by linarith
  then have "map snd calls = replicate (length calls - 1) False @ [l] \<and>
      depacketize_calls TINYRTC_CODEC_H264 max_len calls =
        Some (replicate (length calls - 1) False @ [l \<or> mp < length n], h264_start_code @ n)"
  proof cases
    case 1
    with nd have "calls = [(n, l)]"
      by (simp add: calls_def h264_packetize_nalu_def)
    with depacketize_single [OF n, of max_len] 1 assms(3) show ?thesis by simp
  next
    case 2
    with nd assms(2) have d: "0 < length d" by (cases d) simp_all
    with 2 nd assms(2) have "calls = h264_fua_loop h d (mp - 2) l 0"
      by (simp add: calls_def h264_packetize_nalu_def Let_def)
    moreover have "0 < length d" "0 < mp - 2" "mp - 2 + 5 \<le> max_len"
      using d assms(2,3) by simp_all
    ultimately show ?thesis
      using 2 nd h264_fua_loop_depacketize [of "mp - 2" max_len 0 d h l]
        h264_fua_loop_markers [of "mp - 2" 0 d h l]
      by simp
  qed
  then show "map snd calls = replicate (length calls - 1) False @ [l]"
    and "\<exists>done. depacketize_calls TINYRTC_CODEC_H264 max_len calls = Some (done, h264_start_code @ n) \<and>
           done = replicate (length calls - 1) False @ [l \<or> mp < length n]"
    by simp_all
qed

lemma h264_packetize_nalu_sizes:
  "c \<in> set (snd (h264_packetize_nalu ok n mp l)) \<Longrightarrow> 0 < length (fst c) \<and> length (fst c) \<le> mp"
  by (auto simp: h264_packetize_nalu_def Let_def split: if_splits dest!: h264_fua_loop_sizes)

lemma h264_packetize_nalu_count:
  "fst (h264_packetize_nalu ok n mp l) = int (length (snd (h264_packetize_nalu ok n mp l)))"
  by (simp add: h264_packetize_nalu_def Let_def)

section \<open>Splitting a byte stream at its start codes\<close>

lemma start_code_len_clean:
  "h264_start_code_len (x # xs) = 0 \<Longrightarrow> h264_start_code_len (x # xs @ h264_start_code @ ys) = 0"
proof -
  assume a: "h264_start_code_len (x # xs) = 0"
  consider "xs = []" | y where "xs = [y]" | y z where "xs = [y, z]" | y z w zs where "xs = y # z # w # zs"
    by (metis list.exhaust)
  then show ?thesis
    by cases (use a in \<open>auto simp: h264_start_code_len_def h264_start_code_def split: if_splits\<close>)
qed

lemma find_start_code_clean:
  "h264_find_start_code n = length n \<Longrightarrow>
   h264_find_start_code (n @ h264_start_code @ ys) = length n"
proof (induction n)
  case Nil
  then show ?case by (simp add: h264_start_code_def h264_start_code_len_def)
next
  case (Cons x xs)
  then have "h264_start_code_len (x # xs) = 0" "h264_find_start_code xs = length xs"
    by (simp_all split: if_splits)
  with Cons.IH start_code_len_clean [of x xs ys] show ?case by simp
qed

lemma start_code_len_start [simp]: "h264_start_code_len (h264_start_code @ ys) = 4"
  by (simp add: h264_start_code_len_def h264_start_code_def)

lemma length_start_code [simp]: "length h264_start_code = 4"
  by (simp add: h264_start_code_def)

lemma h264_stream_last:
  assumes "h264_nalu_ok n"
  shows "h264_packetize_stream ok (pre @ n) mp (length pre) = h264_packetize_nalu (ok (length pre)) n mp True"
  using assms by (subst h264_packetize_stream.simps) (simp add: h264_nalu_ok_def Let_def)

lemma h264_stream_next:
  assumes "h264_nalu_ok n"
  shows "h264_packetize_stream ok (pre @ n @ h264_start_code @ ys) mp (length pre) =
    (case h264_packetize_nalu (ok (length pre)) n mp False of (k, calls) \<Rightarrow>
     case h264_packetize_stream ok ((pre @ n @ h264_start_code) @ ys) mp (length (pre @ n @ h264_start_code)) of
       (m, tail) \<Rightarrow> (k + m, calls @ tail))"
  using assms find_start_code_clean [of n ys]
  by (subst h264_packetize_stream.simps) (simp add: h264_nalu_ok_def Let_def add.assoc)

text \<open>The frames the encoder produces: NAL units, each behind a four-byte start code.\<close>

definition h264_stream_of :: "bytes list \<Rightarrow> bytes" where
  "h264_stream_of ns = concat (map (\<lambda>n. h264_start_code @ n) ns)"

lemma h264_stream_depacketize:
  assumes "2 < mp" and "mp + 4 \<le> max_len" and "\<And>i. ok i"
    and "\<forall>m \<in> set (n # ns). h264_nalu_ok m"
  shows "\<exists>calls done. h264_packetize_stream ok (pre @ n @ h264_stream_of ns) mp (length pre) = (int (length calls), calls) \<and>
     map snd calls = replicate (length calls - 1) False @ [True] \<and>
     depacketize_calls TINYRTC_CODEC_H264 max_len calls = Some (done, h264_stream_of (n # ns)) \<and>
     done \<noteq> [] \<and> last done \<and>
     ((\<forall>m \<in> set (butlast (n # ns)). length m \<le> mp) \<longrightarrow> done = replicate (length calls - 1) False @ [True])"
  using assms(4)
proof (induction ns arbitrary: n pre)
  case Nil
  then have n: "h264_nalu_ok n" by simp
  let ?calls = "snd (h264_packetize_nalu True n mp True)"
  have "h264_packetize_stream ok (pre @ n) mp (length pre) = (int (length ?calls), ?calls)"
    using h264_stream_last [OF n, of ok pre mp] assms(3) h264_packetize_nalu_count [of True n mp True]
    by (simp add: prod_eq_iff)
  with h264_packetize_nalu_depacketize [OF n assms(1,2), of True] show ?case
    by (auto simp: h264_stream_of_def)
next
  case (Cons n' ns)
  then have n: "h264_nalu_ok n" by simp
  let ?c = "snd (h264_packetize_nalu True n mp False)"
  let ?pre = "pre @ n @ h264_start_code"
  from Cons.IH [of n' ?pre] Cons.prems obtain tail ds where
      s: "h264_packetize_stream ok (?pre @ n' @ h264_stream_of ns) mp (length ?pre) = (int (length tail), tail)"
    and m: "map snd tail = replicate (length tail - 1) False @ [True]"
    and d: "depacketize_calls TINYRTC_CODEC_H264 max_len tail = Some (ds, h264_stream_of (n' # ns))"
      "ds \<noteq> []" "last ds" "(\<forall>m \<in> set (butlast (n' # ns)). length m \<le> mp) \<longrightarrow> ds = replicate (length tail - 1) False @ [True]"
    by auto
  have p: "h264_packetize_nalu (ok (length pre)) n mp False = (int (length ?c), ?c)"
    using assms(3) h264_packetize_nalu_count [of True n mp False] by (simp add: prod_eq_iff)
  have st: "h264_stream_of (n' # ns) = h264_start_code @ n' @ h264_stream_of ns"
    by (simp add: h264_stream_of_def)
  have "h264_packetize_stream ok (pre @ n @ h264_stream_of (n' # ns)) mp (length pre)
      = (int (length (?c @ tail)), ?c @ tail)"
    unfolding st h264_stream_next [OF n] p using s by simp
  moreover obtain cs where "depacketize_calls TINYRTC_CODEC_H264 max_len ?c = Some (cs, h264_start_code @ n)"
    and c: "map snd ?c = replicate (length ?c - 1) False @ [False]" and cs: "cs = replicate (length ?c - 1) False @ [mp < length n]"
    using h264_packetize_nalu_depacketize [OF n assms(1,2), of False] by auto
  then have "depacketize_calls TINYRTC_CODEC_H264 max_len (?c @ tail)
      = Some (cs @ ds, h264_stream_of (n # n' # ns))"
    using d by (simp add: depacketize_calls_append h264_stream_of_def)
  moreover have "map snd (?c @ tail) = replicate (length (?c @ tail) - 1) False @ [True]"
  proof -
    have "?c \<noteq> []" "tail \<noteq> []" using c m by auto
    then have "map snd ?c = replicate (length ?c) False"
      using c by (cases ?c) (simp_all add: replicate_append_same)
    with m \<open>tail \<noteq> []\<close> show ?thesis
      by (cases tail) (simp_all add: replicate_add)
  qed
  moreover have "cs @ ds \<noteq> [] \<and> last (cs @ ds)" using d(2,3) by simp
  moreover have "cs @ ds = replicate (length (?c @ tail) - 1) False @ [True]"
    if "\<forall>m \<in> set (butlast (n # n' # ns)). length m \<le> mp"
  proof -
    have "?c \<noteq> []" "tail \<noteq> []" using c m by auto
    moreover have "cs = replicate (length ?c - 1) False @ [False]" "ds = replicate (length tail - 1) False @ [True]"
      using that cs d(4) by simp_all
    ultimately show ?thesis
      by (cases ?c; cases tail) (simp_all add: replicate_add replicate_append_same)
  qed
  ultimately show ?case by blast
qed

text \<open>The frame of several units as the packetiser of the public interface sees it.\<close>

lemma h264_frame_calls:
  assumes "ns \<noteq> []" and "\<forall>n \<in> set ns. h264_nalu_ok n"
    and "20 \<le> unat (cp_mtu params)" and "cp_codec_id params = TINYRTC_CODEC_H264"
    and "unat (cp_mtu params) \<le> max_len + 8" and "\<forall>i. alloc_ok i"
  shows "\<exists>calls done. tinyrtc_packetize_frame alloc_ok (Some (h264_stream_of ns)) (Some params) True
         = (int (length calls), calls) \<and>
     map snd calls = replicate (length calls - 1) False @ [True] \<and>
     depacketize_calls TINYRTC_CODEC_H264 max_len calls = Some (done, h264_stream_of ns) \<and>
     done \<noteq> [] \<and> last done \<and>
     ((\<forall>m \<in> set (butlast ns). length m + 12 \<le> unat (cp_mtu params)) \<longrightarrow> done = replicate (length calls - 1) False @ [True])"
proof -
  from assms(1) obtain n ms where ns: "ns = n # ms" by (cases ns) auto
  have m: "\<not> cp_mtu params < 20" and u: "unat (cp_mtu params - 12) = unat (cp_mtu params) - 12"
    using assms(3) by (simp_all add: word_less_nat_alt unat_sub word_le_nat_alt)
  have f: "h264_stream_of ns = h264_start_code @ n @ h264_stream_of ms"
    by (simp add: ns h264_stream_of_def)
  have "tinyrtc_packetize_frame alloc_ok (Some (h264_stream_of ns)) (Some params) True =
      h264_packetize_stream alloc_ok (h264_start_code @ n @ h264_stream_of ms) (unat (cp_mtu params) - 12)
        (length h264_start_code)"
    using m assms(4) by (simp add: tinyrtc_packetize_frame_def Let_def f u)
  moreover have "length x + 12 \<le> unat (cp_mtu params) \<longleftrightarrow> length x \<le> unat (cp_mtu params) - 12" for x :: bytes
    using assms(3) by linarith
  ultimately show ?thesis
    using h264_stream_depacketize [of "unat (cp_mtu params) - 12" max_len alloc_ok n ms h264_start_code] assms(2,3,5,6)
    by (simp only: ns)
qed

section \<open>RTP packets around the payloads\<close>

text \<open>
  What a sender makes of the calls: a header with the call's marker, the sequence number going
  up by one from packet to packet, then the payload.
\<close>

fun rtp_packets :: "rtp_header \<Rightarrow> packet_calls \<Rightarrow> bytes list" where
  "rtp_packets h [] = []"
| "rtp_packets h ((p, m) # cs) =
     (case tinyrtc_rtp_build_header (Some (h\<lparr>hdr_marker := m\<rparr>)) (12 + 4 * length (hdr_csrc h)) of
        Some (n, bs) \<Rightarrow> (bs @ p) # rtp_packets (h\<lparr>hdr_sequence := hdr_sequence h + 1\<rparr>) cs
      | None \<Rightarrow> [])"

fun depacketize_all :: "codec_id \<Rightarrow> nat \<Rightarrow> bytes list \<Rightarrow> (bool list \<times> bytes) option" where
  "depacketize_all codec max_len [] = Some ([], [])"
| "depacketize_all codec max_len (p # ps) = do {
     (done, bs) \<leftarrow> tinyrtc_depacketize_frame codec p max_len;
     (ds, rest) \<leftarrow> depacketize_all codec max_len ps;
     Some (done # ds, bs @ rest)
   }"

lemma rtp_header_wf_update [simp]:
  "rtp_header_wf (h\<lparr>hdr_marker := m\<rparr>) = rtp_header_wf h"
  "rtp_header_wf (h\<lparr>hdr_sequence := q\<rparr>) = rtp_header_wf h"
  by (simp_all add: rtp_header_wf_def)

lemma depacketize_all_packets:
  "rtp_header_wf h \<Longrightarrow>
   depacketize_all codec max_len (rtp_packets h calls) = depacketize_calls codec max_len calls"
proof (induction calls arbitrary: h)
  case Nil
  then show ?case by simp
next
  case (Cons c cs)
  obtain p m where c: "c = (p, m)" by (cases c)
  define g where "g = h\<lparr>hdr_marker := m\<rparr>"
  define bs where "bs = rtp_fixed_part g @ concat (map wr32 (hdr_csrc g))"
  have g: "rtp_header_wf g" using Cons.prems by (simp add: g_def)
  have b: "tinyrtc_rtp_build_header (Some g) (12 + 4 * length (hdr_csrc h)) = Some (length bs, bs)"
    unfolding bs_def by (rule rtp_build_wf [OF g]) (simp add: g_def)
  have "tinyrtc_depacketize_frame codec (bs @ p) max_len = depacketize_payload codec p m max_len"
    using rtp_parse_built [OF g, of p] rtp_payload_built(2) [OF g, of p]
    by (simp add: tinyrtc_depacketize_frame_def bs_def g_def)
  with Cons.IH [of "h\<lparr>hdr_sequence := hdr_sequence h + 1\<rparr>"] Cons.prems show ?case
    by (simp add: c b [unfolded g_def])
qed

section \<open>Chunks\<close>

lemma packetize_chunks_spec:
  "0 < mp \<Longrightarrow> off < length f \<Longrightarrow>
   concat (map fst (packetize_chunks f mp off)) = drop off f \<and>
   map snd (packetize_chunks f mp off) = replicate (length (packetize_chunks f mp off) - 1) False @ [True] \<and>
   length (packetize_chunks f mp off) = (length f - off + mp - 1) div mp"
proof (induction f mp off rule: packetize_chunks.induct)
  case (1 f mp off)
  define chunk where "chunk = min (length f - off) mp"
  define tail where "tail = packetize_chunks f mp (off + chunk)"
  have unfold: "packetize_chunks f mp off = (take chunk (drop off f), off + chunk = length f) # tail"
    using "1.prems" by (subst packetize_chunks.simps) (simp add: Let_def chunk_def tail_def)
  show ?case
  proof (cases "off + chunk < length f")
    case True
    then have c: "chunk = mp" by (auto simp: chunk_def)
    from True "1.IH" [OF _ refl, folded chunk_def tail_def] "1.prems"
    have IH: "concat (map fst tail) = drop (off + chunk) f"
      "map snd tail = replicate (length tail - 1) False @ [True]"
      "length tail = (length f - (off + chunk) + mp - 1) div mp" by auto
    from IH(2) have "tail \<noteq> []" by auto
    then have r: "replicate (length tail) False = False # replicate (length tail - 1) False"
      by (cases tail) simp_all
    have "length f - off + mp - 1 = (length f - (off + chunk) + mp - 1) + mp"
      using True c "1.prems" by linarith
    then have "(length f - off + mp - 1) div mp = Suc ((length f - (off + chunk) + mp - 1) div mp)"
      using "1.prems"(1) by (metis Suc_eq_plus1 div_add_self2 less_numeral_extra(3))
    moreover have "take chunk (drop off f) @ drop (off + chunk) f = drop off f"
      by (metis append_take_drop_id drop_drop add.commute)
    ultimately show ?thesis
      using True unfolding unfold by (simp add: IH(1,2) r) (simp add: IH(3))
  next
    case False
    with "1.prems" have e: "off + chunk = length f"
      by (simp add: chunk_def min_def split: if_splits)
    then have t: "tail = []"
      unfolding tail_def by (subst packetize_chunks.simps) simp
    have "length f - off \<le> mp" "0 < length f - off"
      using False "1.prems" by (auto simp: chunk_def min_def split: if_splits)
    then have "(length f - off + mp - 1) div mp = 1"
      by (intro div_nat_eqI) auto
    with t e show ?thesis
      unfolding unfold by simp
  qed
qed

lemma packetize_chunks_sizes:
  "c \<in> set (packetize_chunks f mp off) \<Longrightarrow> 0 < length (fst c) \<and> length (fst c) \<le> mp"
proof (induction f mp off rule: packetize_chunks.induct)
  case (1 f mp off)
  show ?case
  proof (cases "length f \<le> off \<or> mp = 0")
    case True
    then have "packetize_chunks f mp off = []" by (subst packetize_chunks.simps) simp
    with "1.prems" show ?thesis by simp
  next
    case False
    with "1.prems" consider "length (fst c) = min (length f - off) mp"
      | "c \<in> set (packetize_chunks f mp (off + min (length f - off) mp))"
      by (subst (asm) (2) packetize_chunks.simps) (auto simp: Let_def)
    then show ?thesis
      using False "1.IH" [OF False refl] by cases simp_all
  qed
qed

lemma h264_packetize_stream_sizes:
  "c \<in> set (snd (h264_packetize_stream ok f mp off)) \<Longrightarrow> 0 < length (fst c) \<and> length (fst c) \<le> mp"
proof (induction ok f mp off rule: h264_packetize_stream.induct)
  case (1 ok f mp off)
  show ?case
  proof (cases "length f \<le> off")
    case True
    then have "h264_packetize_stream ok f mp off = (0, [])"
      by (subst h264_packetize_stream.simps) simp
    with "1.prems" show ?thesis by simp
  next
    case False
    define next_start where "next_start = h264_find_start_code (drop off f)"
    define nalu_len where
      "nalu_len = (if next_start = length (drop off f) then length (drop off f) else next_start)"
    define off' where "off' = off + next_start + h264_start_code_len (drop next_start (drop off f))"
    define l where "l = (next_start = length (drop off f))"
    define one where "one = h264_packetize_nalu (ok off) (take nalu_len (drop off f)) mp l"
    have unfold: "h264_packetize_stream ok f mp off =
      (if nalu_len = 0 then h264_packetize_stream ok f mp off'
       else if l then one
       else (fst one + fst (h264_packetize_stream ok f mp off'), snd one @ snd (h264_packetize_stream ok f mp off')))"
      using False
      by (subst h264_packetize_stream.simps)
        (simp add: Let_def split_beta one_def off'_def l_def nalu_len_def next_start_def del: length_drop)
    have IH1: "nalu_len = 0 \<Longrightarrow> ?thesis"
      using "1.IH"(1) [OF False refl refl refl refl, folded next_start_def, folded nalu_len_def off'_def]
        "1.prems" unfolding unfold by (simp add: off'_def)
    have IH2: "nalu_len \<noteq> 0 \<Longrightarrow> \<not> l \<Longrightarrow> c \<in> set (snd (h264_packetize_stream ok f mp off')) \<Longrightarrow> ?thesis"
      using "1.IH"(2) [OF False refl refl refl refl _ refl, folded next_start_def, folded nalu_len_def off'_def]
      by (simp add: off'_def l_def one_def split_beta prod_eq_iff)
    from "1.prems" show ?thesis
      unfolding unfold
      using IH1 IH2 h264_packetize_nalu_sizes [of c "ok off" "take nalu_len (drop off f)" mp l, folded one_def]
      by (auto split: if_splits)
  qed
qed

lemma packetize_frame_payload:
  assumes "(payload, marker) \<in> set (snd (tinyrtc_packetize_frame alloc_ok frame (Some params) callback))"
  shows "0 < length payload \<and> length payload + 12 \<le> unat (cp_mtu params)"
proof -
  have "20 \<le> cp_mtu params"
    using assms by (auto simp: tinyrtc_packetize_frame_def not_less split: if_splits option.splits)
  then have "unat (cp_mtu params - 12) + 12 = unat (cp_mtu params)"
    by (simp add: unat_sub word_le_nat_alt)
  with assms show ?thesis
    by (auto simp: tinyrtc_packetize_frame_def Let_def split: if_splits option.splits
        dest!: h264_packetize_stream_sizes h264_packetize_nalu_sizes packetize_chunks_sizes)
qed

section \<open>Properties\<close>



text \<open>C17: frames of the other codecs are cut into full payloads: their concatenation is the frame,
  their number is the frame length divided by the payload size, rounded up, and exactly the last
  packet carries the marker.\<close>
theorem packetize_frame_chunks:
  assumes "cp_codec_id params \<noteq> TINYRTC_CODEC_H264" and "20 \<le> unat (cp_mtu params)" and "frame \<noteq> []"
  shows "\<exists>calls. tinyrtc_packetize_frame alloc_ok (Some frame) (Some params) True = (int (length calls), calls) \<and>
     concat (map fst calls) = frame \<and>
     map snd calls = replicate (length calls - 1) False @ [True] \<and>
     length calls = (length frame + (unat (cp_mtu params) - 12) - 1) div (unat (cp_mtu params) - 12)"
proof -
  have m: "\<not> cp_mtu params < 20" and u: "unat (cp_mtu params - 12) = unat (cp_mtu params) - 12"
    using assms(2) by (simp_all add: word_less_nat_alt unat_sub word_le_nat_alt)
  from packetize_chunks_spec [of "unat (cp_mtu params) - 12" 0 frame] assms m u show ?thesis
    by (simp add: tinyrtc_packetize_frame_def Let_def)
qed

theorem packetize_frame_chunks_witness:
  "\<exists>calls. tinyrtc_packetize_frame (\<lambda>_. True) (Some [1, 2, 3, 4, 5, 6, 7, 8, 9])
       (Some \<lparr>cp_codec_id = TINYRTC_CODEC_PCMU, cp_payload_type = 0, cp_mtu = 20\<rparr>) True = (2, calls)"
  using packetize_frame_chunks [of "\<lparr>cp_codec_id = TINYRTC_CODEC_PCMU, cp_payload_type = 0, cp_mtu = 20\<rparr>"
      "[1, 2, 3, 4, 5, 6, 7, 8, 9]" "\<lambda>_. True"]
  by auto

text \<open>C5: an H.264 frame survives the trip.  A frame of NAL units with four-byte start codes is
  packetised, each payload wrapped in an RTP header and depacketised again: the bytes the
  receiver collects are the frame, the marker is on the last packet only, and the last packet
  completes the frame.\<close>
theorem h264_frame_roundtrip:
  assumes "ns \<noteq> []" and "\<forall>n \<in> set ns. h264_nalu_ok n"
    and "20 \<le> unat (cp_mtu params)" and "cp_codec_id params = TINYRTC_CODEC_H264"
    and "unat (cp_mtu params) \<le> max_len + 8" and "rtp_header_wf h" and "\<And>i. alloc_ok i"
  shows "\<exists>calls done. tinyrtc_packetize_frame alloc_ok (Some (h264_stream_of ns)) (Some params) True
         = (int (length calls), calls) \<and>
     map snd calls = replicate (length calls - 1) False @ [True] \<and>
     depacketize_all TINYRTC_CODEC_H264 max_len (rtp_packets h calls) = Some (done, h264_stream_of ns) \<and>
     done \<noteq> [] \<and> last done"
  using h264_frame_calls [OF assms(1-5)] assms(7) unfolding depacketize_all_packets [OF assms(6)] by blast

lemma h264_nalu_examples:
  "h264_nalu_ok [0x67, 1, 2]" "h264_nalu_ok [0x65, 1, 2, 3, 4, 5, 6, 7, 8, 9]"
  by (simp_all add: h264_nalu_ok_def h264_start_code_len_def H264_NALU_TYPE_STAP_A_def)

theorem h264_frame_roundtrip_witness:
  "\<exists>calls done. tinyrtc_packetize_frame (\<lambda>_. True)
       (Some (h264_stream_of [[0x67, 1, 2], [0x65, 1, 2, 3, 4, 5, 6, 7, 8, 9]]))
       (Some \<lparr>cp_codec_id = TINYRTC_CODEC_H264, cp_payload_type = 100, cp_mtu = 20\<rparr>) True
       = (int (length calls), calls) \<and>
     depacketize_all TINYRTC_CODEC_H264 100 (rtp_packets rtp_example calls) =
       Some (done, h264_stream_of [[0x67, 1, 2], [0x65, 1, 2, 3, 4, 5, 6, 7, 8, 9]])"
  using h264_frame_roundtrip [of "[[0x67, 1, 2], [0x65, 1, 2, 3, 4, 5, 6, 7, 8, 9]]"
      "\<lparr>cp_codec_id = TINYRTC_CODEC_H264, cp_payload_type = 100, cp_mtu = 20\<rparr>" 100 rtp_example "\<lambda>_. True"]
  by (auto simp: h264_nalu_examples rtp_header_wf_def rtp_example_def)

text \<open>C26: a fragmented NAL unit that is not the last of its frame is reported as a complete frame:
  none of its packets carries the marker, but the depacketiser returns \<^verbatim>\<open>true\<close> for its last
  fragment.\<close>
theorem h264_fragmented_unit_completes_early:
  assumes "h264_nalu_ok n" and "2 < mp" and "mp < length n" and "mp + 4 \<le> max_len"
  shows "\<exists>calls done. snd (h264_packetize_nalu True n mp False) = calls \<and> calls \<noteq> [] \<and>
     True \<notin> snd ` set calls \<and>
     depacketize_calls TINYRTC_CODEC_H264 max_len calls = Some (done, h264_start_code @ n) \<and> last done"
proof -
  let ?calls = "snd (h264_packetize_nalu True n mp False)"
  from h264_packetize_nalu_depacketize [OF assms(1,2,4), of False] assms(3)
  have m: "map snd ?calls = replicate (length ?calls - 1) False @ [False]"
    and d: "depacketize_calls TINYRTC_CODEC_H264 max_len ?calls =
      Some (replicate (length ?calls - 1) False @ [True], h264_start_code @ n)" by auto
  have "set (map snd ?calls) \<subseteq> {False}" unfolding m by (auto dest: in_set_replicate [THEN iffD1])
  moreover have "?calls \<noteq> []" using m by auto
  ultimately show ?thesis using d by (intro exI conjI) auto
qed

theorem h264_fragmented_unit_completes_early_witness:
  "\<exists>calls done. snd (h264_packetize_nalu True [0x65, 1, 2, 3, 4, 5, 6, 7, 8, 9] 8 False) = calls \<and>
     True \<notin> snd ` set calls \<and>
     depacketize_calls TINYRTC_CODEC_H264 20 calls =
       Some (done, h264_start_code @ [0x65, 1, 2, 3, 4, 5, 6, 7, 8, 9]) \<and> last done"
  using h264_fragmented_unit_completes_early [OF h264_nalu_examples(2), of 8 20] by auto

end
