(* ===== verification/Media_Path.thy ===== *)
theory Media_Path
  imports Peer_Connection Packetize
begin

text \<open>
  Media of a peer connection, \<^verbatim>\<open>src/peer_connection.c\<close> from \<^verbatim>\<open>packetize_send_callback\<close> on: a frame is
  packetised, each payload gets an RTP header, is encrypted and sent to the selected candidate; a
  received packet is decrypted, assigned to a track by its payload type, put into the jitter buffer,
  depacketised and, when it completes a frame, reported.
\<close>

definition TINYRTC_SEND_MTU :: u32 where "TINYRTC_SEND_MTU = 1500"
definition TINYRTC_SRTP_AUTH_TAG_RESERVED :: u32 where "TINYRTC_SRTP_AUTH_TAG_RESERVED = 10"

section \<open>Sending\<close>

text \<open>
  The state the packetiser's callback works on: the next sequence number of the call, the one kept
  in the track, the SRTP context and the datagrams sent so far.
\<close>

record media_send =
  ms_sequence :: u16
  ms_next_sequence :: u16
  ms_srtp :: "srtp_context option"
  ms_sent :: datagrams

definition send_header :: "int \<Rightarrow> u16 \<Rightarrow> u32 \<Rightarrow> bool \<Rightarrow> rtp_header" where
  "send_header payload_type sequence timestamp marker =
     \<lparr>hdr_version = 2, hdr_padding = False, hdr_extension = False, hdr_csrc_count = 0, hdr_marker = marker,
      hdr_payload_type = word_of_int payload_type, hdr_sequence = sequence, hdr_timestamp = timestamp, hdr_ssrc = 0,
      hdr_num_csrc = 0, hdr_csrc = []\<rparr>"

text \<open>
  Encryption and transmission of the packet in the first \<open>len\<close> bytes of the 1500-byte buffer; the
  rest of the buffer is not initialised and not read, zeros stand for it.
\<close>

definition send_datagram ::
  "(sockaddr \<Rightarrow> bytes \<Rightarrow> int) \<Rightarrow> 'ssl peer_connection \<Rightarrow> bytes \<Rightarrow> media_send \<Rightarrow> media_send option" where
  "send_datagram sendto pc datagram st = do {
     ice \<leftarrow> pc_ice_session pc;
     i \<leftarrow> ice_selected_pair ice;
     remote \<leftarrow> ice_selected_remote ice i;
     (case inet_pton (ica_ip remote) of
        None \<Rightarrow> Some st
      | Some ip \<Rightarrow>
          let addr = (ip, ica_port remote) in
          if sendto addr datagram < 0 then Some st
          else Some (st\<lparr>ms_next_sequence := ms_sequence st, ms_sent := ms_sent st @ [(addr, datagram)]\<rparr>))
   }"

definition packetize_send_callback ::
  "cipher \<Rightarrow> cipher \<Rightarrow> (sockaddr \<Rightarrow> bytes \<Rightarrow> int) \<Rightarrow> 'ssl peer_connection \<Rightarrow> int \<Rightarrow> u32
     \<Rightarrow> bytes \<times> bool \<Rightarrow> media_send \<Rightarrow> media_send option" where
  "packetize_send_callback aes hmac sendto pc payload_type timestamp call st0 =
     (case call of (payload, marker) \<Rightarrow> do {
        let st = st0\<lparr>ms_sequence := ms_sequence st0 + 1\<rparr>;
        (header_len, header) \<leftarrow>
          tinyrtc_rtp_build_header (Some (send_header payload_type (ms_sequence st0) timestamp marker)) 1500;
        if header_len = 0 then Some st
        else if header_len + length payload > 1500 then None
        else do {
          let len = header_len + length payload;
          let rtp_buffer = header @ payload @ replicate (1500 - len) 0;
          if \<not> pc_is_secure_media_ready pc then Some st
          else
            (case ms_srtp st of
               None \<Rightarrow> send_datagram sendto pc (take len rtp_buffer) st
             | Some srtp \<Rightarrow> do {
                 (err, buf, len, srtp) \<leftarrow> srtp_encrypt_packet aes hmac srtp rtp_buffer len 1500;
                 let st = st\<lparr>ms_srtp := Some srtp\<rparr>;
                 if err \<noteq> TINYRTC_OK then Some st else send_datagram sendto pc (take len buf) st
               })
        }
      })"

fun send_packets ::
  "cipher \<Rightarrow> cipher \<Rightarrow> (sockaddr \<Rightarrow> bytes \<Rightarrow> int) \<Rightarrow> 'ssl peer_connection \<Rightarrow> int \<Rightarrow> u32
     \<Rightarrow> packet_calls \<Rightarrow> media_send \<Rightarrow> media_send option" where
  "send_packets aes hmac sendto pc payload_type timestamp [] st = Some st"
| "send_packets aes hmac sendto pc payload_type timestamp (call # calls) st = do {
     st \<leftarrow> packetize_send_callback aes hmac sendto pc payload_type timestamp call st;
     send_packets aes hmac sendto pc payload_type timestamp calls st
   }"

definition pc_find_track :: "nat \<Rightarrow> 'ssl peer_connection \<Rightarrow> track option" where
  "pc_find_track address pc = find (\<lambda>t. tk_address t = address) (pc_local_tracks pc @ pc_remote_tracks pc)"

definition pc_update_local_track :: "nat \<Rightarrow> (track \<Rightarrow> track) \<Rightarrow> 'ssl peer_connection \<Rightarrow> 'ssl peer_connection" where
  "pc_update_local_track address f pc =
     pc\<lparr>pc_local_tracks := map (\<lambda>t. if tk_address t = address then f t else t) (pc_local_tracks pc)\<rparr>"

text \<open>
  The track is an address, \<open>None\<close> for NULL; an address that is no track of the connection is a
  dangling pointer.  \<open>Inl n\<close> is a NULL frame with the length \<open>n\<close>.  \<open>alloc_ok\<close> are the
  allocations of the packetiser.
\<close>

definition track_send_frame ::
  "cipher \<Rightarrow> cipher \<Rightarrow> (sockaddr \<Rightarrow> bytes \<Rightarrow> int) \<Rightarrow> (nat \<Rightarrow> bool) \<Rightarrow> nat option \<Rightarrow> nat + bytes \<Rightarrow> u32
     \<Rightarrow> 'ssl peer_connection \<Rightarrow> (tinyrtc_error \<times> 'ssl peer_connection \<times> pc_event list) option" where
  "track_send_frame aes hmac sendto alloc_ok track frame timestamp pc =
     (case track of
        None \<Rightarrow> Some (TINYRTC_ERROR_INVALID_ARG, pc, [])
      | Some address \<Rightarrow>
          if (case frame of Inl n \<Rightarrow> n \<noteq> 0 | Inr f \<Rightarrow> False) then Some (TINYRTC_ERROR_INVALID_ARG, pc, [])
          else do {
            t \<leftarrow> pc_find_track address pc;
            if \<not> tk_is_local t then Some (TINYRTC_ERROR_INVALID_STATE, pc, [])
            else if \<not> pc_is_secure_media_ready pc then Some (TINYRTC_ERROR_INVALID_STATE, pc, [])
            else do {
              let params = \<lparr>cp_codec_id = tk_codec_id t, cp_payload_type = tk_payload_type t,
                            cp_mtu = TINYRTC_SEND_MTU - TINYRTC_SRTP_AUTH_TAG_RESERVED\<rparr>;
              let (data, frame_len) = (case frame of Inl n \<Rightarrow> (None, n) | Inr f \<Rightarrow> (Some f, length f));
              st \<leftarrow> send_packets aes hmac sendto pc (tk_payload_type t) timestamp
                     (snd (tinyrtc_packetize_frame alloc_ok data (Some params) True))
                     \<lparr>ms_sequence = tk_next_sequence t, ms_next_sequence = tk_next_sequence t,
                      ms_srtp = pc_srtp pc, ms_sent = []\<rparr>;
              Some (TINYRTC_OK,
                (pc_update_local_track address
                   (\<lambda>t. t\<lparr>tk_next_sequence := ms_next_sequence st, tk_frames_sent := tk_frames_sent t + 1,
                          tk_bytes_sent := tk_bytes_sent t + word_of_nat frame_len\<rparr>) pc)\<lparr>pc_srtp := ms_srtp st\<rparr>,
                map (\<lambda>(addr, bs). Udp_Send addr bs) (ms_sent st))
            }
          })"

text \<open>The two functions differ in their log message only.\<close>

definition tinyrtc_track_send_audio_frame ::
  "cipher \<Rightarrow> cipher \<Rightarrow> (sockaddr \<Rightarrow> bytes \<Rightarrow> int) \<Rightarrow> (nat \<Rightarrow> bool) \<Rightarrow> nat option \<Rightarrow> nat + bytes \<Rightarrow> u32
     \<Rightarrow> 'ssl peer_connection \<Rightarrow> (tinyrtc_error \<times> 'ssl peer_connection \<times> pc_event list) option" where
  "tinyrtc_track_send_audio_frame = track_send_frame"

definition tinyrtc_track_send_video_frame ::
  "cipher \<Rightarrow> cipher \<Rightarrow> (sockaddr \<Rightarrow> bytes \<Rightarrow> int) \<Rightarrow> (nat \<Rightarrow> bool) \<Rightarrow> nat option \<Rightarrow> nat + bytes \<Rightarrow> u32
     \<Rightarrow> 'ssl peer_connection \<Rightarrow> (tinyrtc_error \<times> 'ssl peer_connection \<times> pc_event list) option" where
  "tinyrtc_track_send_video_frame = track_send_frame"

section \<open>Receiving\<close>

text \<open>The bytes of an H.264 packet go behind those of earlier packets with the same timestamp.\<close>

definition track_collect :: "bool \<Rightarrow> u32 \<Rightarrow> bytes \<Rightarrow> track \<Rightarrow> bool \<times> track" where
  "track_collect realloc_ok timestamp frame t =
     (if frame \<noteq> [] \<and> tk_codec_id t = TINYRTC_CODEC_H264 then
        (let t1 = (if tk_reassembly_active t \<and> tk_reassembly_timestamp t \<noteq> timestamp \<and> tk_reassembly t \<noteq> []
                   then track_reset_reassembly t else t);
             t2 = (if \<not> tk_reassembly_active t1
                   then t1\<lparr>tk_reassembly_timestamp := timestamp, tk_reassembly_active := True\<rparr> else t1) in
         case track_append_reassembly realloc_ok frame t2 of
           (True, t3) \<Rightarrow> (True, t3)
         | (False, t3) \<Rightarrow> (False, track_reset_reassembly t3))
      else (True, t))"

definition track_deliver :: "pc_configuration \<Rightarrow> u32 \<Rightarrow> bytes \<Rightarrow> track \<Rightarrow> track \<times> pc_event list" where
  "track_deliver config timestamp frame t0 =
     (let callback_frame = (if tk_codec_id t0 = TINYRTC_CODEC_H264 then tk_reassembly t0 else frame);
          t = t0\<lparr>tk_frames_received := tk_frames_received t0 + 1\<rparr> in
      (if tk_codec_id t = TINYRTC_CODEC_H264 then track_reset_reassembly t else t,
       if tk_kind t = TINYRTC_TRACK_KIND_AUDIO \<and> pcc_on_audio_frame config
       then [On_Audio_Frame (tk_address t) callback_frame timestamp]
       else if tk_kind t = TINYRTC_TRACK_KIND_VIDEO \<and> pcc_on_video_frame config
       then [On_Video_Frame (tk_address t) callback_frame timestamp]
       else []))"

text \<open>Which allocations of a received packet succeed: its copy in the jitter buffer, and reassembly.\<close>

record receive_alloc =
  ra_packet :: bool
  ra_reassembly :: bool

definition track_receive ::
  "receive_alloc \<Rightarrow> u64 \<Rightarrow> pc_configuration \<Rightarrow> rtp_header \<Rightarrow> bytes \<Rightarrow> track
     \<Rightarrow> (tinyrtc_error \<times> track \<times> pc_event list) option" where
  "track_receive alloc now config header packet t0 = do {
     (err, jb) \<leftarrow> tinyrtc_jitter_buffer_add_packet (ra_packet alloc) (tk_jitter_buffer t0) (Some packet) now;
     let t = t0\<lparr>tk_jitter_buffer := jb, tk_packets_received := tk_packets_received t0 + 1\<rparr>;
     if err \<noteq> TINYRTC_OK then Some (err, t, [])
     else do {
       (complete, frame) \<leftarrow> tinyrtc_depacketize_frame (tk_codec_id t) packet 4096;
       (case track_collect (ra_reassembly alloc) (hdr_timestamp header) frame t of
          (False, t) \<Rightarrow> Some (TINYRTC_ERROR_MEMORY, t, [])
        | (True, t) \<Rightarrow>
            if complete then
              (case track_deliver config (hdr_timestamp header) frame t of (t, evs) \<Rightarrow> Some (TINYRTC_OK, t, evs))
            else Some (TINYRTC_OK, t, []))
     }
   }"

text \<open>Decryption, when keys are there; without keys the packet is taken as it came.\<close>

definition pc_decrypt ::
  "cipher \<Rightarrow> cipher \<Rightarrow> bytes \<Rightarrow> 'ssl peer_connection \<Rightarrow> (tinyrtc_error \<times> bytes \<times> 'ssl peer_connection) option" where
  "pc_decrypt aes hmac packet pc =
     (case pc_srtp_rx pc of
        None \<Rightarrow> Some (TINYRTC_OK, packet, pc)
      | Some rx \<Rightarrow> do {
          (err, buf, output_len, rx) \<leftarrow> srtp_decrypt_packet aes hmac rx packet (length packet);
          Some (err, case output_len of None \<Rightarrow> buf | Some n \<Rightarrow> take n buf, pc\<lparr>pc_srtp_rx := Some rx\<rparr>)
        })"

text \<open>The first remote track with a payload type, by its position.\<close>

definition track_index :: "int \<Rightarrow> track list \<Rightarrow> nat option" where
  "track_index pt tracks =
     (let i = length (takeWhile (\<lambda>t. tk_payload_type t \<noteq> pt) tracks) in if i < length tracks then Some i else None)"

definition pc_process_incoming_rtp ::
  "cipher \<Rightarrow> cipher \<Rightarrow> receive_alloc \<Rightarrow> u64 \<Rightarrow> bytes option \<Rightarrow> 'ssl peer_connection
     \<Rightarrow> (tinyrtc_error \<times> 'ssl peer_connection \<times> pc_event list) option" where
  "pc_process_incoming_rtp aes hmac alloc now packet pc =
     (case packet of
        None \<Rightarrow> Some (TINYRTC_ERROR_INVALID_ARG, pc, [])
      | Some p \<Rightarrow> do {
          (err, p, pc) \<leftarrow> pc_decrypt aes hmac p pc;
          if err \<noteq> TINYRTC_OK then Some (err, pc, [])
          else do {
            parsed \<leftarrow> tinyrtc_rtp_parse_header (Some p);
            (case parsed of
               None \<Rightarrow> Some (TINYRTC_ERROR, pc, [])
             | Some header \<Rightarrow>
                 (case track_index (uint (hdr_payload_type header)) (pc_remote_tracks pc) of
                    None \<Rightarrow> Some (TINYRTC_ERROR_NOT_FOUND, pc, [])
                  | Some i \<Rightarrow> do {
                      (err, t, evs) \<leftarrow> track_receive alloc now (pc_config pc) header p (pc_remote_tracks pc ! i);
                      Some (err, pc\<lparr>pc_remote_tracks := (pc_remote_tracks pc)[i := t]\<rparr>, evs)
                    }))
          }
        })"

end
