(* ===== verification/Library_Context.thy ===== *)
theory Library_Context
  imports Media_Path Sig_Client
begin

text \<open>
  The library context, \<^verbatim>\<open>src/tinyrtc.c\<close>, with the two functions of \<^verbatim>\<open>src/peer_connection.c\<close> that enter
  and remove a connection: configuration, error texts, log level, and the event loop, which receives
  one datagram per connection, runs the connectivity checks, starts the DTLS handshake of a newly
  connected session, drives it and installs the SRTP keys.
\<close>

section \<open>Error texts\<close>

definition error_strings :: "string list" where
  "error_strings =
     [''Success'', ''Generic error'', ''Invalid argument'', ''Memory allocation failed'', ''Network error'',
      ''Resource not found'', ''Operation in progress'', ''Operation timed out'', ''Invalid state for operation'',
      ''DTLS handshake failed'', ''ICE negotiation failed'', ''Signaling connection failed'']"

text \<open>The argument is the integer of the C enumeration.\<close>

definition tinyrtc_get_error_string :: "int \<Rightarrow> string" where
  "tinyrtc_get_error_string error =
     (let idx = - error in
      if idx < 0 \<or> idx \<ge> int (length error_strings) then ''Unknown error'' else error_strings ! nat idx)"

section \<open>Context\<close>

datatype log_level =
  TINYRTC_LOG_DEBUG | TINYRTC_LOG_INFO | TINYRTC_LOG_WARN | TINYRTC_LOG_ERROR | LOG_LEVEL_OTHER int

fun log_level_code :: "log_level \<Rightarrow> int" where
  "log_level_code TINYRTC_LOG_DEBUG = 0"
| "log_level_code TINYRTC_LOG_INFO = 1"
| "log_level_code TINYRTC_LOG_WARN = 2"
| "log_level_code TINYRTC_LOG_ERROR = 3"
| "log_level_code (LOG_LEVEL_OTHER n) = n"

record context_config =
  xc_enable_debug_log :: bool
  xc_max_peer_connections :: u32

text \<open>
  \<open>cx_peers\<close> is the used part of the array of connections, each with its address;
  \<^verbatim>\<open>num_peers\<close> is its length.
\<close>

record 'ssl tinyrtc_context =
  cx_config :: context_config
  cx_log_level :: log_level
  cx_peers :: "(nat \<times> 'ssl peer_connection) list"
  cx_peers_alloc :: nat
  cx_signaling :: "signaling option"

text \<open>The build defines 16 connections; \<open>debug\<close> is the build's \<^verbatim>\<open>TINYRTC_DEBUG\<close>.\<close>

definition tinyrtc_get_default_config :: "bool \<Rightarrow> context_config" where
  "tinyrtc_get_default_config debug = \<lparr>xc_enable_debug_log = debug, xc_max_peer_connections = 16\<rparr>"

definition tinyrtc_init :: "bool \<Rightarrow> bool \<Rightarrow> context_config option \<Rightarrow> 'ssl tinyrtc_context option" where
  "tinyrtc_init alloc_ok lock_ok config =
     (case config of
        None \<Rightarrow> None
      | Some c \<Rightarrow>
          if \<not> alloc_ok then None
          else if \<not> lock_ok then None
          else Some \<lparr>cx_config = c,
                     cx_log_level = (if xc_enable_debug_log c then TINYRTC_LOG_DEBUG else TINYRTC_LOG_INFO),
                     cx_peers = [], cx_peers_alloc = 0, cx_signaling = None\<rparr>)"

text \<open>What is released: the lock and the context, not the array of connections.\<close>

datatype context_block = CX_Lock | CX_Context

definition tinyrtc_destroy :: "'ssl tinyrtc_context option \<Rightarrow> context_block list" where
  "tinyrtc_destroy ctx = (case ctx of None \<Rightarrow> [] | Some _ \<Rightarrow> [CX_Lock, CX_Context])"

definition tinyrtc_set_log_level :: "log_level \<Rightarrow> 'ssl tinyrtc_context \<Rightarrow> 'ssl tinyrtc_context" where
  "tinyrtc_set_log_level level ctx =
     (if log_level_code level < log_level_code TINYRTC_LOG_DEBUG \<or> log_level_code level > log_level_code TINYRTC_LOG_ERROR
      then ctx else ctx\<lparr>cx_log_level := level\<rparr>)"

section \<open>Entering and removing connections\<close>

text \<open>
  \<open>allocated\<close> is the address of the new connection or NULL; the array is written without a check of its
  own allocation.
\<close>

definition tinyrtc_peer_connection_create ::
  "nat option \<Rightarrow> bool \<Rightarrow> bool \<Rightarrow> pc_configuration option \<Rightarrow> 'ssl tinyrtc_context
     \<Rightarrow> (nat option \<times> 'ssl tinyrtc_context) option" where
  "tinyrtc_peer_connection_create allocated lock_ok array_ok config ctx =
     (case (config, allocated) of
        (Some c, Some address) \<Rightarrow>
          if \<not> lock_ok then Some (None, ctx)
          else if length (cx_peers ctx) + 1 > cx_peers_alloc ctx then
            if \<not> array_ok then None
            else
              Some (Some address,
                ctx\<lparr>cx_peers := cx_peers ctx @ [(address, pc_new c)],
                    cx_peers_alloc := (if cx_peers_alloc ctx = 0 then 4 else cx_peers_alloc ctx * 2)\<rparr>)
          else Some (Some address, ctx\<lparr>cx_peers := cx_peers ctx @ [(address, pc_new c)]\<rparr>)
      | _ \<Rightarrow> Some (None, ctx))"

text \<open>A connection that is not in the array is a dangling pointer.  Only the current ICE session is destroyed.\<close>

definition tinyrtc_peer_connection_destroy ::
  "nat option \<Rightarrow> 'ssl tinyrtc_context \<Rightarrow> ('ssl tinyrtc_context \<times> pc_event list) option" where
  "tinyrtc_peer_connection_destroy peer ctx =
     (case peer of
        None \<Rightarrow> Some (ctx, [])
      | Some address \<Rightarrow> do {
          pc \<leftarrow> map_of (cx_peers ctx) address;
          let evs = (if pc_state pc \<noteq> TINYRTC_PC_STATE_CLOSED then snd (tinyrtc_peer_connection_close pc) else [])
            @ (case ice_session_destroy (pc_ice_session pc) of None \<Rightarrow> [] | Some sk \<Rightarrow> [Socket_Closed sk]);
          Some (ctx\<lparr>cx_peers := takeWhile (\<lambda>p. fst p \<noteq> address) (cx_peers ctx)
                  @ tl (dropWhile (\<lambda>p. fst p \<noteq> address) (cx_peers ctx))\<rparr>, evs)
        })"

section \<open>SRTP keys\<close>

text \<open>The flags are the allocations of the key buffer and of the two contexts.\<close>

definition pc_initialize_srtp_after_dtls ::
  "(bytes \<Rightarrow> bytes) \<Rightarrow> bool \<Rightarrow> bool \<Rightarrow> bool \<Rightarrow> 'ssl peer_connection \<Rightarrow> (tinyrtc_error \<times> 'ssl peer_connection) option" where
  "pc_initialize_srtp_after_dtls sha256 key_ok send_ok recv_ok pc =
     (case pc_dtls pc of
        None \<Rightarrow> Some (TINYRTC_ERROR_INVALID_STATE, pc)
      | Some dtls \<Rightarrow>
          (case dtls_derive_srtp_keys sha256 key_ok dtls of
             (Inl err, dtls) \<Rightarrow> Some (err, pc\<lparr>pc_dtls := Some dtls\<rparr>)
           | (Inr keys, dtls) \<Rightarrow> do {
               let (send_key, send_salt, recv_key, recv_salt) =
                 (if pcc_is_initiator (pc_config pc)
                  then (sk_client_key keys, sk_client_salt keys, sk_server_key keys, sk_server_salt keys)
                  else (sk_server_key keys, sk_server_salt keys, sk_client_key keys, sk_client_salt keys));
               send_ctx \<leftarrow> srtp_init send_ok (Some send_key) (Some send_salt);
               recv_ctx \<leftarrow> srtp_init recv_ok (Some recv_key) (Some recv_salt);
               Some (if send_ctx = None \<or> recv_ctx = None then (TINYRTC_ERROR_MEMORY, pc\<lparr>pc_dtls := Some dtls\<rparr>)
                 else (TINYRTC_OK, pc\<lparr>pc_dtls := Some dtls, pc_srtp := send_ctx, pc_srtp_rx := recv_ctx,
                                     pc_srtp_initialized := True\<rparr>))
             }))"

section \<open>One round of the event loop for one connection\<close>

text \<open>The libraries a connection uses: TLS, SHA-256, the SRTP cipher and MAC, and the MAC of STUN.\<close>

record 'ssl runtime =
  rt_tls :: "'ssl tls_library"
  rt_sha256 :: "bytes \<Rightarrow> bytes"
  rt_aes :: cipher
  rt_srtp_hmac :: cipher
  rt_stun_hmac :: mac

text \<open>
  What a round meets: the datagram that was read from a ready socket (at most 2048 bytes, \<open>None\<close> when there
  was none or reading failed), the clocks of the checks and of a received packet, the results of \<^verbatim>\<open>sendto\<close>, and the
  allocations.  A STUN message is read within the datagram; where its length field reaches
  beyond it, the code would read what earlier datagrams left in the buffer, which counts as undefined.
\<close>

record 'ssl peer_input =
  in_datagram :: "(sockaddr \<times> bytes) option"
  in_clock :: "nat \<Rightarrow> u64"
  in_rtp_now :: u64
  in_sendto :: "sockaddr \<Rightarrow> bytes \<Rightarrow> int"
  in_receive :: receive_alloc
  in_dtls :: "'ssl dtls_init_env"
  in_seeded :: bool
  in_key_ok :: bool
  in_send_ok :: bool
  in_recv_ok :: bool

definition pc_sends :: "datagrams \<Rightarrow> pc_event list" where
  "pc_sends out = map (\<lambda>(addr, bs). Udp_Send addr bs) out"

text \<open>The state of DTLS that \<^verbatim>\<open>tinyrtc_process_events\<close> calls handshake data for.\<close>

definition pc_handshaking :: "'ssl peer_connection \<Rightarrow> 'ssl dtls option" where
  "pc_handshaking pc =
     (if pc_srtp_initialized pc \<or> \<not> ice_is_connected (pc_ice_session pc) then None else pc_dtls pc)"

definition pc_receive ::
  "'ssl runtime \<Rightarrow> 'ssl peer_input \<Rightarrow> nat \<Rightarrow> 'ssl peer_connection \<Rightarrow> (int \<times> 'ssl peer_connection \<times> pc_event list) option" where
  "pc_receive rt inp k pc =
     (case in_datagram inp of
        None \<Rightarrow> Some (0, pc, [])
      | Some (source, data) \<Rightarrow> if data = [] then Some (0, pc, []) else do {
          (is_media, ice, ice_evs) \<leftarrow>
            ice_process_packet (pc_credentials pc) (rt_stun_hmac rt) data (Some source) (pc_sessions pc ! k);
          let pc = pc\<lparr>pc_sessions := (pc_sessions pc)[k := ice]\<rparr>;
          let evs = pc_ice_events (pc_config pc) ice_evs;
          if is_media = 0 then Some (1, pc, evs)
          else
            (case pc_handshaking pc of
               Some dtls \<Rightarrow> do {
                 (_, dtls, out) \<leftarrow> dtls_process_data (rt_tls rt) (in_sendto inp) (pc_sessions pc) data dtls;
                 Some (2, pc\<lparr>pc_dtls := Some dtls\<rparr>, evs @ pc_sends out)
               }
             | None \<Rightarrow> do {
                 (_, pc, rtp_evs) \<leftarrow>
                   pc_process_incoming_rtp (rt_aes rt) (rt_srtp_hmac rt) (in_receive inp) (in_rtp_now inp) (Some data) pc;
                 Some (2, pc, evs @ rtp_evs)
               })
        })"

definition pc_notice_connected ::
  "'ssl runtime \<Rightarrow> 'ssl peer_input \<Rightarrow> nat \<Rightarrow> 'ssl peer_connection \<Rightarrow> ('ssl peer_connection \<times> pc_event list) option" where
  "pc_notice_connected rt inp k pc =
     (if pc_state pc = TINYRTC_PC_STATE_CONNECTED \<or> \<not> ice_is_connected (pc_ice_session pc) then Some (pc, [])
      else do {
        pc \<leftarrow> pc_create_dtls (rt_sha256 rt) (in_dtls inp) (in_seeded inp) (pc\<lparr>pc_state := TINYRTC_PC_STATE_CONNECTED\<rparr>);
        (pc, evs) \<leftarrow>
          (case pc_dtls pc of
             None \<Rightarrow> Some (pc, [])
           | Some dtls \<Rightarrow> do {
               (_, dtls, out) \<leftarrow> dtls_start (rt_tls rt) (in_sendto inp) (pc_sessions pc) k dtls;
               Some (pc\<lparr>pc_dtls := Some dtls\<rparr>, pc_sends out)
             });
        Some (pc, evs @ (if pcc_on_connection_state_change (pc_config pc)
                         then [On_Connection_State_Change (pc_state pc)] else []))
      })"

definition pc_drive_handshake ::
  "'ssl runtime \<Rightarrow> 'ssl peer_input \<Rightarrow> 'ssl peer_connection \<Rightarrow> ('ssl peer_connection \<times> pc_event list) option" where
  "pc_drive_handshake rt inp pc =
     (case pc_handshaking pc of
        None \<Rightarrow> Some (pc, [])
      | Some dtls \<Rightarrow> do {
          (_, dtls, out) \<leftarrow> dtls_poll_handshake (rt_tls rt) (in_sendto inp) (pc_sessions pc) dtls;
          let pc = pc\<lparr>pc_dtls := Some dtls\<rparr>;
          if dtls_is_handshake_complete (rt_tls rt) (Some dtls) then do {
            (_, pc) \<leftarrow> pc_initialize_srtp_after_dtls (rt_sha256 rt) (in_key_ok inp) (in_send_ok inp) (in_recv_ok inp) pc;
            Some (pc, pc_sends out)
          }
          else Some (pc, pc_sends out)
        })"

definition pc_process_events ::
  "'ssl runtime \<Rightarrow> u64 \<Rightarrow> 'ssl peer_input \<Rightarrow> 'ssl peer_connection \<Rightarrow> (int \<times> 'ssl peer_connection \<times> pc_event list) option" where
  "pc_process_events rt now inp pc =
     (case pc_ice pc of
        None \<Rightarrow> Some (0, pc, [])
      | Some k \<Rightarrow>
          if ice_socket (pc_sessions pc ! k) < 0 then Some (0, pc, [])
          else do {
            (n, pc, evs1) \<leftarrow> pc_receive rt inp k pc;
            (ice, evs2) \<leftarrow> ice_check_connectivity (pc_credentials pc) (rt_stun_hmac rt) now (in_clock inp) (pc_sessions pc ! k);
            (pc, evs3) \<leftarrow> pc_notice_connected rt inp k (pc\<lparr>pc_sessions := (pc_sessions pc)[k := ice]\<rparr>);
            (pc, evs4) \<leftarrow> pc_drive_handshake rt inp pc;
            Some (n, pc, evs1 @ pc_ice_events (pc_config pc) evs2 @ evs3 @ evs4)
          })"

section \<open>The event loop\<close>

text \<open>The inputs by position in the array; the events carry the address of their connection.\<close>

fun process_peers ::
  "'ssl runtime \<Rightarrow> u64 \<Rightarrow> (nat \<Rightarrow> 'ssl peer_input) \<Rightarrow> nat \<Rightarrow> (nat \<times> 'ssl peer_connection) list
     \<Rightarrow> (int \<times> (nat \<times> 'ssl peer_connection) list \<times> (nat \<times> pc_event) list) option" where
  "process_peers rt now inputs i [] = Some (0, [], [])"
| "process_peers rt now inputs i ((address, pc) # peers) = do {
     (n, pc, evs) \<leftarrow> pc_process_events rt now (inputs i) pc;
     (m, peers, other_evs) \<leftarrow> process_peers rt now inputs (Suc i) peers;
     Some (n + m, (address, pc) # peers, map (Pair address) evs @ other_evs)
   }"

definition tinyrtc_process_events ::
  "'ssl runtime \<Rightarrow> sig_env \<Rightarrow> sig_io \<Rightarrow> u64 \<Rightarrow> (nat \<Rightarrow> 'ssl peer_input) \<Rightarrow> 'ssl tinyrtc_context option
     \<Rightarrow> (int \<times> 'ssl tinyrtc_context option \<times> sig_io \<times> (nat \<times> pc_event) list) option" where
  "tinyrtc_process_events rt env io now inputs context =
     (case context of
        None \<Rightarrow> Some (0, None, io, [])
      | Some ctx \<Rightarrow> do {
          (ret, sig, io) \<leftarrow> tinyrtc_signaling_process env (cx_signaling ctx) io;
          (n, peers, evs) \<leftarrow> process_peers rt now inputs 0 (cx_peers ctx);
          Some ((if ret > 0 then ret else 0) + n, Some (ctx\<lparr>cx_signaling := sig, cx_peers := peers\<rparr>), io, evs)
        })"

end
