(* ===== verification/Peer_Safety.thy ===== *)
theory Peer_Safety
  imports Library_Context Sdp_Roundtrip
begin

text \<open>
  The invariant of a peer connection and that every operation is defined and keeps it: local and
  remote tracks, descriptions, ICE sessions and the DTLS context stay within their arrays, and the
  references between them stay valid.
\<close>

text \<open>A STUN server URL whose host fits the buffer, or none.\<close>

definition pcc_stun_ok :: "pc_configuration \<Rightarrow> bool" where
  "pcc_stun_ok config \<longleftrightarrow> (\<forall>url. pcc_stun_server config = Some url \<longrightarrow> parse_stun_url url 128 \<noteq> None)"

definition pc_ok :: "'ssl peer_connection \<Rightarrow> bool" where
  "pc_ok pc \<longleftrightarrow>
     length (pc_local_tracks pc) \<le> SDP_MAX_MEDIA \<and> length (pc_remote_tracks pc) \<le> SDP_MAX_MEDIA \<and>
     (\<forall>t \<in> set (pc_local_tracks pc). track_ok t \<and> tk_is_local t) \<and>
     (\<forall>t \<in> set (pc_remote_tracks pc). track_ok t \<and> \<not> tk_is_local t) \<and>
     sdp_fits (pc_local_sdp pc) \<and> sdp_fits (pc_remote_sdp pc) \<and>
     (\<forall>ice \<in> set (pc_sessions pc). ice_inv ice) \<and>
     (\<forall>k. pc_ice pc = Some k \<longrightarrow> k < length (pc_sessions pc)) \<and>
     (\<forall>dtls. pc_dtls pc = Some dtls \<longrightarrow> dtls_ok (pc_sessions pc) dtls) \<and>
     pcc_stun_ok (pc_config pc)"

lemma pc_new_ok: "pcc_stun_ok config \<Longrightarrow> pc_ok (pc_new config)"
  by (simp add: pc_ok_def pc_new_def sdp_session_init_fits)

lemma pc_ok_state [simp]: "pc_ok (pc\<lparr>pc_state := st\<rparr>) = pc_ok pc"
  by (simp add: pc_ok_def)

lemma pc_ok_srtp [simp]:
  "pc_ok (pc\<lparr>pc_srtp := a\<rparr>) = pc_ok pc" "pc_ok (pc\<lparr>pc_srtp_rx := a\<rparr>) = pc_ok pc"
  "pc_ok (pc\<lparr>pc_srtp_initialized := b\<rparr>) = pc_ok pc"
  by (simp_all add: pc_ok_def)

lemma pc_ok_sdp [simp]:
  "pc_ok pc \<Longrightarrow> sdp_fits s \<Longrightarrow> pc_ok (pc\<lparr>pc_local_sdp := s\<rparr>)"
  "pc_ok pc \<Longrightarrow> sdp_fits s \<Longrightarrow> pc_ok (pc\<lparr>pc_remote_sdp := s\<rparr>)"
  by (simp_all add: pc_ok_def)

lemma dtls_ok_sessions [simp]:
  "dtls_ok (xs[k := ice]) dtls = dtls_ok xs dtls" "dtls_ok xs dtls \<Longrightarrow> dtls_ok (xs @ ys) dtls"
  by (auto simp: dtls_ok_def)

lemma pc_ok_dtls [simp]: "pc_ok pc \<Longrightarrow> dtls_ok (pc_sessions pc) dtls \<Longrightarrow> pc_ok (pc\<lparr>pc_dtls := Some dtls\<rparr>)"
  by (simp add: pc_ok_def)

lemma pc_ok_session [simp]:
  "pc_ok pc \<Longrightarrow> ice_inv ice \<Longrightarrow> pc_ok (pc\<lparr>pc_sessions := (pc_sessions pc)[k := ice]\<rparr>)"
  by (auto simp: pc_ok_def dest!: set_update_subset_insert [THEN subsetD])

lemma pc_ok_inv: "pc_ok pc \<Longrightarrow> pc_ice pc = Some k \<Longrightarrow> ice_inv (pc_sessions pc ! k) \<and> k < length (pc_sessions pc)"
  by (simp add: pc_ok_def)

section \<open>Tracks\<close>

lemma remove_subset: "set (takeWhile P xs @ tl (dropWhile P xs)) \<subseteq> set xs"
  by (induction xs) auto

lemma remove_length: "length (takeWhile P xs @ tl (dropWhile P xs)) \<le> length xs"
  by (induction xs) auto

text \<open>No configuration, or one with a \<^verbatim>\<open>mid\<close> and integers of their C types.\<close>

definition track_fields_complete :: "track_fields option \<Rightarrow> bool" where
  "track_fields_complete config \<longleftrightarrow>
     (case config of
        None \<Rightarrow> True
      | Some f \<Rightarrow> (case track_config_of_fields f of None \<Rightarrow> False | Some c \<Rightarrow> track_config_int c))"

lemma pc_ok_add_local:
  assumes "pc_ok pc" and "track_config_int c" and "length (pc_local_tracks pc) < SDP_MAX_MEDIA"
  shows "pc_ok (pc\<lparr>pc_local_tracks := pc_local_tracks pc @ [track_of_config address c]\<rparr>)"
  using assms by (auto simp: pc_ok_def track_of_config_ok) (simp add: track_of_config_def)+

lemma add_track_ok:
  assumes "pc_ok pc" and "track_fields_complete config"
  shows "\<exists>track pc'. tinyrtc_peer_connection_add_track allocated config pc = Some (track, pc') \<and> pc_ok pc'"
  using assms
  by (auto simp: tinyrtc_peer_connection_add_track_def track_fields_complete_def pc_ok_add_local split: option.splits)

lemma add_track_null_mid:
  assumes "tf_mid f = None" and "length (pc_local_tracks pc) < SDP_MAX_MEDIA"
  shows "tinyrtc_peer_connection_add_track (Some address) (Some f) pc = None"
  using assms by (simp add: tinyrtc_peer_connection_add_track_def track_config_of_fields_def)

lemma remove_track_ok:
  assumes "pc_ok pc"
  shows "pc_ok (snd (tinyrtc_peer_connection_remove_track track pc))"
proof (cases track)
  case (Some address)
  let ?ts = "takeWhile (\<lambda>t. tk_address t \<noteq> address) (pc_local_tracks pc)
    @ tl (dropWhile (\<lambda>t. tk_address t \<noteq> address) (pc_local_tracks pc))"
  have "set ?ts \<subseteq> set (pc_local_tracks pc)" and "length ?ts \<le> length (pc_local_tracks pc)"
    by (rule remove_subset, rule remove_length)
  with assms have "pc_ok (pc\<lparr>pc_local_tracks := ?ts\<rparr>)" unfolding pc_ok_def by (auto simp del: set_append length_append)
  with assms show ?thesis by (simp add: tinyrtc_peer_connection_remove_track_def Some)
qed (use assms in \<open>simp add: tinyrtc_peer_connection_remove_track_def\<close>)

section \<open>Descriptions\<close>

text \<open>The local candidates of an ICE session can be printed and read back.\<close>

definition ice_local_fits :: "ice_session \<Rightarrow> bool" where
  "ice_local_fits ice \<longleftrightarrow> (\<forall>c \<in> set (ice_local ice). sdp_candidate_ok (ice_candidate_to_sdp c))"

lemma ice_local_fits_updates [simp]:
  "ice_local_fits (ice\<lparr>ice_phase := st\<rparr>) = ice_local_fits ice" "ice_local_fits (ice\<lparr>ice_socket := sk\<rparr>) = ice_local_fits ice"
  "ice_local_fits (ice\<lparr>ice_gathering_complete := g\<rparr>) = ice_local_fits ice"
  "ice_local_fits (ice\<lparr>ice_stun_tid := t\<rparr>) = ice_local_fits ice"
  "ice_local_fits (ice\<lparr>ice_stun_tid_valid := v\<rparr>) = ice_local_fits ice"
  by (simp_all add: ice_local_fits_def)

lemma word_token: "w \<noteq> [] \<Longrightarrow> \<forall>c \<in> set w. \<not> is_eol c \<and> c \<noteq> CHR '' '' \<and> c \<noteq> c_tab \<Longrightarrow> sdp_token w"
  by (cases w) (auto simp: sdp_token_def sdp_value_def)

lemma inet_ntop_token: "sdp_token (inet_ntop ip)"
proof (rule word_token [OF inet_ntop_nonempty], rule ballI)
  fix c assume "c \<in> set (inet_ntop ip)"
  then have "c_isdigit c \<or> c = CHR ''.''" by (auto simp: inet_ntop_def show_word_def dest: show_nat_digits)
  then show "\<not> is_eol c \<and> c \<noteq> CHR '' '' \<and> c \<noteq> c_tab"
    using c_isdigit_not_blank [of c] by (auto simp: is_eol_def)
qed

lemma ice_add_local_fits:
  assumes "ice_local_fits ice" and "sdp_token ip" "length ip < 64"
  shows "ice_local_fits (ice_add_local_candidate ip port priority ice)"
proof -
  have "strncpy_into 64 ip = ip" using assms(3) by (simp add: strncpy_into_def)
  then have "sdp_candidate_ok (ice_candidate_to_sdp (ice_host_candidate ip port priority))"
    using assms(2,3)
    by (simp add: sdp_candidate_ok_def sdp_candidate_fits_def ice_candidate_to_sdp_def ice_host_candidate_def
        sdp_token_def sdp_value_literal is_eol_def)
  with assms(1) show ?thesis by (auto simp: ice_add_local_candidate_def ice_local_fits_def)
qed

lemma ice_gather_interface_fits: "ice_local_fits ice \<Longrightarrow> ice_local_fits (ice_gather_interface port i ice)"
  using length_inet_ntop
  by (auto simp: ice_gather_interface_def intro!: ice_add_local_fits inet_ntop_token less_trans [OF length_inet_ntop]
      split: option.split)

lemma ice_gather_interfaces_fits: "ice_local_fits ice \<Longrightarrow> ice_local_fits (fold (ice_gather_interface port) ifs ice)"
  by (induction ifs arbitrary: ice) (simp_all add: ice_gather_interface_fits)

lemma ice_gather_server_local:
  "ice_gather_server env url ice = Some (ice', evs) \<Longrightarrow> ice_local ice' = ice_local ice"
  by (auto simp: ice_gather_server_def split: option.splits prod.splits if_splits)

lemma ice_gathered:
  assumes "ice_fresh ice0" and "ice_local_fits ice0" and stun: "\<forall>url. stun = Some url \<longrightarrow> parse_stun_url url 128 \<noteq> None"
  shows "\<exists>err ice evs. ice_start_gathering env stun ice0 = Some (err, ice, evs) \<and> ice_fresh ice \<and> ice_local_fits ice"
proof (cases "ge_socket env < 0 \<or> \<not> ge_bind_ok env")
  case True
  with assms show ?thesis by (simp add: ice_start_gathering_def Let_def)
next
  case False
  define ice1 where "ice1 = ice0\<lparr>ice_phase := ICE_GATHERING, ice_socket := ge_socket env\<rparr>"
  define ice2 where "ice2 = (case ge_interfaces env of None \<Rightarrow> ice1 | Some ifs \<Rightarrow> fold (ice_gather_interface (ge_port env)) ifs ice1)"
  define ice3 where "ice3 = (if ice_local ice2 = []
    then ice_add_local_candidate ''127.0.0.1'' (ge_port env) (ICE_PRIORITY_HOST_minus 0) ice2 else ice2)"
  have "ice_local_fits ice1" using assms(2) by (simp add: ice1_def)
  then have "ice_local_fits ice2" by (simp add: ice2_def ice_gather_interfaces_fits split: option.split)
  then have fits: "ice_local_fits ice3"
    by (simp add: ice3_def ice_add_local_fits sdp_token_def sdp_value_literal is_eol_def)
  obtain ice4 evs where s: "(case stun of None \<Rightarrow> Some (ice3, []) | Some url \<Rightarrow> ice_gather_server env url ice3) = Some (ice4, evs)"
    and l: "ice_local ice4 = ice_local ice3"
  proof (cases stun)
    case (Some url)
    have "ice_gather_server env url ice3 \<noteq> None"
      using stun Some by (simp add: ice_gather_server_def split: option.split prod.split)
    then obtain ice4 evs where "ice_gather_server env url ice3 = Some (ice4, evs)" by auto
    then show ?thesis using that ice_gather_server_local Some by simp
  qed (use that in simp)
  have g: "ice_start_gathering env stun ice0 =
    Some (TINYRTC_OK, ice4\<lparr>ice_phase := ICE_GATHERED, ice_gathering_complete := True\<rparr>, evs)"
    using False s unfolding ice_start_gathering_def Let_def ice3_def ice2_def ice1_def by simp
  have "ice_local_fits ice4" using fits l by (simp add: ice_local_fits_def)
  then show ?thesis using g ice_start_gathering_fresh [OF g assms(1)] by auto
qed

text \<open>The candidates of the other side leave the local ones alone.\<close>

lemma ice_add_remote_local [simp]: "ice_local (snd (ice_add_remote_candidate c ice)) = ice_local ice"
proof -
  have "ice_local (fold ice_put_pair ps i) = ice_local i" for ps i
    by (subst fold_ice_put_pair_frame) simp
  from this [of "map (\<lambda>l. ice_new_pair l (length (ice_remote ice))) [0..<length (ice_local ice)]"
      "ice\<lparr>ice_remote := ice_remote ice @ [ice_candidate_from_sdp c]\<rparr>"]
  show ?thesis by (simp add: ice_add_remote_candidate_def Let_def fold_map comp_def)
qed

lemma ice_add_remote_candidates_local [simp]: "ice_local (ice_add_remote_candidates cs ice) = ice_local ice"
  unfolding ice_add_remote_candidates_def by (induction cs arbitrary: ice) simp_all

lemma ice_add_remote_candidates_inv: "ice_inv ice \<Longrightarrow> ice_inv (ice_add_remote_candidates cs ice)"
  unfolding ice_add_remote_candidates_def by (induction cs arbitrary: ice) (simp_all add: ice_add_remote_step)

lemma ice_candidate_to_sdp_fits:
  "ice_local_fits ice \<Longrightarrow> c \<in> set (ice_local ice) \<Longrightarrow> sdp_candidate_fits (ice_candidate_to_sdp c)"
  by (simp add: ice_local_fits_def sdp_candidate_ok_def)

lemma sdp_fits_local:
  "sdp_fits s \<Longrightarrow> ss_candidates s = [] \<Longrightarrow> ice_local_fits ice \<Longrightarrow> ice_inv ice \<Longrightarrow>
   sdp_fits (s\<lparr>ss_candidates := map ice_candidate_to_sdp (ice_local ice)\<rparr>)"
  using ice_candidate_to_sdp_fits [of ice]
  by (auto simp: sdp_fits_def ice_inv_def SDP_MAX_CANDIDATES_def ICE_MAX_CANDIDATES_def)

lemma pc_start_ice_ok:
  assumes "pc_ok pc" and "de_ice_alloc env"
  shows "\<exists>ice evs. pc_start_ice env pc = Some (ice, evs) \<and> ice_inv ice \<and> ice_local_fits ice"
proof -
  obtain ice0 where ice0: "ice_session_create (de_ice_alloc env) = Some ice0" "ice_local_fits ice0"
    using assms(2) by (simp add: ice_session_create_def ice_local_fits_def)
  have fresh: "ice_fresh ice0" using ice0(1) by (rule ice_session_create_fresh)
  have stun: "\<forall>url. pcc_stun_server (pc_config pc) = Some url \<longrightarrow> parse_stun_url url 128 \<noteq> None"
    using assms(1) by (simp add: pc_ok_def pcc_stun_ok_def)
  obtain err ice1 evs where g: "ice_start_gathering (de_gather env) (pcc_stun_server (pc_config pc)) ice0 = Some (err, ice1, evs)"
    "ice_fresh ice1" "ice_local_fits ice1" using ice_gathered [OF fresh ice0(2) stun] by blast
  have "ice_inv (ice_add_remote_candidates cs ice1)" for cs
    using ice_fresh_inv [OF g(2)] by (rule ice_add_remote_candidates_inv)
  then show ?thesis using g(3) by (simp add: pc_start_ice_def ice0(1) g(1) ice_local_fits_def)
qed

lemma pc_describe_ok:
  assumes ok: "pc_ok pc" and fits: "sdp_fits session" "ss_candidates session = []" and alloc: "de_ice_alloc env"
  shows "\<exists>err text pc' evs. pc_describe env session pc = Some (err, text, pc', evs) \<and> pc_ok pc'"
proof -
  obtain ice evs where ice: "pc_start_ice env pc = Some (ice, evs)" "ice_inv ice" "ice_local_fits ice"
    using pc_start_ice_ok [OF ok alloc] by blast
  define s where "s = session\<lparr>ss_candidates := map ice_candidate_to_sdp (ice_local ice)\<rparr>"
  have s: "session\<lparr>ss_candidates := ss_candidates session @ map ice_candidate_to_sdp (ice_local ice)\<rparr> = s"
    by (simp add: s_def fits(2))
  have sfits: "sdp_fits s" unfolding s_def using fits ice by (intro sdp_fits_local)
  then have room: "\<not> SDP_MAX_CANDIDATES < length (ss_candidates s)" by (simp add: sdp_fits_def)
  obtain printed where p: "sdp_generate (de_sdp_alloc env) s = Some printed"
    using sdp_generate_text [OF sfits] by (cases "de_sdp_alloc env") (simp_all add: sdp_generate_def)
  define pc' where "pc' = pc\<lparr>pc_local_sdp := s, pc_sessions := pc_sessions pc @ [ice], pc_ice := Some (length (pc_sessions pc))\<rparr>"
  have "pc_ok pc'" using ok sfits ice(2) by (auto simp: pc_ok_def pc'_def)
  moreover have "\<exists>err text evs'. pc_describe env session pc = Some (err, text, pc', evs')"
    unfolding pc_describe_def ice(1) Let_def bind.bind_lunit prod.case s
    using room p by (cases printed) (simp_all add: pc'_def)
  ultimately show ?thesis by blast
qed

lemma pc_add_tracks_fits:
  "sdp_fits s \<Longrightarrow> \<forall>cfg \<in> set cfgs. track_config_int cfg \<Longrightarrow>
   sdp_fits (pc_add_tracks cfgs s) \<and> ss_candidates (pc_add_tracks cfgs s) = ss_candidates s"
  unfolding pc_add_tracks_def
proof (induction cfgs arbitrary: s)
  case (Cons cfg cfgs)
  have "sdp_fits (snd (sdp_add_media cfg s))" "ss_candidates (snd (sdp_add_media cfg s)) = ss_candidates s"
    using Cons.prems by (simp_all add: sdp_add_media_put sdp_put_media_fits sdp_media_of_track_fits) (simp add: sdp_put_media_def)
  with Cons.IH [of "snd (sdp_add_media cfg s)"] Cons.prems show ?case by simp
qed simp

lemma dtls_init_result:
  assumes "di_cookie_setup env = 0"
  shows "\<exists>flag r. dtls_init sha256 env seeded role = Some (flag, r) \<and> (r = None \<or> r = Some (dtls_new sha256 env role))"
proof -
  define fine where "fine x \<longleftrightarrow> (\<exists>flag r. x = Some (flag :: bool, r) \<and> (r = None \<or> r = Some (dtls_new sha256 env role)))" for x
  have no_cookie: "(role = DTLS_ROLE_SERVER \<and> di_cookie_setup env \<noteq> 0) = False" by (simp add: assms)
  have if_fine: "fine x \<Longrightarrow> fine y \<Longrightarrow> fine (if b then x else y)" for b x y by simp
  have "fine (dtls_init sha256 env seeded role)"
    unfolding dtls_init_def no_cookie if_False by (intro if_fine) (simp_all add: fine_def ex_bool_eq)
  then show ?thesis by (simp add: fine_def)
qed

lemma pc_create_dtls_ok:
  assumes "pc_ok pc" and "di_cookie_setup env = 0"
  shows "\<exists>pc'. pc_create_dtls sha256 env seeded pc = Some pc' \<and> pc_ok pc' \<and> (\<exists>d. pc' = pc\<lparr>pc_dtls := d\<rparr>)"
proof (cases "pc_dtls pc")
  case None
  obtain flag r where r: "dtls_init sha256 env seeded (pc_dtls_role pc) = Some (flag, r)"
    "r = None \<or> r = Some (dtls_new sha256 env (pc_dtls_role pc))"
    using dtls_init_result [OF assms(2)] by blast
  have "dtls_ok (pc_sessions pc) (dtls_new sha256 env (pc_dtls_role pc))" by (simp add: dtls_ok_def dtls_new_def)
  then have "pc_ok (pc\<lparr>pc_dtls := r\<rparr>)" using r(2) assms(1) by (auto simp: pc_ok_def)
  then show ?thesis using None r(1) by (auto simp: pc_create_dtls_def)
next
  case (Some d)
  then have "pc = pc\<lparr>pc_dtls := Some d\<rparr>" by simp
  then show ?thesis using assms(1) Some unfolding pc_create_dtls_def by (metis option.case(2))
qed

lemma pc_dtls_material_ok:
  assumes "pc_ok pc" and "di_cookie_setup env = 0" and "sdp_fits s"
  shows "\<exists>s' pc'. pc_ensure_local_dtls_material sha256 env seeded s pc = Some (s', pc') \<and> pc_ok pc' \<and>
    sdp_fits s' \<and> ss_candidates s' = ss_candidates s \<and> (\<exists>d. pc' = pc\<lparr>pc_dtls := d\<rparr>)"
proof -
  obtain pc' where c: "pc_create_dtls sha256 env seeded pc = Some pc'" "pc_ok pc'" "\<exists>d. pc' = pc\<lparr>pc_dtls := d\<rparr>"
    using pc_create_dtls_ok [OF assms(1,2)] by blast
  have fits: "sdp_fits (s\<lparr>ss_fingerprint_type := ''sha-256'', ss_fingerprint := strncpy_into 128 fp\<rparr>)" for fp
    using assms(3) length_strncpy_into [of 128 fp] by (simp add: sdp_fits_def)
  show ?thesis
  proof (cases "pc_dtls pc'")
    case None
    with c assms(3) show ?thesis by (simp add: pc_ensure_local_dtls_material_def)
  next
    case (Some d)
    obtain n fp where "dtls_get_fingerprint (Some d) (64 * 3) = (n, fp)" by fastforce
    with c Some fits [of fp] assms(3) show ?thesis
      by (cases "n > 0") (simp_all add: pc_ensure_local_dtls_material_def)
  qed
qed

text \<open>Offer and answer.\<close>

definition description_env_ok :: "'ssl description_env \<Rightarrow> bool" where
  "description_env_ok env \<longleftrightarrow> de_ice_alloc env \<and> di_cookie_setup (de_dtls env) = 0"

definition dtls_env_example :: "bool dtls_init_env" where
  "dtls_env_example = \<lparr>di_seed = 0, di_alloc_dtls = True, di_alloc_ssl = True, di_alloc_cfg = True, di_cookie_setup = 0,
     di_alloc_cert = True, di_alloc_pkey = True, di_alloc_ec_key = True, di_gen_key = 0, di_serial_read = 0, di_serial_set = 0,
     di_sign = 1, di_parse = 0, di_cert_raw = [1, 2, 3], di_ssl = False\<rparr>"

definition description_env_example :: "bool description_env" where
  "description_env_example = \<lparr>de_sha256 = (\<lambda>_. replicate 32 0), de_now_id = 1, de_now_version = 2, de_now_credentials = 3,
     de_dtls = dtls_env_example, de_seeded = False, de_ice_alloc = True, de_gather = ice_env_example, de_sdp_alloc = True\<rparr>"

lemma credentials_fits [simp]:
  "sdp_fits s \<Longrightarrow> sdp_fits (pc_generate_local_ice_credentials now s)"
  "ss_candidates (pc_generate_local_ice_credentials now s) = ss_candidates s"
proof -
  have put: "sdp_fits s \<Longrightarrow> length u < 64 \<Longrightarrow> length w < 128 \<Longrightarrow> sdp_fits (s\<lparr>ss_ice_ufrag := u, ss_ice_pwd := w\<rparr>)" for u w
    by (simp add: sdp_fits_def)
  have "length (take 31 u) < 64" "length (take 63 u) < 128" for u :: string by auto
  then show "sdp_fits s \<Longrightarrow> sdp_fits (pc_generate_local_ice_credentials now s)"
    unfolding pc_generate_local_ice_credentials_def by (intro put)
qed (simp add: pc_generate_local_ice_credentials_def)

lemma setup_fits: "sdp_fits s \<Longrightarrow> length v < 16 \<Longrightarrow> sdp_fits (s\<lparr>ss_dtls_setup := v\<rparr>)"
  by (simp add: sdp_fits_def)

lemma offer_session_fits: "sdp_fits (pc_offer_session i v)" "ss_candidates (pc_offer_session i v) = []"
  by (simp_all add: sdp_fits_def pc_offer_session_def sdp_session_init_def)

lemma answer_session_fits:
  "sdp_fits r \<Longrightarrow> sdp_fits (pc_answer_session r)" "ss_candidates (pc_answer_session r) = []"
  by (simp_all add: sdp_fits_def pc_answer_session_def sdp_session_init_def)

lemma answer_configs_int:
  "sdp_fits r \<Longrightarrow> cfg \<in> set (pc_answer_configs tracks (ss_media r)) \<Longrightarrow> track_config_int cfg"
  by (auto simp: pc_answer_configs_def track_config_int_def sdp_fits_def sdp_media_fits_def)

lemma pc_material_describe_ok:
  assumes "pc_ok pc" and "description_env_ok env" and "sdp_fits s" "ss_candidates s = []"
    and "\<forall>cfg \<in> set cfgs. track_config_int cfg"
  shows "\<exists>s' pc' err text pc2 evs.
    pc_ensure_local_dtls_material (de_sha256 env) (de_dtls env) (de_seeded env) s pc = Some (s', pc') \<and>
    pc_local_tracks pc' = pc_local_tracks pc \<and> pc_remote_sdp pc' = pc_remote_sdp pc \<and>
    pc_describe env (pc_add_tracks cfgs s') pc' = Some (err, text, pc2, evs) \<and> pc_ok pc2"
proof -
  obtain s' pc' where m: "pc_ensure_local_dtls_material (de_sha256 env) (de_dtls env) (de_seeded env) s pc = Some (s', pc')"
    "pc_ok pc'" "sdp_fits s'" "ss_candidates s' = ss_candidates s" "\<exists>d. pc' = pc\<lparr>pc_dtls := d\<rparr>"
    using pc_dtls_material_ok [OF assms(1) _ assms(3)] assms(2) unfolding description_env_ok_def by blast
  have "sdp_fits (pc_add_tracks cfgs s')" "ss_candidates (pc_add_tracks cfgs s') = []"
    using pc_add_tracks_fits [OF m(3), of cfgs] m(4) assms(4,5) by simp_all
  then obtain err desc pc2 evs where "pc_describe env (pc_add_tracks cfgs s') pc' = Some (err, desc, pc2, evs)" "pc_ok pc2"
    using pc_describe_ok [OF m(2)] assms(2) unfolding description_env_ok_def by blast
  then show ?thesis using m(1,5) by auto
qed

lemma create_offer_ok:
  assumes "pc_ok pc" and "description_env_ok env"
  shows "\<exists>err text pc' evs. tinyrtc_peer_connection_create_offer env out pc = Some (err, text, pc', evs) \<and> pc_ok pc'"
proof (cases "\<not> out \<or> pc_state pc = TINYRTC_PC_STATE_CLOSED")
  case False
  define s where "s = (pc_generate_local_ice_credentials (de_now_credentials env)
    (pc_offer_session (de_now_id env) (de_now_version env)))\<lparr>ss_dtls_setup := ''actpass''\<rparr>"
  define pc0 where "pc0 = pc\<lparr>pc_state := TINYRTC_PC_STATE_CONNECTING\<rparr>"
  have s: "sdp_fits s" "ss_candidates s = []" by (simp_all add: s_def setup_fits offer_session_fits)
  have cfgs: "\<forall>cfg \<in> set (map track_offer_config (pc_local_tracks pc)). track_config_int cfg"
    using assms(1) by (auto simp: pc_ok_def track_offer_config_int)
  have ok0: "pc_ok pc0" "pc_local_tracks pc0 = pc_local_tracks pc" using assms(1) by (simp_all add: pc0_def)
  show ?thesis
    using pc_material_describe_ok [OF ok0(1) assms(2) s cfgs] False ok0(2)
    unfolding tinyrtc_peer_connection_create_offer_def Let_def s_def [symmetric] pc0_def [symmetric]
    by (elim exE conjE) (simp del: map_map)
qed (use assms(1) in \<open>auto simp: tinyrtc_peer_connection_create_offer_def\<close>)

lemma create_answer_ok:
  assumes "pc_ok pc" and "description_env_ok env"
  shows "\<exists>err text pc' evs. tinyrtc_peer_connection_create_answer env out pc = Some (err, text, pc', evs) \<and> pc_ok pc'"
proof (cases "\<not> out \<or> pc_state pc = TINYRTC_PC_STATE_CLOSED")
  case False
  define s where "s = (pc_generate_local_ice_credentials (de_now_credentials env)
    (pc_answer_session (pc_remote_sdp pc)))\<lparr>ss_dtls_setup := ''active''\<rparr>"
  define pc0 where "pc0 = pc\<lparr>pc_state := TINYRTC_PC_STATE_CONNECTING\<rparr>"
  have remote: "sdp_fits (pc_remote_sdp pc)" using assms(1) by (simp add: pc_ok_def)
  then have s: "sdp_fits s" "ss_candidates s = []" by (simp_all add: s_def setup_fits answer_session_fits)
  have cfgs: "\<forall>cfg \<in> set (pc_answer_configs (pc_local_tracks pc) (ss_media (pc_remote_sdp pc))). track_config_int cfg"
    using answer_configs_int [OF remote] by blast
  have ok0: "pc_ok pc0" "pc_local_tracks pc0 = pc_local_tracks pc" "pc_remote_sdp pc0 = pc_remote_sdp pc"
    using assms(1) by (simp_all add: pc0_def)
  show ?thesis
    using pc_material_describe_ok [OF ok0(1) assms(2) s cfgs] False ok0(2,3)
    unfolding tinyrtc_peer_connection_create_answer_def Let_def s_def [symmetric] pc0_def [symmetric]
    by (elim exE conjE) simp
qed (use assms(1) in \<open>auto simp: tinyrtc_peer_connection_create_answer_def\<close>)

section \<open>The other side's description and candidates\<close>

lemma pc_add_remote_track_ok:
  assumes "pc_ok pc" and "sdp_media_fits m"
  shows "pc_ok (fst (pc_add_remote_track alloc m pc)) \<and> pc_ice (fst (pc_add_remote_track alloc m pc)) = pc_ice pc"
proof -
  have "jitter_inv tinyrtc_jitter_get_default_config jb"
    if "fst (tinyrtc_jitter_buffer_create ok arrays (Some tinyrtc_jitter_get_default_config)) = Some jb" for ok arrays jb
    using that by (auto simp: tinyrtc_jitter_buffer_create_def jitter_inv_def split: if_splits)
  then show ?thesis
    using assms by (auto simp: pc_add_remote_track_def pc_ok_def track_of_media_ok split: prod.split option.split)
      (simp add: track_of_media_def)+
qed

lemma pc_add_remote_tracks_ok:
  "pc_ok pc \<Longrightarrow> \<forall>m \<in> set ms. sdp_media_fits m \<Longrightarrow> pc_ok (fst (pc_add_remote_tracks alloc i ms pc))"
proof (induction ms arbitrary: i pc)
  case (Cons m ms)
  then show ?case
    using pc_add_remote_track_ok [of pc m "alloc i"] by (simp add: split_beta)
qed simp

lemma pc_update_ice_ok: "pc_ok pc \<Longrightarrow> (\<And>ice. ice_inv ice \<Longrightarrow> ice_inv (f ice)) \<Longrightarrow> pc_ok (pc_update_ice f pc)"
  using pc_ok_inv [of pc] by (auto simp: pc_update_ice_def split: option.split)

lemma sdp_parse_result: "text_ends p \<Longrightarrow> \<exists>err s. sdp_parse uninit p = Some (err, s) \<and> sdp_fits s"
  using sdp_parse_lines_defined [of p uninit sdp_session_init] sdp_parse_lines_fits [OF sdp_session_init_fits, of uninit p]
  by (auto simp: sdp_parse_def)

lemma set_remote_description_ok:
  assumes ok: "pc_ok pc" and ends: "\<And>t. sdp = Some t \<Longrightarrow> text_ends t"
  shows "\<exists>err pc' evs. tinyrtc_peer_connection_set_remote_description uninit alloc sdp pc = Some (err, pc', evs) \<and> pc_ok pc'"
proof (cases "sdp = None \<or> pc_state pc = TINYRTC_PC_STATE_CLOSED")
  case True
  with ok show ?thesis by (auto simp: tinyrtc_peer_connection_set_remote_description_def split: option.split)
next
  case False
  then obtain t where t: "sdp = Some t" by auto
  obtain err s where s: "sdp_parse uninit t = Some (err, s)" "sdp_fits s" using sdp_parse_result ends [OF t] by blast
  have ok1: "pc_ok (pc\<lparr>pc_remote_sdp := s\<rparr>)" using ok s(2) by simp
  show ?thesis
  proof (cases "err = TINYRTC_OK")
    case True
    obtain pc' evs where r: "pc_add_remote_tracks alloc 0 (ss_media s) (pc\<lparr>pc_remote_sdp := s\<rparr>) = (pc', evs)" by fastforce
    have "pc_ok pc'" using pc_add_remote_tracks_ok [OF ok1, of "ss_media s" alloc 0] s(2) r by (simp add: sdp_fits_def)
    then have "pc_ok (pc_update_ice (ice_add_remote_candidates (ss_candidates s)) pc')"
      by (rule pc_update_ice_ok) (rule ice_add_remote_candidates_inv)
    then show ?thesis using False True by (simp add: tinyrtc_peer_connection_set_remote_description_def t s(1) r Let_def)
  next
    case err: False
    then show ?thesis using False ok1 by (simp add: tinyrtc_peer_connection_set_remote_description_def t s(1) Let_def)
  qed
qed

text \<open>A candidate with all four strings.\<close>

definition candidate_complete :: "candidate_fields option \<Rightarrow> bool" where
  "candidate_complete c \<longleftrightarrow> (case c of None \<Rightarrow> True | Some f \<Rightarrow> candidate_of_fields f \<noteq> None)"

lemma add_ice_candidate_ok:
  assumes ok: "pc_ok pc" and "candidate_complete candidate"
  shows "\<exists>err pc'. tinyrtc_peer_connection_add_ice_candidate candidate pc = Some (err, pc') \<and> pc_ok pc'"
proof (cases candidate)
  case (Some c)
  then obtain ic where ic: "candidate_of_fields c = Some ic" using assms(2) by (auto simp: candidate_complete_def)
  define pc1 where "pc1 = pc\<lparr>pc_remote_sdp := snd (sdp_add_candidate ic (pc_remote_sdp pc))\<rparr>"
  have "sdp_fits (pc_remote_sdp pc)" using ok by (simp add: pc_ok_def)
  then have ok1: "pc_ok pc1"
    using ok by (simp add: pc1_def sdp_add_candidate_put sdp_put_candidate_fits sdp_candidate_of_ice_fits)
  have "\<exists>err pc'. (case pc_ice pc1 of None \<Rightarrow> Some (TINYRTC_OK, pc1)
      | Some k \<Rightarrow> (case ice_add_remote_candidate (pc_sdp_candidate c) (pc_sessions pc1 ! k) of (err, ice) \<Rightarrow>
          Some (err, pc1\<lparr>pc_sessions := (pc_sessions pc1)[k := ice]\<rparr>))) = Some (err, pc') \<and> pc_ok pc'"
  proof (cases "pc_ice pc1")
    case (Some k)
    obtain err ice where r: "ice_add_remote_candidate (pc_sdp_candidate c) (pc_sessions pc1 ! k) = (err, ice)" by fastforce
    have "ice_inv ice" using ice_add_remote_step [of "pc_sessions pc1 ! k" "pc_sdp_candidate c"] pc_ok_inv [OF ok1 Some] r by simp
    then show ?thesis using ok1 Some r by simp
  qed (use ok1 in simp)
  then show ?thesis
    unfolding tinyrtc_peer_connection_add_ice_candidate_def Some option.case Let_def ic bind.bind_lunit pc1_def [symmetric]
    using ok by simp
qed (use ok in \<open>simp add: tinyrtc_peer_connection_add_ice_candidate_def\<close>)

end
