(* ===== verification/Offer_Answer.thy ===== *)
theory Offer_Answer
  imports Peer_Safety
begin

text \<open>
  Offer and answer between two connections: the texts that \<^verbatim>\<open>create_offer\<close> and \<^verbatim>\<open>create_answer\<close> print
  are accepted by \<^verbatim>\<open>set_remote_description\<close> of the other side, and afterwards each side knows the
  credentials, fingerprint, candidates and tracks of the other.
\<close>

section \<open>Tracks and media\<close>

definition track_info :: "track \<Rightarrow> track_kind \<times> string \<times> codec_id \<times> int \<times> u32" where
  "track_info t = (tk_kind t, tk_mid t, tk_codec_id t, tk_payload_type t, tk_clock_rate t)"

definition media_info :: "sdp_media \<Rightarrow> track_kind \<times> string \<times> codec_id \<times> int \<times> u32" where
  "media_info m = (sm_kind m, sm_mid m, sm_codec_id m, sm_payload_type m, sm_clock_rate m)"

text \<open>
  A local track whose description can be read back: a codec of the table, a clock rate, a mid
  without blanks at its ends, and payload type 0 only for the codec whose default it is.
\<close>

definition track_offerable :: "track \<Rightarrow> bool" where
  "track_offerable t \<longleftrightarrow> track_ok t \<and> tk_is_local t \<and> (\<forall>n. tk_codec_id t \<noteq> CODEC_OTHER n) \<and> tk_clock_rate t \<noteq> 0 \<and>
     (tk_mid t = [] \<or> sdp_value (tk_mid t)) \<and>
     (tk_payload_type t = 0 \<longrightarrow> tinyrtc_codec_get_default_payload (tk_codec_id t) = 0)"

definition media_offerable :: "sdp_media \<Rightarrow> bool" where
  "media_offerable m \<longleftrightarrow> sdp_media_ok m \<and>
     (sm_payload_type m = 0 \<longrightarrow> tinyrtc_codec_get_default_payload (sm_codec_id m) = 0)"

lemma offer_media:
  assumes "track_offerable t"
  shows "media_info (sdp_media_of_track (track_offer_config t)) = track_info t"
    and "media_offerable (sdp_media_of_track (track_offer_config t))"
proof -
  have t: "track_ok t" "length (tk_mid t) \<le> 15" using assms by (simp_all add: track_offerable_def track_ok_def)
  have "sdp_media_fits (sdp_media_of_track (track_offer_config t))"
    using sdp_media_of_track_fits [OF track_offer_config_int [OF t(1)]] .
  with assms t(2) show "media_info (sdp_media_of_track (track_offer_config t)) = track_info t"
    and "media_offerable (sdp_media_of_track (track_offer_config t))"
    by (simp_all add: media_info_def track_info_def media_offerable_def sdp_media_ok_def track_offerable_def
        sdp_media_of_track_def sdp_media_zero_def track_offer_config_def strncpy_into_def)
qed

lemma media_info_reparsed [simp]: "media_info (sdp_media_reparsed m) = media_info m"
  by (simp add: media_info_def sdp_media_reparsed_def)

text \<open>The entry an answer makes of a remote medium.\<close>

definition answer_config :: "sdp_media \<Rightarrow> track_config" where
  "answer_config m = \<lparr>tc_kind = sm_kind m, tc_mid = sm_mid m, tc_codec_id = sm_codec_id m,
     tc_payload_type = sm_payload_type m, tc_clock_rate = sm_clock_rate m, tc_channels = sm_channels m\<rparr>"

lemma pc_answer_configs_map:
  "pc_answer_configs tracks media = map answer_config (filter (\<lambda>m. \<exists>t \<in> set tracks. tk_kind t = sm_kind m) media)"
  by (simp add: pc_answer_configs_def answer_config_def)

lemma answer_media:
  assumes "media_offerable m" and "sdp_media_fits (sdp_media_reparsed m)"
  shows "media_info (sdp_media_of_track (answer_config (sdp_media_reparsed m))) = media_info m"
    and "media_offerable (sdp_media_of_track (answer_config (sdp_media_reparsed m)))"
proof -
  have "track_config_int (answer_config (sdp_media_reparsed m))"
    using assms(2) by (simp add: track_config_int_def answer_config_def sdp_media_fits_def)
  then have fits: "sdp_media_fits (sdp_media_of_track (answer_config (sdp_media_reparsed m)))" by (rule sdp_media_of_track_fits)
  have "length (sm_mid m) \<le> 15" using assms(1) by (simp add: media_offerable_def sdp_media_ok_def sdp_media_fits_def)
  with fits assms(1) show "media_info (sdp_media_of_track (answer_config (sdp_media_reparsed m))) = media_info m"
    and "media_offerable (sdp_media_of_track (answer_config (sdp_media_reparsed m)))"
    by (simp_all add: media_info_def media_offerable_def sdp_media_ok_def sdp_media_of_track_def
        sdp_media_zero_def answer_config_def sdp_media_reparsed_def strncpy_into_def)
qed

lemma pc_add_tracks_media:
  "length (ss_media s) + length cfgs \<le> SDP_MAX_MEDIA \<Longrightarrow>
   pc_add_tracks cfgs s = s\<lparr>ss_media := ss_media s @ map sdp_media_of_track cfgs\<rparr>"
  unfolding pc_add_tracks_def
proof (induction cfgs arbitrary: s)
  case (Cons cfg cfgs)
  from Cons.IH [of "s\<lparr>ss_media := ss_media s @ [sdp_media_of_track cfg]\<rparr>"] Cons.prems show ?case
    by (simp add: sdp_add_media_def)
qed simp

section \<open>Sessions\<close>

text \<open>A session with neither media nor candidates yet, whose text can be read back.\<close>

definition session_base :: "sdp_session \<Rightarrow> bool" where
  "session_base s \<longleftrightarrow> sdp_session_ok s \<and> ss_media s = [] \<and> ss_candidates s = []"

lemma take_token:
  assumes "n \<noteq> 0" and "w \<noteq> []" and "\<forall>c \<in> set w. \<not> is_eol c \<and> c \<noteq> CHR '' '' \<and> c \<noteq> c_tab"
  shows "sdp_token (take n w)"
  using assms set_take_subset [of n w] by (intro word_token) auto

lemma session_base_credentials:
  assumes "session_base s"
  shows "session_base (pc_generate_local_ice_credentials now s)"
proof -
  have digits: "\<forall>c \<in> set (show_word w). \<not> is_eol c \<and> c \<noteq> CHR '' '' \<and> c \<noteq> c_tab" for w :: u64
    using c_isdigit_not_blank by (fastforce simp: show_word_def c_isdigit_def dest!: show_nat_digits)
  have "sdp_value (take 31 (''tiny'' @ show_word now))" "sdp_value (take 63 (''rtc'' @ show_word (now + 12345) @ ''random''))"
    using digits by (intro sdp_token_value take_token; auto simp: is_eol_def)+
  then show ?thesis
    using assms credentials_fits(1) [of s now]
    by (simp add: session_base_def sdp_session_ok_def pc_generate_local_ice_credentials_def del: append.simps)
qed

lemma session_base_setup:
  "session_base s \<Longrightarrow> sdp_value v \<Longrightarrow> length v < 16 \<Longrightarrow> session_base (s\<lparr>ss_dtls_setup := v\<rparr>)"
  by (auto simp: session_base_def sdp_session_ok_def setup_fits)

lemma session_base_fingerprint:
  "session_base s \<Longrightarrow> sdp_value v \<Longrightarrow> length v < 128 \<Longrightarrow>
   session_base (s\<lparr>ss_fingerprint_type := ''sha-256'', ss_fingerprint := v\<rparr>)"
  by (auto simp: session_base_def sdp_session_ok_def sdp_fits_def sdp_token_def sdp_value_literal is_eol_def)

lemma session_base_offer: "session_base (pc_offer_session i v)"
  using offer_session_fits [of i v]
  by (simp add: session_base_def sdp_session_ok_def pc_offer_session_def sdp_session_init_def sdp_token_def
      sdp_value_literal is_eol_def)

lemma session_base_answer:
  assumes "sdp_session_ok s" and "sdp_fits (sdp_reparsed s)"
  shows "session_base (pc_answer_session (sdp_reparsed s))"
proof -
  have lit: "sdp_token ''-''" "sdp_token ''IN''" "sdp_token ''IP4''" "sdp_value ''0.0.0.0''" "sdp_value ''TinyRTC''"
    by (simp_all add: sdp_token_def sdp_value_literal is_eol_def)
  have "sdp_token (or_default ''-'' (ss_username s))" "sdp_token (or_default ''IN'' (ss_network_type s))"
    "sdp_token (or_default ''IP4'' (ss_address_type s))"
    using assms(1) lit or_default_word(1) by (simp_all add: sdp_session_ok_def)
  with lit answer_session_fits(1) [OF assms(2)] show ?thesis
    by (simp add: session_base_def sdp_session_ok_def pc_answer_session_def sdp_session_init_def sdp_reparsed_def)
qed

lemma session_ok_media:
  assumes "session_base s" and "\<forall>m \<in> set ms. media_offerable m" and "distinct (map sm_payload_type ms)"
    and "length ms \<le> SDP_MAX_MEDIA"
  shows "sdp_session_ok (s\<lparr>ss_media := ms\<rparr>)"
  using assms by (auto simp: session_base_def sdp_session_ok_def sdp_fits_def media_offerable_def sdp_media_ok_def)

section \<open>Fingerprints\<close>

lemma hex_list_token:
  assumes "md \<noteq> []"
  shows "sdp_token (hex_list md)"
proof -
  have "c \<in> set hex_digits" if "c \<in> set (hex_byte b)" for b c
  proof -
    have i: "unat b div 16 < length hex_digits" "unat b mod 16 < length hex_digits"
      using unat_less [of b] by (simp_all add: hex_digits_def)
    from that show ?thesis using nth_mem [OF i(1)] nth_mem [OF i(2)] by (auto simp: hex_byte_def)
  qed
  moreover have "c = CHR '':'' \<or> (\<exists>b. c \<in> set (hex_byte b))" if "c \<in> set (hex_list md)" for c
    using that by (induction md rule: hex_list.induct) auto
  ultimately have c: "c = CHR '':'' \<or> c \<in> set hex_digits" if "c \<in> set (hex_list md)" for c using that by blast
  have digits: "\<not> is_eol c \<and> c \<noteq> CHR '' '' \<and> c \<noteq> c_tab" if "c \<in> set ('':'' @ hex_digits)" for c
  proof -
    have "list_all (\<lambda>c. \<not> is_eol c \<and> c \<noteq> CHR '' '' \<and> c \<noteq> c_tab) ('':'' @ hex_digits)" by (simp add: hex_digits_def is_eol_def)
    with that show ?thesis unfolding list_all_iff by blast
  qed
  have "hex_list md \<noteq> []" using assms length_hex_list [of md] by (cases md) auto
  then show ?thesis using c digits by (intro word_token) auto
qed

lemma dtls_new_fingerprint:
  assumes "length (sha256 (di_cert_raw env)) = 32"
  shows "sdp_value (dt_fingerprint (dtls_new sha256 env role))" "length (dt_fingerprint (dtls_new sha256 env role)) = 95"
proof -
  have "dt_fingerprint (dtls_new sha256 env role) = hex_list (sha256 (di_cert_raw env))"
    using dtls_fingerprint_loop_list [of "[]"] assms by (simp add: dtls_new_def)
  moreover have "sha256 (di_cert_raw env) \<noteq> []" using assms by auto
  then have "sdp_value (hex_list (sha256 (di_cert_raw env)))" by (intro sdp_token_value hex_list_token)
  moreover have "length (hex_list (sha256 (di_cert_raw env))) = 95" using assms by (simp add: length_hex_list)
  ultimately show "sdp_value (dt_fingerprint (dtls_new sha256 env role))" "length (dt_fingerprint (dtls_new sha256 env role)) = 95"
    by simp_all
qed

lemma dtls_material_base:
  assumes base: "session_base s" and new: "pc_dtls pc = None" and env: "description_env_ok env"
    and sha: "\<forall>m. length (de_sha256 env m) = 32"
  obtains s' d where "pc_ensure_local_dtls_material (de_sha256 env) (de_dtls env) (de_seeded env) s pc = Some (s', pc\<lparr>pc_dtls := d\<rparr>)"
    "session_base s'"
proof -
  define d0 where "d0 = dtls_new (de_sha256 env) (de_dtls env) (pc_dtls_role pc)"
  have fp: "sdp_value (dt_fingerprint d0)" "length (dt_fingerprint d0) = 95" 
    unfolding d0_def using sha by (simp_all add: dtls_new_fingerprint)
  have cookie: "di_cookie_setup (de_dtls env) = 0" using env by (simp add: description_env_ok_def)
  obtain flag r where r: "dtls_init (de_sha256 env) (de_dtls env) (de_seeded env) (pc_dtls_role pc) = Some (flag, r)" "r = None \<or> r = Some d0"
    using dtls_init_result [OF cookie, of "de_sha256 env" "de_seeded env" "pc_dtls_role pc"] unfolding d0_def by (elim exE conjE)
  from r(2) show ?thesis
  proof
    assume "r = None"
    with that [of s None] base new r(1) show ?thesis by (simp add: pc_ensure_local_dtls_material_def pc_create_dtls_def)
  next
    assume d: "r = Some d0"
    have "strncpy_into 128 (take 192 (dt_fingerprint d0)) = dt_fingerprint d0" using fp(2) by (simp add: strncpy_into_def)
    then have "pc_ensure_local_dtls_material (de_sha256 env) (de_dtls env) (de_seeded env) s pc =
        Some (s\<lparr>ss_fingerprint_type := ''sha-256'', ss_fingerprint := dt_fingerprint d0\<rparr>, pc\<lparr>pc_dtls := Some d0\<rparr>)"
      using d r(1) new fp(2) by (simp add: pc_ensure_local_dtls_material_def pc_create_dtls_def dtls_get_fingerprint_def)
    then show ?thesis using that session_base_fingerprint [OF base fp(1)] fp(2) by simp
  qed
qed

section \<open>The text of a description\<close>

lemma pc_describe_text:
  assumes ok: "pc_ok pc" and env: "de_ice_alloc env" "de_sdp_alloc env" and s: "sdp_session_ok s" "ss_candidates s = []"
  obtains desc evs ice where "pc_describe env s pc = Some (TINYRTC_OK, Some desc,
      pc\<lparr>pc_local_sdp := s\<lparr>ss_candidates := map ice_candidate_to_sdp (ice_local ice)\<rparr>, pc_sessions := pc_sessions pc @ [ice],
        pc_ice := Some (length (pc_sessions pc))\<rparr>, evs)"
    "\<And>u. sdp_parse u desc = Some (TINYRTC_OK, sdp_reparsed (s\<lparr>ss_candidates := map ice_candidate_to_sdp (ice_local ice)\<rparr>))"
    "sdp_session_ok (s\<lparr>ss_candidates := map ice_candidate_to_sdp (ice_local ice)\<rparr>)"
proof -
  obtain ice evs where ice: "pc_start_ice env pc = Some (ice, evs)" "ice_inv ice" "ice_local_fits ice"
    using pc_start_ice_ok [OF ok env(1)] by blast
  define s1 where "s1 = s\<lparr>ss_candidates := map ice_candidate_to_sdp (ice_local ice)\<rparr>"
  have fits: "sdp_fits s1" unfolding s1_def using s ice by (intro sdp_fits_local) (simp_all add: sdp_session_ok_def)
  have ok1: "sdp_session_ok s1" using s(1) fits ice(3) by (auto simp: s1_def sdp_session_ok_def ice_local_fits_def)
  have room: "\<not> SDP_MAX_CANDIDATES < length (ss_candidates s1)" using fits by (simp add: sdp_fits_def)
  have p: "sdp_generate (de_sdp_alloc env) s1 = Some (Inr (concat (sdp_chunks s1)))" using sdp_generate_text [OF fits] env(2) by simp
  have "sdp_parse u (concat (sdp_chunks s1)) = Some (TINYRTC_OK, sdp_reparsed s1)" for u
    using sdp_parse_printed [OF ok1, of u] ok1 by (simp add: sdp_parse_def sdp_reparsed_def sdp_session_ok_def)
  moreover have "pc_describe env s pc = Some (TINYRTC_OK, Some (concat (sdp_chunks s1)),
      pc\<lparr>pc_local_sdp := s1, pc_sessions := pc_sessions pc @ [ice], pc_ice := Some (length (pc_sessions pc))\<rparr>,
      pc_ice_events (pc_config pc) evs
        @ (if pcc_on_ice_candidate (pc_config pc) then map On_Ice_Candidate (map ice_candidate_to_sdp (ice_local ice)) else []))"
  proof -
    have e: "s\<lparr>ss_candidates := ss_candidates s @ map ice_candidate_to_sdp (ice_local ice)\<rparr> = s1" by (simp add: s1_def s(2))
    show ?thesis unfolding pc_describe_def ice(1) Let_def bind.bind_lunit prod.case e using room p by simp
  qed
  ultimately show ?thesis using that ok1 unfolding s1_def by blast
qed

text \<open>All allocations for remote tracks succeed.\<close>

definition tracks_alloc_ok :: "(nat \<Rightarrow> track_alloc) \<Rightarrow> bool" where
  "tracks_alloc_ok alloc \<longleftrightarrow> (\<forall>i. \<exists>address. alloc i = (Some address, True, jitter_all_arrays))"

lemma pc_add_remote_tracks_all:
  assumes "tracks_alloc_ok alloc"
  shows "length (pc_remote_tracks pc) + length ms \<le> SDP_MAX_MEDIA \<Longrightarrow>
    \<exists>ts evs. pc_add_remote_tracks alloc i ms pc = (pc\<lparr>pc_remote_tracks := pc_remote_tracks pc @ ts\<rparr>, evs) \<and>
      map track_info ts = map media_info ms"
proof (induction ms arbitrary: i pc)
  case (Cons m ms)
  obtain address where a: "alloc i = (Some address, True, jitter_all_arrays)" using assms unfolding tracks_alloc_ok_def by blast
  obtain jb where jb: "fst (tinyrtc_jitter_buffer_create True jitter_all_arrays (Some tinyrtc_jitter_get_default_config)) = Some jb"
    by (simp add: tinyrtc_jitter_buffer_create_def jitter_all_arrays_def)
  define t where "t = track_of_media address m jb"
  obtain evs where step: "pc_add_remote_track (alloc i) m pc = (pc\<lparr>pc_remote_tracks := pc_remote_tracks pc @ [t]\<rparr>, evs)"
    using Cons.prems by (simp add: pc_add_remote_track_def a jb t_def)
  have info: "track_info t = media_info m" by (simp add: t_def track_info_def media_info_def track_of_media_def)
  have "length (pc_remote_tracks (pc\<lparr>pc_remote_tracks := pc_remote_tracks pc @ [t]\<rparr>)) + length ms \<le> SDP_MAX_MEDIA"
    using Cons.prems by simp
  then obtain ts evs' where "pc_add_remote_tracks alloc (Suc i) ms (pc\<lparr>pc_remote_tracks := pc_remote_tracks pc @ [t]\<rparr>) =
      (pc\<lparr>pc_remote_tracks := (pc_remote_tracks pc @ [t]) @ ts\<rparr>, evs')" "map track_info ts = map media_info ms"
    using Cons.IH [of "pc\<lparr>pc_remote_tracks := pc_remote_tracks pc @ [t]\<rparr>" "Suc i"] by auto
  then show ?case using step info by (intro exI [of _ "t # ts"]) simp
qed simp

lemma set_remote_description_text:
  assumes ok: "pc_ok pc" and parsed: "sdp_parse u desc = Some (TINYRTC_OK, s)" and live: "pc_state pc \<noteq> TINYRTC_PC_STATE_CLOSED"
    and alloc: "tracks_alloc_ok alloc" and room: "pc_remote_tracks pc = []" "length (ss_media s) \<le> SDP_MAX_MEDIA"
  obtains pc' evs where "tinyrtc_peer_connection_set_remote_description u alloc (Some desc) pc = Some (TINYRTC_OK, pc', evs)"
    "pc_remote_sdp pc' = s" "pc_local_sdp pc' = pc_local_sdp pc" "map track_info (pc_remote_tracks pc') = map media_info (ss_media s)"
    "pc_local_tracks pc' = pc_local_tracks pc" "pc_state pc' = pc_state pc" "pc_dtls pc' = pc_dtls pc" "pc_ok pc'"
proof -
  have fits: "sdp_fits s"
    using parsed sdp_parse_lines_fits [OF sdp_session_init_fits, of u desc] by (auto simp: sdp_parse_def split: bind_splits if_splits)
  have ok1: "pc_ok (fst (pc_add_remote_tracks alloc 0 (ss_media s) (pc\<lparr>pc_remote_sdp := s\<rparr>)))"
    using ok fits by (intro pc_add_remote_tracks_ok) (simp_all add: sdp_fits_def)
  obtain ts evs where t: "pc_add_remote_tracks alloc 0 (ss_media s) (pc\<lparr>pc_remote_sdp := s\<rparr>) =
      (pc\<lparr>pc_remote_sdp := s, pc_remote_tracks := ts\<rparr>, evs)" "map track_info ts = map media_info (ss_media s)"
    using pc_add_remote_tracks_all [OF alloc, of "pc\<lparr>pc_remote_sdp := s\<rparr>" "ss_media s" 0] room by auto
  define pc' where "pc' = pc_update_ice (ice_add_remote_candidates (ss_candidates s)) (pc\<lparr>pc_remote_sdp := s, pc_remote_tracks := ts\<rparr>)"
  have "tinyrtc_peer_connection_set_remote_description u alloc (Some desc) pc = Some (TINYRTC_OK, pc', evs)"
    using parsed live t(1) by (simp add: tinyrtc_peer_connection_set_remote_description_def Let_def pc'_def)
  moreover have "pc_ok pc'"
    using ok1 unfolding t(1) fst_conv pc'_def by (rule pc_update_ice_ok) (rule ice_add_remote_candidates_inv)
  ultimately show ?thesis using that t(2) by (simp add: pc'_def pc_update_ice_def split: option.splits)
qed

section \<open>Property\<close>

text \<open>A new connection with local tracks, and what one side knows of the other.\<close>

definition pc_with_tracks :: "pc_configuration \<Rightarrow> track list \<Rightarrow> 'ssl peer_connection" where
  "pc_with_tracks config tracks = (pc_new config)\<lparr>pc_local_tracks := tracks\<rparr>"

definition knows :: "'ssl peer_connection \<Rightarrow> 'ssl peer_connection \<Rightarrow> bool" where
  "knows a b \<longleftrightarrow>
     cred_remote_ufrag (pc_credentials a) = cred_local_ufrag (pc_credentials b) \<and>
     cred_remote_pwd (pc_credentials a) = cred_local_pwd (pc_credentials b) \<and>
     ss_fingerprint (pc_remote_sdp a) = ss_fingerprint (pc_local_sdp b) \<and>
     ss_candidates (pc_remote_sdp a) = ss_candidates (pc_local_sdp b)"

lemma knows_reparsed: "pc_remote_sdp a = sdp_reparsed (pc_local_sdp b) \<Longrightarrow> knows a b"
  by (simp add: knows_def pc_credentials_def sdp_reparsed_def)

definition description_ready :: "'ssl description_env \<Rightarrow> bool" where
  "description_ready env \<longleftrightarrow> description_env_ok env \<and> de_sdp_alloc env \<and> (\<forall>m. length (de_sha256 env m) = 32)"

lemma material_describe_text:
  assumes ok: "pc_ok pc" "pc_dtls pc = None" and env: "description_ready env" and base: "session_base s"
    and ms: "\<forall>m \<in> set (map sdp_media_of_track cfgs). media_offerable m" "distinct (map sm_payload_type (map sdp_media_of_track cfgs))"
      "length cfgs \<le> SDP_MAX_MEDIA"
  obtains s' pc0 desc evs pc' where
    "pc_ensure_local_dtls_material (de_sha256 env) (de_dtls env) (de_seeded env) s pc = Some (s', pc0)"
    "pc_local_tracks pc0 = pc_local_tracks pc" "pc_remote_sdp pc0 = pc_remote_sdp pc"
    "pc_describe env (pc_add_tracks cfgs s') pc0 = Some (TINYRTC_OK, Some desc, pc', evs)"
    "\<And>u. sdp_parse u desc = Some (TINYRTC_OK, sdp_reparsed (pc_local_sdp pc'))" "sdp_session_ok (pc_local_sdp pc')"
    "ss_media (pc_local_sdp pc') = map sdp_media_of_track cfgs" "pc_state pc' = pc_state pc"
    "pc_remote_tracks pc' = pc_remote_tracks pc" "pc_remote_sdp pc' = pc_remote_sdp pc"
proof -
  have env': "description_env_ok env" "\<forall>m. length (de_sha256 env m) = 32" "de_ice_alloc env" "de_sdp_alloc env"
    using env by (simp_all add: description_ready_def description_env_ok_def)
  obtain s' d where m: "pc_ensure_local_dtls_material (de_sha256 env) (de_dtls env) (de_seeded env) s pc = Some (s', pc\<lparr>pc_dtls := d\<rparr>)"
    "session_base s'" using dtls_material_base [OF base ok(2) env'(1,2)] by blast
  have ok0: "pc_ok (pc\<lparr>pc_dtls := d\<rparr>)"
    using pc_dtls_material_ok [of pc "de_dtls env" s "de_sha256 env" "de_seeded env"] ok(1) env'(1) m(1) base
    by (auto simp: description_env_ok_def session_base_def sdp_session_ok_def)
  define s1 where "s1 = s'\<lparr>ss_media := map sdp_media_of_track cfgs\<rparr>"
  have s1: "sdp_session_ok s1" "ss_candidates s1 = []"
    using session_ok_media [OF m(2) ms(1,2)] ms(3) m(2) by (simp_all add: s1_def session_base_def)
  have added: "pc_add_tracks cfgs s' = s1" using pc_add_tracks_media [of s' cfgs] ms(3) m(2) by (simp add: s1_def session_base_def)
  obtain desc evs ice where r: "pc_describe env s1 (pc\<lparr>pc_dtls := d\<rparr>) = Some (TINYRTC_OK, Some desc,
      (pc\<lparr>pc_dtls := d\<rparr>)\<lparr>pc_local_sdp := s1\<lparr>ss_candidates := map ice_candidate_to_sdp (ice_local ice)\<rparr>,
        pc_sessions := pc_sessions (pc\<lparr>pc_dtls := d\<rparr>) @ [ice], pc_ice := Some (length (pc_sessions (pc\<lparr>pc_dtls := d\<rparr>)))\<rparr>, evs)"
    "\<And>u. sdp_parse u desc = Some (TINYRTC_OK, sdp_reparsed (s1\<lparr>ss_candidates := map ice_candidate_to_sdp (ice_local ice)\<rparr>))"
    "sdp_session_ok (s1\<lparr>ss_candidates := map ice_candidate_to_sdp (ice_local ice)\<rparr>)"
    by (rule pc_describe_text [OF ok0 env'(3,4) s1]) blast
  show ?thesis
    by (rule that [OF m(1) _ _ r(1) [folded added]]) (use r(2,3) in \<open>simp_all add: added, simp add: s1_def\<close>)
qed

lemma create_offer_text:
  assumes ok: "pc_ok pc" "pc_dtls pc = None" "pc_state pc \<noteq> TINYRTC_PC_STATE_CLOSED" and env: "description_ready env"
    and tracks: "\<forall>t \<in> set (pc_local_tracks pc). track_offerable t" "distinct (map tk_payload_type (pc_local_tracks pc))"
  obtains desc pc' evs where "tinyrtc_peer_connection_create_offer env True pc = Some (TINYRTC_OK, Some desc, pc', evs)"
    "\<And>u. sdp_parse u desc = Some (TINYRTC_OK, sdp_reparsed (pc_local_sdp pc'))" "sdp_session_ok (pc_local_sdp pc')"
    "map media_info (ss_media (pc_local_sdp pc')) = map track_info (pc_local_tracks pc)"
    "\<forall>m \<in> set (ss_media (pc_local_sdp pc')). media_offerable m" "pc_state pc' = TINYRTC_PC_STATE_CONNECTING"
    "pc_remote_tracks pc' = pc_remote_tracks pc"
proof -
  define s where "s = (pc_generate_local_ice_credentials (de_now_credentials env)
    (pc_offer_session (de_now_id env) (de_now_version env)))\<lparr>ss_dtls_setup := ''actpass''\<rparr>"
  define pc1 where "pc1 = pc\<lparr>pc_state := TINYRTC_PC_STATE_CONNECTING\<rparr>"
  define cfgs where "cfgs = map track_offer_config (pc_local_tracks pc)"
  have base: "session_base s" unfolding s_def
    by (intro session_base_setup session_base_credentials session_base_offer) (simp_all add: sdp_value_literal is_eol_def)
  have pc1: "pc_ok pc1" "pc_dtls pc1 = None" "pc_local_tracks pc1 = pc_local_tracks pc" using ok by (simp_all add: pc1_def)
  have info: "map media_info (map sdp_media_of_track cfgs) = map track_info (pc_local_tracks pc)"
    using tracks(1) offer_media(1) by (simp add: cfgs_def)
  have "map sm_payload_type (map sdp_media_of_track cfgs) = map (\<lambda>i. fst (snd (snd (snd i)))) (map media_info (map sdp_media_of_track cfgs))"
    by (simp add: media_info_def comp_def)
  also have "\<dots> = map tk_payload_type (pc_local_tracks pc)" unfolding info by (simp add: track_info_def comp_def)
  finally have pts: "distinct (map sm_payload_type (map sdp_media_of_track cfgs))" using tracks(2) by simp
  have offerable: "\<forall>m \<in> set (map sdp_media_of_track cfgs). media_offerable m"
    using tracks(1) offer_media(2) by (auto simp: cfgs_def)
  moreover note pts
  moreover have "length cfgs \<le> SDP_MAX_MEDIA" using ok(1) by (simp add: pc_ok_def cfgs_def)
  ultimately obtain s' pc0 desc evs pc' where r:
    "pc_ensure_local_dtls_material (de_sha256 env) (de_dtls env) (de_seeded env) s pc1 = Some (s', pc0)"
    "pc_local_tracks pc0 = pc_local_tracks pc1"
    "pc_describe env (pc_add_tracks cfgs s') pc0 = Some (TINYRTC_OK, Some desc, pc', evs)"
    "\<And>u. sdp_parse u desc = Some (TINYRTC_OK, sdp_reparsed (pc_local_sdp pc'))" "sdp_session_ok (pc_local_sdp pc')"
    "ss_media (pc_local_sdp pc') = map sdp_media_of_track cfgs" "pc_state pc' = pc_state pc1"
    "pc_remote_tracks pc' = pc_remote_tracks pc1"
    by (rule material_describe_text [OF pc1(1,2) env base]) blast
  have "tinyrtc_peer_connection_create_offer env True pc = Some (TINYRTC_OK, Some desc, pc', evs)"
    using ok(3) r(1-3) pc1(3) unfolding tinyrtc_peer_connection_create_offer_def Let_def s_def [symmetric] pc1_def [symmetric]
    by (simp add: cfgs_def)
  from that [OF this r(4,5)] r(6-8) info offerable show ?thesis by (simp add: pc1_def)
qed

lemma create_answer_text:
  assumes ok: "pc_ok pc" "pc_dtls pc = None" "pc_state pc \<noteq> TINYRTC_PC_STATE_CLOSED" and env: "description_ready env"
    and remote: "pc_remote_sdp pc = sdp_reparsed s0" "sdp_session_ok s0" "\<forall>m \<in> set (ss_media s0). media_offerable m"
  obtains desc pc' evs where "tinyrtc_peer_connection_create_answer env True pc = Some (TINYRTC_OK, Some desc, pc', evs)"
    "\<And>u. sdp_parse u desc = Some (TINYRTC_OK, sdp_reparsed (pc_local_sdp pc'))"
    "map media_info (ss_media (pc_local_sdp pc')) =
      filter (\<lambda>i. \<exists>t \<in> set (pc_local_tracks pc). tk_kind t = fst i) (map media_info (ss_media s0))"
    "pc_remote_tracks pc' = pc_remote_tracks pc" "pc_remote_sdp pc' = pc_remote_sdp pc"
proof -
  define s where "s = (pc_generate_local_ice_credentials (de_now_credentials env)
    (pc_answer_session (pc_remote_sdp pc)))\<lparr>ss_dtls_setup := ''active''\<rparr>"
  define pc1 where "pc1 = pc\<lparr>pc_state := TINYRTC_PC_STATE_CONNECTING\<rparr>"
  define kind where "kind m \<longleftrightarrow> (\<exists>t \<in> set (pc_local_tracks pc). tk_kind t = sm_kind m)" for m :: sdp_media
  have kind: "kind = (\<lambda>m. \<exists>t \<in> set (pc_local_tracks pc). tk_kind t = sm_kind m)" by (simp add: kind_def fun_eq_iff)
  define cfgs where "cfgs = pc_answer_configs (pc_local_tracks pc) (ss_media (pc_remote_sdp pc))"
  have fits: "sdp_fits (sdp_reparsed s0)" using ok(1) remote(1) by (simp add: pc_ok_def)
  have base: "session_base s" unfolding s_def remote(1)
    by (intro session_base_setup session_base_credentials session_base_answer [OF remote(2) fits])
      (simp_all add: sdp_value_literal is_eol_def)
  have pc1: "pc_ok pc1" "pc_dtls pc1 = None" "pc_local_tracks pc1 = pc_local_tracks pc" "pc_remote_sdp pc1 = pc_remote_sdp pc"
    using ok by (simp_all add: pc1_def)
  have cfgs: "map sdp_media_of_track cfgs =
      map (\<lambda>m. sdp_media_of_track (answer_config (sdp_media_reparsed m))) (filter kind (ss_media s0))"
  proof -
    have "sm_kind (sdp_media_reparsed m) = sm_kind m" for m by (simp add: sdp_media_reparsed_def)
    then show ?thesis by (simp add: cfgs_def pc_answer_configs_map remote(1) sdp_reparsed_def filter_map comp_def kind)
  qed
  have am: "media_info (sdp_media_of_track (answer_config (sdp_media_reparsed m))) = media_info m"
    "media_offerable (sdp_media_of_track (answer_config (sdp_media_reparsed m)))" if "m \<in> set (ss_media s0)" for m
    using answer_media [of m] remote(3) that fits by (simp_all add: sdp_fits_def sdp_reparsed_def)
  have info: "map media_info (map sdp_media_of_track cfgs) = map media_info (filter kind (ss_media s0))"
    unfolding cfgs using am(1) by simp
  have pts: "map sm_payload_type ms = map (\<lambda>i. fst (snd (snd (snd i)))) (map media_info ms)" for ms
    by (simp add: media_info_def comp_def)
  have "\<forall>m \<in> set (map sdp_media_of_track cfgs). media_offerable m" unfolding cfgs using am(2) by auto
  moreover have "distinct (map sm_payload_type (map sdp_media_of_track cfgs))"
    unfolding pts [of "map sdp_media_of_track cfgs"] info pts [symmetric]
    using remote(2) by (intro distinct_map_filter) (simp add: sdp_session_ok_def)
  moreover have "length cfgs \<le> SDP_MAX_MEDIA"
  proof -
    have "length (filter kind (ss_media s0)) \<le> length (ss_media s0)" by simp
    also have "\<dots> \<le> SDP_MAX_MEDIA" using remote(2) by (simp add: sdp_session_ok_def sdp_fits_def)
    finally show ?thesis using arg_cong [OF cfgs, of length] by simp
  qed
  ultimately obtain s' pc0 desc evs pc' where r:
    "pc_ensure_local_dtls_material (de_sha256 env) (de_dtls env) (de_seeded env) s pc1 = Some (s', pc0)"
    "pc_local_tracks pc0 = pc_local_tracks pc1" "pc_remote_sdp pc0 = pc_remote_sdp pc1"
    "pc_describe env (pc_add_tracks cfgs s') pc0 = Some (TINYRTC_OK, Some desc, pc', evs)"
    "\<And>u. sdp_parse u desc = Some (TINYRTC_OK, sdp_reparsed (pc_local_sdp pc'))"
    "ss_media (pc_local_sdp pc') = map sdp_media_of_track cfgs"
    "pc_remote_tracks pc' = pc_remote_tracks pc1" "pc_remote_sdp pc' = pc_remote_sdp pc1"
    by (rule material_describe_text [OF pc1(1,2) env base]) blast
  have "tinyrtc_peer_connection_create_answer env True pc = Some (TINYRTC_OK, Some desc, pc', evs)"
    using ok(3) r(1-4) pc1(3,4) unfolding tinyrtc_peer_connection_create_answer_def Let_def s_def [symmetric] pc1_def [symmetric]
    by (simp add: cfgs_def)
  from that [OF this r(5)] r(6-8) info show ?thesis by (simp add: pc1_def filter_map comp_def kind)
      (simp add: media_info_def)
qed

text \<open>C2: after one offer and one answer both sides know each other.  Of two new connections with at most
  two local tracks each, the first one's offer is created, accepted by the second, answered, and the
  answer is accepted by the first.  Then each side holds the ICE credentials, the certificate
  fingerprint and the candidates of the other, so that connectivity checks are signed with the key the
  other side verifies with; the second side has a remote track for every local track of the first,
  and the first side one for every track whose kind the second has, with equal kind, mid, codec, payload
  type and clock rate.\<close>
theorem offer_answer_agree:
  fixes env_a env_b :: "'ssl description_env"
  assumes env: "description_ready env_a" "description_ready env_b"
    and stun: "pcc_stun_ok ca" "pcc_stun_ok cb"
    and ta: "\<forall>t \<in> set ta. track_offerable t" "distinct (map tk_payload_type ta)" "length ta \<le> SDP_MAX_MEDIA"
    and tb: "\<forall>t \<in> set tb. track_ok t \<and> tk_is_local t" "length tb \<le> SDP_MAX_MEDIA"
    and alloc: "tracks_alloc_ok alloc_a" "tracks_alloc_ok alloc_b"
  shows "\<exists>offer answer a1 a2 b1 b2 e1 e2 e3 e4.
    tinyrtc_peer_connection_create_offer env_a True (pc_with_tracks ca ta) = Some (TINYRTC_OK, Some offer, a1, e1) \<and>
    tinyrtc_peer_connection_set_remote_description ub alloc_b (Some offer) (pc_with_tracks cb tb) = Some (TINYRTC_OK, b1, e2) \<and>
    tinyrtc_peer_connection_create_answer env_b True b1 = Some (TINYRTC_OK, Some answer, b2, e3) \<and>
    tinyrtc_peer_connection_set_remote_description ua alloc_a (Some answer) a1 = Some (TINYRTC_OK, a2, e4) \<and>
    knows a2 b2 \<and> knows b2 a2 \<and>
    map track_info (pc_remote_tracks b2) = map track_info ta \<and>
    map track_info (pc_remote_tracks a2) = filter (\<lambda>i. \<exists>t \<in> set tb. tk_kind t = fst i) (map track_info ta)"
proof -
  define a0 :: "'ssl peer_connection" where "a0 = pc_with_tracks ca ta"
  define b0 :: "'ssl peer_connection" where "b0 = pc_with_tracks cb tb"
  have a0: "pc_ok a0" "pc_dtls a0 = None" "pc_state a0 \<noteq> TINYRTC_PC_STATE_CLOSED" "pc_local_tracks a0 = ta" "pc_remote_tracks a0 = []"
    using pc_new_ok [OF stun(1)] ta by (auto simp: a0_def pc_with_tracks_def pc_ok_def pc_new_def track_offerable_def)
  have b0: "pc_ok b0" "pc_dtls b0 = None" "pc_state b0 \<noteq> TINYRTC_PC_STATE_CLOSED" "pc_local_tracks b0 = tb" "pc_remote_tracks b0 = []"
    using pc_new_ok [OF stun(2)] tb by (auto simp: b0_def pc_with_tracks_def pc_ok_def pc_new_def)
  obtain offer a1 e1 where o: "tinyrtc_peer_connection_create_offer env_a True a0 = Some (TINYRTC_OK, Some offer, a1, e1)"
    "\<And>u. sdp_parse u offer = Some (TINYRTC_OK, sdp_reparsed (pc_local_sdp a1))" "sdp_session_ok (pc_local_sdp a1)"
    "map media_info (ss_media (pc_local_sdp a1)) = map track_info ta"
    "\<forall>m \<in> set (ss_media (pc_local_sdp a1)). media_offerable m" "pc_state a1 = TINYRTC_PC_STATE_CONNECTING" "pc_remote_tracks a1 = []"
    using create_offer_text [OF a0(1-3) env(1)] ta(1,2) a0(4,5) by metis
  have media: "length (ss_media (sdp_reparsed (pc_local_sdp a1))) \<le> SDP_MAX_MEDIA"
    using arg_cong [OF o(4), of length] ta(3) by (simp add: sdp_reparsed_def)
  obtain b1 e2 where b: "tinyrtc_peer_connection_set_remote_description ub alloc_b (Some offer) b0 = Some (TINYRTC_OK, b1, e2)"
    "pc_remote_sdp b1 = sdp_reparsed (pc_local_sdp a1)" "map track_info (pc_remote_tracks b1) = map track_info ta"
    "pc_local_tracks b1 = tb" "pc_state b1 = pc_state b0" "pc_dtls b1 = None" "pc_ok b1"
    by (rule set_remote_description_text [OF b0(1) o(2) b0(3) alloc(2) b0(5) media])
      (use o(4) b0(2,4) in \<open>simp add: sdp_reparsed_def comp_def\<close>)
  have live: "pc_state b1 \<noteq> TINYRTC_PC_STATE_CLOSED" using b(5) b0(3) by simp
  obtain answer b2 e3 where n: "tinyrtc_peer_connection_create_answer env_b True b1 = Some (TINYRTC_OK, Some answer, b2, e3)"
    "\<And>u. sdp_parse u answer = Some (TINYRTC_OK, sdp_reparsed (pc_local_sdp b2))"
    "map media_info (ss_media (pc_local_sdp b2)) = filter (\<lambda>i. \<exists>t \<in> set tb. tk_kind t = fst i) (map track_info ta)"
    "pc_remote_tracks b2 = pc_remote_tracks b1" "pc_remote_sdp b2 = pc_remote_sdp b1"
    by (rule create_answer_text [OF b(7,6) live env(2) b(2) o(3,5)]) (simp add: b(4) o(4))
  have "length (ss_media (sdp_reparsed (pc_local_sdp b2))) = length (filter (\<lambda>i. \<exists>t \<in> set tb. tk_kind t = fst i) (map track_info ta))"
    using arg_cong [OF n(3), of length] by (simp add: sdp_reparsed_def)
  also have "\<dots> \<le> length (map track_info ta)" by (rule length_filter_le)
  finally have media': "length (ss_media (sdp_reparsed (pc_local_sdp b2))) \<le> SDP_MAX_MEDIA" using ta(3) by simp
  have a1: "pc_ok a1" using create_offer_ok [OF a0(1), of env_a True] env(1) o(1) by (auto simp: description_ready_def)
  obtain a2 e4 where a: "tinyrtc_peer_connection_set_remote_description ua alloc_a (Some answer) a1 = Some (TINYRTC_OK, a2, e4)"
    "pc_remote_sdp a2 = sdp_reparsed (pc_local_sdp b2)" "pc_local_sdp a2 = pc_local_sdp a1"
    "map track_info (pc_remote_tracks a2) = map media_info (ss_media (pc_local_sdp b2))"
    by (rule set_remote_description_text [OF a1 n(2) _ alloc(1) o(7) media'])
      (use o(6) in \<open>simp_all add: sdp_reparsed_def comp_def\<close>)
  have "knows a2 b2" "knows b2 a2" using a(2,3) b(2) n(5) by (simp_all add: knows_reparsed)
  with o(1) b(1,3) n(1,3,4) a(1,4) show ?thesis unfolding a0_def b0_def by auto
qed

definition offer_config_example :: "bool \<Rightarrow> pc_configuration" where
  "offer_config_example initiator = \<lparr>pcc_stun_server = None, pcc_is_initiator = initiator, pcc_on_ice_candidate = True,
     pcc_on_connection_state_change = True, pcc_on_track_added = True, pcc_on_audio_frame = True, pcc_on_video_frame = True\<rparr>"

definition offer_track_example :: track where
  "offer_track_example = track_of_config 1 \<lparr>tc_kind = TINYRTC_TRACK_KIND_VIDEO, tc_mid = ''0'', tc_codec_id = TINYRTC_CODEC_H264,
     tc_payload_type = 0, tc_clock_rate = 0, tc_channels = 1\<rparr>"

lemma offer_examples:
  "description_ready description_env_example" "pcc_stun_ok (offer_config_example initiator)" "track_offerable offer_track_example"
  "tracks_alloc_ok (\<lambda>i. (Some i, True, jitter_all_arrays))"
proof -
  have c: "track_config_int \<lparr>tc_kind = TINYRTC_TRACK_KIND_VIDEO, tc_mid = ''0'', tc_codec_id = TINYRTC_CODEC_H264,
     tc_payload_type = 0, tc_clock_rate = 0, tc_channels = 1\<rparr>" by (simp add: track_config_int_def)
  from track_of_config_ok [OF c] show "track_offerable offer_track_example"
    by (simp add: track_offerable_def offer_track_example_def track_of_config_def track_zero_def codec_lookup_defs
        codec_info_table_def strncpy_into_def sdp_value_literal is_eol_def)
qed (simp_all add: description_ready_def description_env_ok_def description_env_example_def dtls_env_example_def
    pcc_stun_ok_def offer_config_example_def tracks_alloc_ok_def)

theorem offer_answer_agree_witness:
  "\<exists>offer answer a1 a2 b1 b2 e1 e2 e3 e4.
    tinyrtc_peer_connection_create_offer description_env_example True (pc_with_tracks (offer_config_example True) [offer_track_example])
      = Some (TINYRTC_OK, Some offer, a1, e1) \<and>
    tinyrtc_peer_connection_set_remote_description (0, 0) (\<lambda>i. (Some i, True, jitter_all_arrays)) (Some offer)
      (pc_with_tracks (offer_config_example False) [offer_track_example]) = Some (TINYRTC_OK, b1, e2) \<and>
    tinyrtc_peer_connection_create_answer description_env_example True b1 = Some (TINYRTC_OK, Some answer, b2, e3) \<and>
    tinyrtc_peer_connection_set_remote_description (0, 0) (\<lambda>i. (Some i, True, jitter_all_arrays)) (Some answer) a1
      = Some (TINYRTC_OK, a2, e4) \<and>
    knows a2 b2 \<and> knows b2 a2 \<and>
    map track_info (pc_remote_tracks b2) = map track_info [offer_track_example] \<and>
    map track_info (pc_remote_tracks a2) =
      filter (\<lambda>i. \<exists>t \<in> set [offer_track_example]. tk_kind t = fst i) (map track_info [offer_track_example])"
proof -
  have t: "track_ok offer_track_example \<and> tk_is_local offer_track_example"
    using offer_examples(3) by (simp add: track_offerable_def)
  show ?thesis
    by (rule offer_answer_agree [OF offer_examples(1,1,2,2)]) (use t offer_examples(3,4) in \<open>simp_all add: SDP_MAX_MEDIA_def\<close>)
qed

end
