(* ===== verification/Demo_Stream.thy ===== *)
theory Demo_Stream
  imports Packetize C_String
begin

text \<open>
  The H.264 file reader of the demo programs, \<^verbatim>\<open>src/demo/common.c\<close>: the search for start codes, the
  loop that cuts a file into the units the sender sends as frames, and the lists these units are
  kept in.  The file system is a partial map from paths to contents; which allocations succeed is
  an argument, indexed by the offset of the loop at which they are made.
\<close>

type_synonym file_system = "string \<Rightarrow> bytes option"

record demo_h264_stream =
  ds_units :: "bytes list"
  ds_current_index :: nat

definition demo_stream_zero :: demo_h264_stream where
  "demo_stream_zero = \<lparr>ds_units = [], ds_current_index = 0\<rparr>"

record demo_memory =
  dm_units :: "nat \<Rightarrow> bool"
  dm_unit :: "nat \<Rightarrow> bool"
  dm_grow :: "nat \<Rightarrow> bool"

section \<open>Start codes\<close>

text \<open>The position and \<^verbatim>\<open>*start_code_len\<close>, which keeps the 0 of the caller when nothing is found.\<close>

fun demo_find_start_code :: "bytes \<Rightarrow> nat \<times> nat" where
  "demo_find_start_code (a # b # c # d # rest) =
     (if a = 0 \<and> b = 0 \<and> c = 1 then (0, 3)
      else if a = 0 \<and> b = 0 \<and> c = 0 \<and> d = 1 then (0, 4)
      else (case demo_find_start_code (b # c # d # rest) of (i, n) \<Rightarrow> (Suc i, n)))"
| "demo_find_start_code data = (length data, 0)"

definition demo_h264_is_vcl :: "u8 \<Rightarrow> bool" where
  "demo_h264_is_vcl nalu_type \<longleftrightarrow> nalu_type = 1 \<or> nalu_type = 5"

definition demo_h264_starts_new_au :: "u8 \<Rightarrow> bool" where
  "demo_h264_starts_new_au nalu_type \<longleftrightarrow> nalu_type = 9 \<or> nalu_type = 7 \<or> nalu_type = 8 \<or> nalu_type = 6"

section \<open>The list of units\<close>

definition demo_h264_append_unit :: "bool \<Rightarrow> bool \<Rightarrow> bytes \<Rightarrow> demo_h264_stream \<Rightarrow> int \<times> demo_h264_stream" where
  "demo_h264_append_unit units_ok unit_ok data stream =
     (if \<not> units_ok then (-1, stream)
      else if \<not> unit_ok then (-1, stream)
      else (0, stream\<lparr>ds_units := ds_units stream @ [data]\<rparr>))"

definition demo_h264_stream_reset :: "demo_h264_stream option \<Rightarrow> demo_h264_stream option" where
  "demo_h264_stream_reset stream = map_option (\<lambda>s. s\<lparr>ds_current_index := 0\<rparr>) stream"

definition demo_h264_stream_free :: "demo_h264_stream option \<Rightarrow> demo_h264_stream option" where
  "demo_h264_stream_free stream = map_option (\<lambda>_. demo_stream_zero) stream"

section \<open>Loading a file\<close>

text \<open>The loop, with the unit read so far; \<open>Inl ()\<close> is the return of -1 when memory runs out.\<close>

function demo_load_loop :: "demo_memory \<Rightarrow> bytes \<Rightarrow> nat \<Rightarrow> bytes \<Rightarrow> demo_h264_stream \<Rightarrow> unit + bytes \<times> demo_h264_stream" where
  "demo_load_loop mem data offset current_au stream =
     (if length data \<le> offset then Inr (current_au, stream)
      else
        (case demo_find_start_code (drop offset data) of (start0, start_code_len) \<Rightarrow>
           if start0 = length data - offset then Inr (current_au, stream)
           else
             (let start = start0 + offset;
                  body = start + start_code_len;
                  next = fst (demo_find_start_code (drop body data));
                  unit_end = (if next = length data - body then length data else next + body) in
              if unit_end \<le> body then Inr (current_au, stream)
              else
                (let nalu_type = data ! body AND 0x1F;
                     flush_before_append = (0 < length current_au \<and>
                       (demo_h264_starts_new_au nalu_type \<or> demo_h264_is_vcl nalu_type));
                     (err, stream) =
                       (if flush_before_append
                        then demo_h264_append_unit (dm_units mem offset) (dm_unit mem offset) current_au stream
                        else (0, stream));
                     current_au = (if flush_before_append then [] else current_au) in
                 if err \<noteq> 0 then Inl ()
                 else if \<not> dm_grow mem offset then Inl ()
                 else demo_load_loop mem data unit_end (current_au @ take (unit_end - start) (drop start data)) stream))))"
  by pat_completeness auto
termination
  by (relation "measure (\<lambda>(mem, data, offset, au, stream). length data - offset)") (auto split: if_splits)

declare demo_load_loop.simps [simp del]

text \<open>
  The whole function; \<open>buffer_ok\<close> and \<open>read_ok\<close> are the allocation of the file buffer and the
  complete read.  A failure leaves the stream empty.
\<close>

definition demo_h264_stream_load ::
  "file_system \<Rightarrow> bool \<Rightarrow> bool \<Rightarrow> demo_memory \<Rightarrow> string option \<Rightarrow> demo_h264_stream option
     \<Rightarrow> int \<times> demo_h264_stream option" where
  "demo_h264_stream_load fs buffer_ok read_ok mem path stream =
     (case (path, stream) of
        (Some p, Some _) \<Rightarrow>
          (case fs p of
             None \<Rightarrow> (-1, Some demo_stream_zero)
           | Some data \<Rightarrow>
               if data = [] \<or> \<not> buffer_ok \<or> \<not> read_ok then (-1, Some demo_stream_zero)
               else
                 (case demo_load_loop mem data 0 [] demo_stream_zero of
                    Inl _ \<Rightarrow> (-1, demo_h264_stream_free stream)
                  | Inr (current_au, s) \<Rightarrow>
                      (case (if 0 < length current_au
                             then demo_h264_append_unit (dm_units mem (length data)) (dm_unit mem (length data)) current_au s
                             else (0, s)) of
                         (err, s) \<Rightarrow>
                           if err \<noteq> 0 then (-1, demo_h264_stream_free (Some s))
                           else (if 0 < length (ds_units s) then 0 else -1, Some s))))
      | _ \<Rightarrow> (-1, stream))"

section \<open>Session descriptions in files\<close>

text \<open>The string that is read ends at the first NUL of the file; \<open>malloc_ok\<close> is the allocation.\<close>

definition demo_read_sdp :: "file_system \<Rightarrow> bool \<Rightarrow> string \<Rightarrow> string option" where
  "demo_read_sdp fs malloc_ok path =
     (case fs path of
        None \<Rightarrow> None
      | Some data \<Rightarrow>
          if \<not> malloc_ok then None else Some (takeWhile (\<lambda>c. c \<noteq> CHR 0x00) (bytes_string data)))"

text \<open>\<open>writable\<close> says which paths can be opened for writing.\<close>

definition demo_write_sdp :: "(string \<Rightarrow> bool) \<Rightarrow> string \<Rightarrow> string \<Rightarrow> file_system \<Rightarrow> int \<times> file_system" where
  "demo_write_sdp writable path sdp fs =
     (if \<not> writable path then (-1, fs) else (0, fs(path \<mapsto> string_bytes sdp)))"

lemma demo_sdp_file_roundtrip:
  assumes "writable path" and "CHR 0x00 \<notin> set sdp"
  shows "demo_read_sdp (snd (demo_write_sdp writable path sdp fs)) True path = Some sdp"
  using assms by (auto simp: demo_read_sdp_def demo_write_sdp_def takeWhile_eq_all_conv)

section \<open>The scanner and the packetiser's scanner\<close>

text \<open>
  The two scanners of the repository look for the same start codes; the demo's one needs a byte
  after a three-byte start code.
\<close>

lemma demo_find_start_code_short: "length d < 4 \<Longrightarrow> demo_find_start_code d = (length d, 0)"
  by (induction d rule: demo_find_start_code.induct) simp_all

lemma start_code_len_cons4:
  "h264_start_code_len (a # b # c # d # rest) =
     (if a = 0 \<and> b = 0 \<and> c = 1 then 3 else if a = 0 \<and> b = 0 \<and> c = 0 \<and> d = 1 then 4 else 0)"
  by (simp add: h264_start_code_len_def)

lemma demo_find_start_code_eq:
  "demo_find_start_code d =
     (if h264_find_start_code d + 4 \<le> length d
      then (h264_find_start_code d, h264_start_code_len (drop (h264_find_start_code d) d)) else (length d, 0))"
  by (induction d rule: demo_find_start_code.induct) (simp_all add: start_code_len_cons4)

lemma demo_find_start_code_bounds:
  assumes "demo_find_start_code d = (i, n)" and "i \<noteq> length d"
  shows "i + 4 \<le> length d" and "n = 3 \<or> n = 4" and "demo_find_start_code (drop i d) = (0, n)"
proof -
  from assms have i: "i = h264_find_start_code d" "i + 4 \<le> length d" "n = h264_start_code_len (drop i d)"
    by (auto simp: demo_find_start_code_eq split: if_splits)
  then have "h264_find_start_code d \<noteq> length d" by simp
  from h264_start_code_at [OF this] i have n: "3 \<le> n" by simp
  then show "n = 3 \<or> n = 4" using i(3) by (auto simp: h264_start_code_len_def split: if_splits)
  show "i + 4 \<le> length d" by (fact i(2))
  have "h264_find_start_code (drop i d) = 0"
    using n i by (cases "drop i d") simp_all
  moreover have "4 \<le> length (drop i d)" using i(2) by simp
  ultimately show "demo_find_start_code (drop i d) = (0, n)"
    using i(3) by (simp add: demo_find_start_code_eq)
qed

section \<open>What is loaded\<close>

lemma start_code_len_append: "h264_start_code_len u \<noteq> 0 \<Longrightarrow> h264_start_code_len (u @ v) \<noteq> 0"
  by (auto simp: h264_start_code_len_def nth_append split: if_splits)

lemma start_code_len_take: "4 \<le> k \<Longrightarrow> h264_start_code_len (take k d) = h264_start_code_len d"
  by (auto simp: h264_start_code_len_def)

text \<open>One round of the loop that reads a unit.\<close>

lemma demo_load_loop_cases:
  assumes "demo_load_loop mem data offset au st = Inr (au', st')"
  obtains (no_code) "drop offset data = [] \<or> fst (demo_find_start_code (drop offset data)) = length (drop offset data)"
      "au' = au" "st' = st"
  | (empty_unit) start n where "demo_find_start_code (drop offset data) = (start, n)"
      "start < length (drop offset data)" "fst (demo_find_start_code (drop (n + start) (drop offset data))) = 0"
      "au' = au" "st' = st"
  | (unit) start n len where "demo_find_start_code (drop offset data) = (start, n)"
      "start < length (drop offset data)" "n < len" "offset + start + len \<le> length data"
      "fst (demo_find_start_code (drop (offset + start + len) data)) = 0"
      "demo_load_loop mem data (offset + start + len) (au @ take len (drop (offset + start) data)) st = Inr (au', st')"
      "au = [] \<or> \<not> (demo_h264_starts_new_au (data ! (offset + start + n) AND 0x1F) \<or> demo_h264_is_vcl (data ! (offset + start + n) AND 0x1F))"
  | (flushed) start n len where "demo_find_start_code (drop offset data) = (start, n)"
      "start < length (drop offset data)" "n < len" "offset + start + len \<le> length data"
      "fst (demo_find_start_code (drop (offset + start + len) data)) = 0"
      "demo_load_loop mem data (offset + start + len) (take len (drop (offset + start) data))
         (st\<lparr>ds_units := ds_units st @ [au]\<rparr>) = Inr (au', st')" "au \<noteq> []"
proof -
  obtain start n where f: "demo_find_start_code (drop offset data) = (start, n)" by force
  show thesis
  proof (cases "length data \<le> offset \<or> start = length data - offset")
    case True
    then have "demo_load_loop mem data offset au st = Inr (au, st)"
      using f by (subst demo_load_loop.simps) auto
    with assms f True show thesis by (intro no_code) auto
  next
    case False
    then have b: "start + 4 \<le> length (drop offset data)" "n = 3 \<or> n = 4"
      using demo_find_start_code_bounds [OF f] by simp_all
    define body where "body = start + offset + n"
    define nx where "nx = fst (demo_find_start_code (drop body data))"
    define fin where "fin = (if nx = length data - body then length data else nx + body)"
    have nx: "nx \<le> length data - body"
      unfolding nx_def demo_find_start_code_eq by simp
    have fin: "fin \<le> length data" "fin = body + nx"
      using nx b False unfolding fin_def body_def by auto
    have code: "fst (demo_find_start_code (drop fin data)) = 0"
    proof (cases "nx = length data - body")
      case True
      then have "fin = length data" by (simp add: fin_def)
      then show ?thesis by simp
    next
      case nf: False
      then have "nx \<noteq> length (drop body data)" by simp
      from demo_find_start_code_bounds(3) [OF _ this, of "snd (demo_find_start_code (drop body data))"]
      show ?thesis by (simp add: nx_def fin(2) add.commute)
    qed
    define ty where "ty = data ! body AND 0x1F"
    define fl where "fl \<longleftrightarrow> au \<noteq> [] \<and> (demo_h264_starts_new_au ty \<or> demo_h264_is_vcl ty)"
    have step: "demo_load_loop mem data offset au st =
        (if fin \<le> body then Inr (au, st)
         else (case (if fl then demo_h264_append_unit (dm_units mem offset) (dm_unit mem offset) au st else (0, st)) of
           (err, s) \<Rightarrow> if err \<noteq> 0 then Inl () else if \<not> dm_grow mem offset then Inl ()
             else demo_load_loop mem data fin ((if fl then [] else au) @ take (fin - (start + offset)) (drop (start + offset) data)) s))"
      unfolding fl_def ty_def fin_def nx_def body_def
      using f False by (subst demo_load_loop.simps) (simp add: Let_def)
    show thesis
    proof (cases "fin \<le> body")
      case True
      then have "nx = 0" using fin(2) by simp
      moreover have "demo_load_loop mem data offset au st = Inr (au, st)"
        using step True by simp
      ultimately show thesis
        using assms f b by (intro empty_unit [of start n]) (simp_all add: nx_def body_def add.commute add.left_commute)
    next
      case unit_found: False
      have fin': "fin = offset + start + (fin - (start + offset))" "n < fin - (start + offset)"
        using unit_found fin(2) by (simp_all add: body_def)
      show thesis
      proof (cases fl)
        case True
        then show thesis
          using assms step unit_found fin' f fin(1) code b
          by (intro flushed [of start n "fin - (start + offset)"])
            (auto simp: demo_h264_append_unit_def fl_def add.commute split: if_splits)
      next
        case nofl: False
        then show thesis
          using assms step unit_found fin' f fin(1) code b
          by (intro unit [of start n "fin - (start + offset)"])
            (auto simp: fl_def ty_def body_def add.commute add.left_commute split: if_splits)
      qed
    qed
  qed
qed

text \<open>
  What the loop has read when it ends: the bytes after the first start code, up to the end of the
  file or to a start code with no byte behind it.
\<close>

definition demo_empty_unit :: "bytes \<Rightarrow> bool" where
  "demo_empty_unit rest \<longleftrightarrow>
     (\<exists>n. demo_find_start_code rest = (0, n) \<and> 0 < n \<and> fst (demo_find_start_code (drop n rest)) = 0)"

lemma demo_load_loop_covers:
  assumes "demo_load_loop mem data offset au st = Inr (au', st')"
  shows "\<exists>skip kept rest. drop offset data = skip @ kept @ rest \<and>
    length skip = fst (demo_find_start_code (drop offset data)) \<and>
    concat (ds_units st') @ au' = concat (ds_units st) @ au @ kept \<and> (rest = [] \<or> demo_empty_unit rest)"
  using assms
proof (induction "length data - offset" arbitrary: offset au st rule: less_induct)
  case less
  have more: "\<exists>skip kept rest. drop offset data = skip @ kept @ rest \<and>
      length skip = fst (demo_find_start_code (drop offset data)) \<and>
      concat (ds_units st') @ au' = concat (ds_units st) @ au @ kept \<and> (rest = [] \<or> demo_empty_unit rest)"
    if r: "demo_find_start_code (drop offset data) = (start, n)" "start < length (drop offset data)"
      "n < len" "offset + start + len \<le> length data"
      "fst (demo_find_start_code (drop (offset + start + len) data)) = 0"
      "demo_load_loop mem data (offset + start + len) au1 st1 = Inr (au', st')"
      "concat (ds_units st1) @ au1 = concat (ds_units st) @ au @ take len (drop (offset + start) data)"
    for start n len au1 st1
  proof -
    have "length data - (offset + start + len) < length data - offset" using r(2,3) by simp
    from less.hyps [OF this r(6)] r(5) obtain kept rest where k: "drop (offset + start + len) data = kept @ rest"
      "concat (ds_units st') @ au' = concat (ds_units st1) @ au1 @ kept" "rest = [] \<or> demo_empty_unit rest"
      by auto
    have "drop offset data = take start (drop offset data) @ (take len (drop (offset + start) data) @ kept) @ rest"
      by (metis append.assoc append_take_drop_id drop_drop add.commute k(1))
    moreover have "length (take start (drop offset data)) = fst (demo_find_start_code (drop offset data))"
      using r(1,2) by simp
    moreover have "concat (ds_units st') @ au' = concat (ds_units st) @ au @ take len (drop (offset + start) data) @ kept"
      using k(2) r(7) by (metis append.assoc)
    ultimately show ?thesis using k(3) by blast
  qed
  from less.prems show ?case
  proof (cases rule: demo_load_loop_cases)
    case no_code
    then show ?thesis by (intro exI [of _ "drop offset data"] exI [of _ "[]"]) auto
  next
    case (empty_unit start n)
    then have "start \<noteq> length (drop offset data)" by simp
    from demo_find_start_code_bounds [OF empty_unit(1) this]
    have "0 < n" "demo_find_start_code (drop start (drop offset data)) = (0, n)" by auto
    then have "demo_empty_unit (drop start (drop offset data))"
      using empty_unit(3) by (simp add: demo_empty_unit_def add.assoc)
    with empty_unit show ?thesis
      by - (rule exI [of _ "take start (drop offset data)"], rule exI [of _ "[]"],
          rule exI [of _ "drop start (drop offset data)"], simp del: drop_drop)
  next
    case (unit start n len)
    from more [OF this(1-6)] show ?thesis by simp
  next
    case (flushed start n len)
    from more [OF this(1-6)] show ?thesis by simp
  qed
qed

lemma demo_load_loop_units:
  assumes "demo_load_loop mem data offset au st = Inr (au', st')"
    and "au = [] \<or> h264_start_code_len au \<noteq> 0" and "\<forall>u \<in> set (ds_units st). h264_start_code_len u \<noteq> 0"
  shows "(au' = [] \<or> h264_start_code_len au' \<noteq> 0) \<and> (\<forall>u \<in> set (ds_units st'). h264_start_code_len u \<noteq> 0) \<and>
    ds_current_index st' = ds_current_index st"
  using assms
proof (induction "length data - offset" arbitrary: offset au st rule: less_induct)
  case less
  have chunk: "h264_start_code_len (take len (drop (offset + start) data)) \<noteq> 0"
    "length data - (offset + start + len) < length data - offset"
    if "demo_find_start_code (drop offset data) = (start, n)" "start < length (drop offset data)" "n < len" for start n len
  proof -
    have "start \<noteq> length (drop offset data)" using that(2) by simp
    note b = demo_find_start_code_bounds [OF that(1) this]
    have "h264_start_code_len (drop start (drop offset data)) = n" "0 < n"
      using b(2,3) by (auto simp: demo_find_start_code_eq split: if_splits)
    moreover have "drop (offset + start) data = drop start (drop offset data)" by (simp add: add.commute)
    moreover have "4 \<le> len" using b(2) that(3) by auto
    ultimately show "h264_start_code_len (take len (drop (offset + start) data)) \<noteq> 0"
      by (simp only: start_code_len_take)
    show "length data - (offset + start + len) < length data - offset" using that(2,3) by simp
  qed
  from less.prems(1) show ?case
  proof (cases rule: demo_load_loop_cases)
    case (unit start n len)
    note c = chunk [OF unit(1,2,3)]
    have "h264_start_code_len (au @ take len (drop (offset + start) data)) \<noteq> 0"
      using less.prems(2) c(1) start_code_len_append by auto
    with less.hyps [OF c(2) unit(6)] less.prems(3) show ?thesis by simp
  next
    case (flushed start n len)
    note c = chunk [OF flushed(1,2,3)]
    have "\<forall>u \<in> set (ds_units (st\<lparr>ds_units := ds_units st @ [au]\<rparr>)). h264_start_code_len u \<noteq> 0"
      using less.prems(2,3) flushed(7) by simp
    from less.hyps [OF c(2) flushed(6) disjI2 [OF c(1)] this] show ?thesis by simp
  qed (use less.prems in auto)
qed

lemma demo_h264_stream_load_covers:
  assumes "demo_h264_stream_load fs buffer_ok read_ok mem (Some path) (Some st0) = (0, Some s)"
  obtains data skip rest where "fs path = Some data" "data = skip @ concat (ds_units s) @ rest"
    "length skip = fst (demo_find_start_code data)" "rest = [] \<or> demo_empty_unit rest"
    "ds_units s \<noteq> []" "\<forall>u \<in> set (ds_units s). h264_start_code_len u \<noteq> 0" "ds_current_index s = 0"
proof -
  from assms obtain data au s1 where l: "fs path = Some data" "demo_load_loop mem data 0 [] demo_stream_zero = Inr (au, s1)"
    "s = s1\<lparr>ds_units := ds_units s1 @ (if au = [] then [] else [au])\<rparr>" "ds_units s \<noteq> []"
    by (auto simp: demo_h264_stream_load_def demo_h264_append_unit_def demo_h264_stream_free_def demo_stream_zero_def
        split: option.splits if_splits sum.splits prod.splits)
  from demo_load_loop_covers [OF l(2)] obtain skip kept rest where k: "data = skip @ kept @ rest"
    "length skip = fst (demo_find_start_code data)" "concat (ds_units s1) @ au = kept" "rest = [] \<or> demo_empty_unit rest"
    unfolding demo_stream_zero_def drop_0 by (elim exE conjE) (metis append_Nil concat.simps(1) demo_h264_stream.select_convs(1))
  have "concat (ds_units s) = kept" using l(3) k(3) by (cases "au = []") simp_all
  with k l(1,3,4) demo_load_loop_units [OF l(2)] that [of data skip rest] show thesis
    by (auto simp: demo_stream_zero_def split: if_splits)
qed

section \<open>Well-formed streams\<close>

text \<open>
  How the NAL units of a stream are grouped: a slice, parameter set, enhancement message or
  delimiter starts a new unit, any other NAL unit is kept with the ones before it.
\<close>

definition demo_begins_unit :: "bytes \<Rightarrow> bool" where
  "demo_begins_unit n \<longleftrightarrow> demo_h264_starts_new_au (hd n AND 0x1F) \<or> demo_h264_is_vcl (hd n AND 0x1F)"

fun demo_group :: "bytes list \<Rightarrow> bytes list \<Rightarrow> bytes list list" where
  "demo_group current [] = (if current = [] then [] else [current])"
| "demo_group current (n # ns) =
     (if current \<noteq> [] \<and> demo_begins_unit n then current # demo_group [n] ns else demo_group (current @ [n]) ns)"

definition demo_memory_ok :: "demo_memory \<Rightarrow> bool" where
  "demo_memory_ok mem \<longleftrightarrow> (\<forall>i. dm_units mem i \<and> dm_unit mem i \<and> dm_grow mem i)"

lemma concat_demo_group: "concat (demo_group current ns) = current @ ns"
  by (induction current ns rule: demo_group.induct) simp_all

lemma h264_stream_of_simps [simp]:
  "h264_stream_of [] = []" "h264_stream_of (n # ns) = h264_start_code @ n @ h264_stream_of ns"
  "h264_stream_of (ms @ ns) = h264_stream_of ms @ h264_stream_of ns"
  by (simp_all add: h264_stream_of_def)

lemma h264_stream_of_eq_Nil [simp]: "h264_stream_of ns = [] \<longleftrightarrow> ns = []"
  by (cases ns) (simp_all add: h264_start_code_def)

lemma demo_find_start_code_stream:
  "demo_find_start_code (h264_start_code @ d) = (0, 4)"
  "h264_nalu_ok n \<Longrightarrow> demo_find_start_code (n @ h264_stream_of ns) = (length n, if ns = [] then 0 else 4)"
proof -
  show 1: "demo_find_start_code (h264_start_code @ d) = (0, 4)" by (simp add: h264_start_code_def)
  assume n: "h264_nalu_ok n"
  show "demo_find_start_code (n @ h264_stream_of ns) = (length n, if ns = [] then 0 else 4)"
  proof (cases ns)
    case Nil
    with n show ?thesis by (simp add: demo_find_start_code_eq h264_nalu_ok_def)
  next
    case (Cons m ms)
    with n find_start_code_clean [of n "m @ h264_stream_of ms"] show ?thesis
      by (simp add: demo_find_start_code_eq h264_nalu_ok_def)
  qed
qed

lemma demo_load_loop_stream:
  assumes "demo_memory_ok mem" and "\<forall>n \<in> set ns. h264_nalu_ok n"
  shows "\<exists>au' st'. demo_load_loop mem (pre @ h264_stream_of ns) (length pre) (h264_stream_of current) st = Inr (au', st') \<and>
    ds_current_index st' = ds_current_index st \<and>
    ds_units st' @ (if au' = [] then [] else [au']) = ds_units st @ map h264_stream_of (demo_group current ns)"
  using assms(2)
proof (induction current ns arbitrary: pre st rule: demo_group.induct)
  case (1 current)
  then show ?case by (subst demo_load_loop.simps) simp
next
  case (2 current n ns)
  let ?unit = "h264_start_code @ n"
  define fl where "fl \<longleftrightarrow> current \<noteq> [] \<and> demo_begins_unit n"
  from 2(3) have n: "h264_nalu_ok n" "n \<noteq> []" "\<forall>n \<in> set ns. h264_nalu_ok n" by (auto simp: h264_nalu_ok_def)
  note find = demo_find_start_code_stream(1) [of "n @ h264_stream_of ns"] demo_find_start_code_stream(2) [OF n(1), of ns]
    demo_find_start_code_stream(2) [OF n(1), of "[]"]
  have "(pre @ h264_start_code @ n @ h264_stream_of ns) ! (length pre + 4) = hd n"
    using n(2) by (simp add: nth_append h264_start_code_def hd_conv_nth)
  then have step: "demo_load_loop mem (pre @ h264_stream_of (n # ns)) (length pre) (h264_stream_of current) st =
      demo_load_loop mem ((pre @ ?unit) @ h264_stream_of ns) (length (pre @ ?unit))
        (if fl then ?unit else h264_stream_of current @ ?unit)
        (if fl then st\<lparr>ds_units := ds_units st @ [h264_stream_of current]\<rparr> else st)"
    using find n(2) assms(1)
    by (subst demo_load_loop.simps)
      (simp add: Let_def fl_def demo_begins_unit_def demo_h264_append_unit_def demo_memory_ok_def ac_simps)
  show ?case
  proof (cases fl)
    case True
    with 2(1) [OF _ n(3), of "pre @ ?unit" "st\<lparr>ds_units := ds_units st @ [h264_stream_of current]\<rparr>"] step
    show ?thesis by (simp add: fl_def)
  next
    case False
    with 2(2) [OF _ n(3), of "pre @ ?unit" st] step show ?thesis by (auto simp: fl_def)
  qed
qed

lemma demo_h264_stream_load_units:
  assumes "fs path = Some (h264_stream_of ns)" and "ns \<noteq> []" "\<forall>n \<in> set ns. h264_nalu_ok n"
    and "demo_memory_ok mem"
  shows "demo_h264_stream_load fs True True mem (Some path) (Some st0) =
    (0, Some \<lparr>ds_units = map h264_stream_of (demo_group [] ns), ds_current_index = 0\<rparr>)"
proof -
  from demo_load_loop_stream [OF assms(4,3), of "[]" "[]" demo_stream_zero]
  obtain au st where l: "demo_load_loop mem (h264_stream_of ns) 0 [] demo_stream_zero = Inr (au, st)"
    "ds_current_index st = 0" "ds_units st @ (if au = [] then [] else [au]) = map h264_stream_of (demo_group [] ns)"
    by (auto simp: demo_stream_zero_def)
  have "demo_group [] ns \<noteq> []"
    using assms(2) concat_demo_group [of "[]" ns] by auto
  with l assms(1,2,4) show ?thesis
    by (cases st) (auto simp: demo_h264_stream_load_def demo_h264_append_unit_def demo_memory_ok_def)
qed

text \<open>Every NAL unit that begins one is sent as a frame of its own, parameter sets included.\<close>

lemma demo_group_singles:
  assumes "\<forall>n \<in> set ns. demo_begins_unit n"
  shows "demo_group [] ns = map (\<lambda>n. [n]) ns"
proof -
  have "demo_group [m] ns = map (\<lambda>n. [n]) (m # ns)" for m
    using assms by (induction ns arbitrary: m) simp_all
  then show ?thesis using assms by (cases ns) simp_all
qed

end
