(* ===== verification/Demo_Sender.thy ===== *)
theory Demo_Sender
  imports Library_Context Demo_Stream Sig_Messages
begin

text \<open>
  The sending demo, \<^verbatim>\<open>src/demo/demo_sender.c\<close>: command line, media files, the connection it sets up,
  its callbacks and one tick of the media sender.  The static variables of the program are the
  record \<open>demo_globals\<close>; tracks are known by their addresses.  The parts of the command line the
  receiving demo shares are here too.
\<close>

section \<open>Command line\<close>

record demo_options =
  op_room :: string
  op_auto_signaling :: bool
  op_server :: string
  op_stun :: string
  op_disable_cert_verify :: bool
  op_codec :: codec_id
  op_codec_name :: string
  op_video_file :: "string option"
  op_audio_file :: "string option"
  op_max_video_frames :: int

definition demo_default_options :: demo_options where
  "demo_default_options =
     \<lparr>op_room = ''tinyrtc-demo'', op_auto_signaling = False, op_server = ''ws://localhost:8765'',
      op_stun = ''stun:stun.l.google.com:19302'', op_disable_cert_verify = False, op_codec = TINYRTC_CODEC_G722,
      op_codec_name = ''g722'', op_video_file = None, op_audio_file = None, op_max_video_frames = 0\<rparr>"

text \<open>What \<^verbatim>\<open>main\<close> does after the loop: return 0 or 1, or go on.\<close>

datatype demo_command = Demo_Usage | Demo_Unsupported string | Demo_Run demo_options

text \<open>
  One \<^verbatim>\<open>if\<close> of the loop: when the current argument is the option and another one follows, the option
  takes its value and \<^verbatim>\<open>i\<close> moves on to the value, which the \<^verbatim>\<open>if\<close>s below test once more.
\<close>

definition demo_take_value ::
  "string \<Rightarrow> (string \<Rightarrow> demo_options \<Rightarrow> demo_options) \<Rightarrow> string list \<times> demo_options \<Rightarrow> string list \<times> demo_options" where
  "demo_take_value name set_value s =
     (case s of
        (a # v # rest, o') \<Rightarrow> if a = name then (v # rest, set_value v o') else s
      | _ \<Rightarrow> s)"

definition demo_audio_codec :: "string \<Rightarrow> codec_id option" where
  "demo_audio_codec name =
     (if strcasecmp_eq name ''g722'' then Some TINYRTC_CODEC_G722
      else if strcasecmp_eq name ''pcma'' then Some TINYRTC_CODEC_PCMA
      else if strcasecmp_eq name ''pcmu'' then Some TINYRTC_CODEC_PCMU
      else None)"

definition demo_is_help :: "string \<Rightarrow> bool" where
  "demo_is_help a \<longleftrightarrow> a = ''-h'' \<or> a = ''--help''"

definition demo_no_verify :: "string \<Rightarrow> demo_options \<Rightarrow> demo_options" where
  "demo_no_verify a o' = (if a = ''--no-verify'' \<or> a = ''-k'' then o'\<lparr>op_disable_cert_verify := True\<rparr> else o')"

definition demo_set_max_frames :: "string \<Rightarrow> demo_options \<Rightarrow> demo_options" where
  "demo_set_max_frames v o' = o'\<lparr>op_max_video_frames := atoi v\<rparr>"

lemma demo_take_value_length: "length (fst (demo_take_value name f s)) \<le> length (fst s)"
  by (cases s) (simp add: demo_take_value_def split: list.split)

text \<open>The options of one round that take a value, without the last one, which can end the program.\<close>

definition demo_sender_values :: "string list \<times> demo_options \<Rightarrow> string list \<times> demo_options" where
  "demo_sender_values s =
     demo_take_value ''--max-video-frames'' demo_set_max_frames
       (demo_take_value ''--audio-file'' (\<lambda>v o'. o'\<lparr>op_audio_file := Some v\<rparr>)
         (demo_take_value ''--video-file'' (\<lambda>v o'. o'\<lparr>op_video_file := Some v\<rparr>)
           (demo_take_value ''--stun'' (\<lambda>v o'. o'\<lparr>op_stun := v\<rparr>) s)))"

lemma demo_sender_values_length: "length (fst (demo_sender_values s)) \<le> length (fst s)"
  unfolding demo_sender_values_def by (rule order_trans [OF demo_take_value_length])+ simp

lemma demo_sender_values_shrinks:
  assumes "(b # v # rest', o1) = demo_sender_values (a # rest, o0)"
  shows "length rest' < length rest"
  using demo_sender_values_length [of "(a # rest, o0)"] by (simp add: assms [symmetric])

function demo_sender_args :: "string list \<Rightarrow> demo_options \<Rightarrow> demo_command" where
  "demo_sender_args [] o' = Demo_Run o'"
| "demo_sender_args (a # rest) o' =
     (if demo_is_help a then Demo_Usage
      else
        (case demo_sender_values (a # rest, demo_no_verify a o') of
           (b # v # rest', o1) \<Rightarrow>
             if b = ''--audio-codec'' then
               (case demo_audio_codec v of
                  None \<Rightarrow> Demo_Unsupported v
                | Some codec \<Rightarrow> demo_sender_args rest' (o1\<lparr>op_codec := codec, op_codec_name := v\<rparr>))
             else demo_sender_args (v # rest') o1
         | (_, o1) \<Rightarrow> Demo_Run o1))"
  by pat_completeness auto
termination
  by (relation "measure (\<lambda>(args, o'). length args)") (auto dest: demo_sender_values_shrinks)

text \<open>
  An option whose value is not itself an option is read as it is meant.  An option in the place of
  a value is taken for both.
\<close>

definition demo_option_words :: "string set" where
  "demo_option_words =
     {''--stun'', ''--video-file'', ''--audio-file'', ''--max-video-frames'', ''--audio-codec''}"

lemma demo_sender_args_values:
  assumes "v \<notin> demo_option_words"
  shows "demo_sender_args (''--stun'' # v # rest) o' = demo_sender_args rest (o'\<lparr>op_stun := v\<rparr>)"
    and "demo_sender_args (''--video-file'' # v # rest) o' = demo_sender_args rest (o'\<lparr>op_video_file := Some v\<rparr>)"
    and "demo_sender_args (''--audio-file'' # v # rest) o' = demo_sender_args rest (o'\<lparr>op_audio_file := Some v\<rparr>)"
    and "demo_sender_args (''--max-video-frames'' # v # rest) o' = demo_sender_args rest (o'\<lparr>op_max_video_frames := atoi v\<rparr>)"
    and "demo_audio_codec v = Some codec \<Longrightarrow>
      demo_sender_args (''--audio-codec'' # v # rest) o' = demo_sender_args rest (o'\<lparr>op_codec := codec, op_codec_name := v\<rparr>)"
  using assms
  by (cases rest, simp_all add: demo_option_words_def demo_sender_values_def demo_take_value_def demo_is_help_def
      demo_no_verify_def demo_set_max_frames_def)+

lemma demo_sender_value_read_twice:
  "demo_sender_args [''--stun'', ''--video-file'', ''clip.264''] o' =
     Demo_Run (o'\<lparr>op_stun := ''--video-file'', op_video_file := Some ''clip.264''\<rparr>)"
  by (simp add: demo_sender_values_def demo_take_value_def demo_is_help_def demo_no_verify_def)

text \<open>The room, which is read in the first place only, and the last server.\<close>

definition demo_room_option :: "string list \<Rightarrow> demo_options \<Rightarrow> demo_options" where
  "demo_room_option argv o' =
     (if 3 \<le> length argv \<and> argv ! 1 = ''--room'' then o'\<lparr>op_room := argv ! 2, op_auto_signaling := True\<rparr> else o')"

fun demo_server_option :: "string list \<Rightarrow> string \<Rightarrow> string" where
  "demo_server_option (a # v # rest) server = demo_server_option (v # rest) (if a = ''--server'' then v else server)"
| "demo_server_option _ server = server"

definition demo_sender_command :: "string list \<Rightarrow> demo_command" where
  "demo_sender_command argv =
     (case demo_sender_args (tl argv) demo_default_options of
        Demo_Run o' \<Rightarrow>
          (let o' = demo_room_option argv o' in Demo_Run (o'\<lparr>op_server := demo_server_option (tl argv) (op_server o')\<rparr>))
      | other \<Rightarrow> other)"

section \<open>Media files\<close>

definition demo_open_video_file :: "file_system \<Rightarrow> string option \<Rightarrow> bytes option" where
  "demo_open_video_file fs path =
     (case path of
        Some p \<Rightarrow> fs p
      | None \<Rightarrow> (case fs ''test.264'' of Some data \<Rightarrow> Some data | None \<Rightarrow> fs ''test_data/test.264''))"

text \<open>\<open>readable\<close> is \<^verbatim>\<open>access(path, R_OK) == 0\<close>.\<close>

definition demo_resolve_video_stream_path :: "(string \<Rightarrow> bool) \<Rightarrow> string option \<Rightarrow> string option" where
  "demo_resolve_video_stream_path readable path =
     (case path of
        Some p \<Rightarrow> Some p
      | None \<Rightarrow>
          if readable ''test.264'' then Some ''test.264''
          else if readable ''test_data/test.264'' then Some ''test_data/test.264''
          else if readable ''/mnt/d/workspace/codex/tinyrtc/test_data/test.264''
          then Some ''/mnt/d/workspace/codex/tinyrtc/test_data/test.264''
          else None)"

definition demo_open_audio_file :: "file_system \<Rightarrow> string option \<Rightarrow> string \<Rightarrow> bytes option" where
  "demo_open_audio_file fs path codec_name =
     (case path of
        Some p \<Rightarrow> fs p
      | None \<Rightarrow>
          (case fs (take 511 (''send_audio.'' @ codec_name)) of
             Some data \<Rightarrow> Some data
           | None \<Rightarrow>
               (case fs (take 511 (''test_data/send_audio.'' @ codec_name)) of
                  Some data \<Rightarrow> Some data
                | None \<Rightarrow>
                    fs (take 511 (''/home/ubuntu/agora_rtsa_sdk/example/out/x86_64/send_audio.'' @ codec_name)))))"

section \<open>The media sender\<close>

record demo_globals =
  g_video_track :: "nat option"
  g_audio_track :: "nat option"
  g_max_video_frames :: int
  g_should_exit :: bool
  g_peer_joined :: bool
  g_offer_sent :: bool
  g_audio_frame_count :: int
  g_video_frame_count :: int

text \<open>An open audio file is its content and the position of the next read.\<close>

record demo_media_sender =
  sn_stream :: demo_h264_stream
  sn_audio_file :: "(bytes \<times> nat) option"
  sn_video_timestamp :: u32
  sn_audio_timestamp :: u32
  sn_video_inc :: u32
  sn_audio_inc :: u32
  sn_audio_frame_size :: nat
  sn_frame_count :: int

definition demo_media_sender_init :: "bytes option \<Rightarrow> codec_id \<Rightarrow> demo_media_sender" where
  "demo_media_sender_init audio_file audio_codec =
     \<lparr>sn_stream = demo_stream_zero, sn_audio_file = map_option (\<lambda>data. (data, 0)) audio_file,
      sn_video_timestamp = 0, sn_audio_timestamp = 0, sn_video_inc = 90000 div 30,
      sn_audio_inc = tinyrtc_codec_get_clock_rate audio_codec div 50, sn_audio_frame_size = 160, sn_frame_count = 0\<rparr>"

text \<open>
  The video half of a tick; the flag says whether the tick goes on.  A counter that reaches the
  largest \<^verbatim>\<open>int\<close> is undefined.
\<close>

definition demo_tick_video ::
  "cipher \<Rightarrow> cipher \<Rightarrow> (sockaddr \<Rightarrow> bytes \<Rightarrow> int) \<Rightarrow> (nat \<Rightarrow> bool) \<Rightarrow> demo_globals \<Rightarrow> demo_media_sender
     \<Rightarrow> 'ssl peer_connection \<Rightarrow> (bool \<times> demo_globals \<times> demo_media_sender \<times> 'ssl peer_connection \<times> pc_event list) option" where
  "demo_tick_video aes hmac sendto alloc_ok g sender pc =
     (let units = ds_units (sn_stream sender); i = ds_current_index (sn_stream sender) in
      if units = [] \<or> g_video_track g = None then Some (True, g, sender, pc, [])
      else if length units \<le> i then None
      else do {
        (send_err, pc, evs) \<leftarrow> tinyrtc_track_send_video_frame aes hmac sendto alloc_ok (g_video_track g) (Inr (units ! i))
          (sn_video_timestamp sender) pc;
        if send_err \<noteq> TINYRTC_OK then Some (False, g, sender, pc, evs)
        else if sn_frame_count sender \<ge> 2 ^ 31 - 1 then None
        else
          (let frame_count = sn_frame_count sender + 1;
               current_index = (if i + 1 \<ge> length units then 0 else i + 1) in
           Some (True,
             (if g_max_video_frames g > 0 \<and> frame_count \<ge> g_max_video_frames g then g\<lparr>g_should_exit := True\<rparr> else g),
             sender\<lparr>sn_video_timestamp := sn_video_timestamp sender + sn_video_inc sender, sn_frame_count := frame_count,
               sn_stream := (sn_stream sender)\<lparr>ds_current_index := current_index\<rparr>\<rparr>,
             pc, evs))
      })"

text \<open>The audio half: a refused frame is read again at the next tick, the end of the file starts it anew.\<close>

definition demo_tick_audio ::
  "cipher \<Rightarrow> cipher \<Rightarrow> (sockaddr \<Rightarrow> bytes \<Rightarrow> int) \<Rightarrow> (nat \<Rightarrow> bool) \<Rightarrow> demo_globals \<Rightarrow> demo_media_sender
     \<Rightarrow> 'ssl peer_connection \<Rightarrow> (demo_media_sender \<times> 'ssl peer_connection \<times> pc_event list) option" where
  "demo_tick_audio aes hmac sendto alloc_ok g sender pc =
     (case (sn_audio_file sender, g_audio_track g) of
        (Some (data, file_pos), Some h) \<Rightarrow>
          (let audio_buffer = take (sn_audio_frame_size sender) (drop file_pos data) in
           if audio_buffer = [] then Some (sender\<lparr>sn_audio_file := Some (data, 0)\<rparr>, pc, [])
           else do {
             (send_err, pc, evs) \<leftarrow> tinyrtc_track_send_audio_frame aes hmac sendto alloc_ok (Some h) (Inr audio_buffer)
               (sn_audio_timestamp sender) pc;
             if send_err \<noteq> TINYRTC_OK then Some (sender, pc, evs)
             else Some (sender\<lparr>sn_audio_file := Some (data, file_pos + length audio_buffer),
                    sn_audio_timestamp := sn_audio_timestamp sender + sn_audio_inc sender\<rparr>, pc, evs)
           })
      | _ \<Rightarrow> Some (sender, pc, []))"

definition demo_media_sender_tick ::
  "cipher \<Rightarrow> cipher \<Rightarrow> (sockaddr \<Rightarrow> bytes \<Rightarrow> int) \<Rightarrow> (nat \<Rightarrow> bool) \<Rightarrow> demo_globals \<Rightarrow> demo_media_sender
     \<Rightarrow> 'ssl peer_connection \<Rightarrow> (demo_globals \<times> demo_media_sender \<times> 'ssl peer_connection \<times> pc_event list) option" where
  "demo_media_sender_tick aes hmac sendto alloc_ok g sender pc =
     (if tinyrtc_peer_connection_get_state (Some pc) \<noteq> TINYRTC_PC_STATE_CONNECTED then Some (g, sender, pc, [])
      else do {
        (proceed, g, sender, pc, evs) \<leftarrow> demo_tick_video aes hmac sendto alloc_ok g sender pc;
        if \<not> proceed then Some (g, sender, pc, evs)
        else do {
          (sender, pc, audio_evs) \<leftarrow> demo_tick_audio aes hmac sendto alloc_ok g sender pc;
          Some (g, sender, pc, evs @ audio_evs)
        }
      })"

section \<open>Callbacks\<close>

text \<open>\<open>sig\<close> is \<^verbatim>\<open>g_sig\<close>.  The candidate is sent while a signaling client is there; errors are logged.\<close>

definition demo_on_ice_candidate ::
  "signaling option \<Rightarrow> candidate_fields \<Rightarrow> sig_io \<Rightarrow> (signaling option \<times> sig_io) option" where
  "demo_on_ice_candidate sig candidate io =
     (case sig of
        None \<Rightarrow> Some (None, io)
      | Some _ \<Rightarrow> map_option snd (tinyrtc_signaling_send_candidate sig (Some candidate) io))"

definition demo_sender_on_audio_frame :: "demo_globals \<Rightarrow> demo_globals option" where
  "demo_sender_on_audio_frame g =
     (if g_audio_frame_count g \<ge> 2 ^ 31 - 1 then None else Some (g\<lparr>g_audio_frame_count := g_audio_frame_count g + 1\<rparr>))"

definition demo_sender_on_video_frame :: "demo_globals \<Rightarrow> demo_globals option" where
  "demo_sender_on_video_frame g =
     (if g_video_frame_count g \<ge> 2 ^ 31 - 1 then None else Some (g\<lparr>g_video_frame_count := g_video_frame_count g + 1\<rparr>))"

text \<open>Both programs add the candidates of the other side to their connection.\<close>

definition demo_add_candidate :: "signal_event \<Rightarrow> 'ssl peer_connection \<Rightarrow> 'ssl peer_connection option" where
  "demo_add_candidate event pc =
     (case se_data event of
        Signal_Candidate c \<Rightarrow> map_option snd (tinyrtc_peer_connection_add_ice_candidate (Some (candidate_fields_of c)) pc)
      | _ \<Rightarrow> Some pc)"

text \<open>\<open>pc\<close> is \<^verbatim>\<open>g_pc\<close>, \<open>None\<close> before the connection exists and after it was destroyed.\<close>

definition demo_sender_signaling_callback ::
  "u64 \<times> u64 \<Rightarrow> (nat \<Rightarrow> track_alloc) \<Rightarrow> signal_event \<Rightarrow> demo_globals \<Rightarrow> 'ssl peer_connection option
     \<Rightarrow> (demo_globals \<times> 'ssl peer_connection option \<times> pc_event list) option" where
  "demo_sender_signaling_callback uninit alloc event g pc =
     (case (se_type event, pc) of
        (TINYRTC_SIGNAL_EVENT_ANSWER, Some c) \<Rightarrow>
          (case se_data event of
             Signal_Sdp answer \<Rightarrow>
               map_option (\<lambda>(_, c, evs). (g, Some c, evs))
                 (tinyrtc_peer_connection_set_remote_description uninit alloc (Some answer) c)
           | _ \<Rightarrow> Some (g, pc, []))
      | (TINYRTC_SIGNAL_EVENT_PEER_JOIN, _) \<Rightarrow> Some (g\<lparr>g_peer_joined := True\<rparr>, pc, [])
      | (TINYRTC_SIGNAL_EVENT_ICE_CANDIDATE, Some c) \<Rightarrow>
          map_option (\<lambda>c. (g, Some c, [])) (demo_add_candidate event c)
      | _ \<Rightarrow> Some (g, pc, []))"

section \<open>Setting up the connection\<close>

definition demo_pc_config :: "string \<Rightarrow> bool \<Rightarrow> pc_configuration" where
  "demo_pc_config stun_server is_initiator =
     \<lparr>pcc_stun_server = Some stun_server, pcc_is_initiator = is_initiator, pcc_on_ice_candidate = True,
      pcc_on_connection_state_change = True, pcc_on_track_added = True, pcc_on_audio_frame = True,
      pcc_on_video_frame = True\<rparr>"

definition demo_track_config :: "track_kind \<Rightarrow> string \<Rightarrow> codec_id \<Rightarrow> track_fields" where
  "demo_track_config kind mid codec =
     \<lparr>tf_kind = kind, tf_mid = Some mid, tf_codec_id = codec, tf_payload_type = 0, tf_clock_rate = 0, tf_channels = 0\<rparr>"

text \<open>The context, the connection and its two tracks; the values are what the allocations return.\<close>

record demo_memory_setup =
  st_debug :: bool
  st_context :: bool
  st_context_lock :: bool
  st_connection :: "nat option"
  st_connection_lock :: bool
  st_peers :: bool
  st_video_track :: "nat option"
  st_audio_track :: "nat option"

definition demo_add_tracks ::
  "demo_memory_setup \<Rightarrow> codec_id \<Rightarrow> 'ssl peer_connection
     \<Rightarrow> (nat option \<times> nat option \<times> 'ssl peer_connection) option" where
  "demo_add_tracks mem audio_codec pc = do {
     (video, pc) \<leftarrow> tinyrtc_peer_connection_add_track (st_video_track mem)
       (Some (demo_track_config TINYRTC_TRACK_KIND_VIDEO ''v0'' TINYRTC_CODEC_H264)) pc;
     (audio, pc) \<leftarrow> tinyrtc_peer_connection_add_track (st_audio_track mem)
       (Some (demo_track_config TINYRTC_TRACK_KIND_AUDIO ''a0'' audio_codec)) pc;
     Some (video, audio, pc)
   }"

text \<open>Inner \<open>None\<close>: the program returns 1.\<close>

definition demo_setup ::
  "demo_memory_setup \<Rightarrow> string \<Rightarrow> bool \<Rightarrow> codec_id
     \<Rightarrow> (nat \<times> 'ssl tinyrtc_context \<times> nat option \<times> nat option) option option" where
  "demo_setup mem stun_server is_initiator audio_codec =
     (case tinyrtc_init (st_context mem) (st_context_lock mem) (Some (tinyrtc_get_default_config (st_debug mem))) of
        None \<Rightarrow> Some None
      | Some ctx \<Rightarrow> do {
          (created, ctx) \<leftarrow> tinyrtc_peer_connection_create (st_connection mem) (st_connection_lock mem) (st_peers mem)
            (Some (demo_pc_config stun_server is_initiator)) ctx;
          (case created of
             None \<Rightarrow> Some None
           | Some address \<Rightarrow> do {
               pc \<leftarrow> map_of (cx_peers ctx) address;
               (video, audio, pc) \<leftarrow> demo_add_tracks mem audio_codec pc;
               Some (Some (address, ctx\<lparr>cx_peers := map (\<lambda>(a, p). if a = address then (a, pc) else (a, p)) (cx_peers ctx)\<rparr>,
                 video, audio))
             })
        })"

text \<open>
  The offer, in the first round of the main loop after a peer has joined.  The flag says whether the
  program goes on; it ends when the offer cannot be created or sent.
\<close>

definition demo_sender_offer ::
  "'ssl description_env \<Rightarrow> demo_globals \<Rightarrow> signaling \<Rightarrow> sig_io \<Rightarrow> 'ssl peer_connection
     \<Rightarrow> (bool \<times> demo_globals \<times> 'ssl peer_connection \<times> signaling option \<times> sig_io \<times> pc_event list) option" where
  "demo_sender_offer env g sig io pc =
     (if g_offer_sent g \<or> \<not> g_peer_joined g then Some (True, g, pc, Some sig, io, [])
      else do {
        (err, offer_sdp, pc, evs) \<leftarrow> tinyrtc_peer_connection_create_offer env True pc;
        if err \<noteq> TINYRTC_OK then Some (False, g, pc, Some sig, io, evs)
        else do {
          (err, sig', io) \<leftarrow> tinyrtc_signaling_send_offer (Some sig) offer_sdp io;
          if err \<noteq> TINYRTC_OK then Some (False, g, pc, sig', io, evs)
          else Some (True, g\<lparr>g_offer_sent := True\<rparr>, pc, sig', io, evs)
        }
      })"

end
