(* ===== verification/Demo_Receiver.thy ===== *)
theory Demo_Receiver
  imports Demo_Sender
begin

text \<open>
  The receiving demo, \<^verbatim>\<open>src/demo/demo_receiver.c\<close>: its command line, the files it writes the received
  frames to and its callbacks.  An open output file is the bytes written so far.
\<close>

record demo_receiver =
  rv_audio_frame_count :: int
  rv_video_frame_count :: int
  rv_audio_file :: "bytes option"
  rv_video_file :: "bytes option"
  rv_audio_output_path :: string
  rv_max_video_frames :: int
  rv_should_exit :: bool
  rv_got_offer :: bool
  rv_pending_offer :: "string option"

definition demo_receiver_init :: "int \<Rightarrow> bool \<Rightarrow> demo_receiver" where
  "demo_receiver_init max_video_frames video_opened =
     \<lparr>rv_audio_frame_count = 0, rv_video_frame_count = 0, rv_audio_file = None,
      rv_video_file = (if video_opened then Some [] else None), rv_audio_output_path = ''output_audio.bin'',
      rv_max_video_frames = max_video_frames, rv_should_exit = False, rv_got_offer = False, rv_pending_offer = None\<rparr>"

section \<open>Command line\<close>

lemma demo_take_value_shrinks:
  assumes "(args, o1) = demo_take_value name f (a # rest, o0)"
  shows "length args - Suc 0 < Suc (length rest)"
  using demo_take_value_length [of name f "(a # rest, o0)"] by (simp add: assms [symmetric])

function demo_receiver_args :: "string list \<Rightarrow> demo_options \<Rightarrow> demo_command" where
  "demo_receiver_args [] o' = Demo_Run o'"
| "demo_receiver_args (a # rest) o' =
     (if demo_is_help a then Demo_Usage
      else
        (case demo_take_value ''--max-video-frames'' demo_set_max_frames (a # rest, demo_no_verify a o') of
           (args, o1) \<Rightarrow> demo_receiver_args (tl args) o1))"
  by pat_completeness auto
termination
  by (relation "measure (\<lambda>(args, o'). length args)") (auto dest: demo_take_value_shrinks)

definition demo_receiver_command :: "string list \<Rightarrow> demo_command" where
  "demo_receiver_command argv =
     (case demo_receiver_args (tl argv) demo_default_options of
        Demo_Run o' \<Rightarrow>
          (let o' = demo_room_option argv o' in Demo_Run (o'\<lparr>op_server := demo_server_option (tl argv) (op_server o')\<rparr>))
      | other \<Rightarrow> other)"

section \<open>Output files\<close>

definition demo_audio_extension_for_codec :: "codec_id \<Rightarrow> string" where
  "demo_audio_extension_for_codec codec =
     (case codec of
        TINYRTC_CODEC_G722 \<Rightarrow> ''g722''
      | TINYRTC_CODEC_PCMA \<Rightarrow> ''pcma''
      | TINYRTC_CODEC_PCMU \<Rightarrow> ''pcmu''
      | TINYRTC_CODEC_OPUS \<Rightarrow> ''opus''
      | _ \<Rightarrow> ''bin'')"

text \<open>\<open>writable\<close> says which paths can be opened for writing.\<close>

definition demo_open_audio_output_for_track :: "(string \<Rightarrow> bool) \<Rightarrow> track \<Rightarrow> demo_receiver \<Rightarrow> demo_receiver" where
  "demo_open_audio_output_for_track writable track d =
     (if rv_audio_file d \<noteq> None then d
      else
        (let path = ''output_audio.'' @ demo_audio_extension_for_codec (tinyrtc_track_get_codec (Some track)) in
         d\<lparr>rv_audio_output_path := path, rv_audio_file := (if writable path then Some [] else None)\<rparr>))"

definition demo_on_track_added :: "(string \<Rightarrow> bool) \<Rightarrow> track \<Rightarrow> demo_receiver \<Rightarrow> demo_receiver" where
  "demo_on_track_added writable track d =
     (if tinyrtc_track_get_kind (Some track) = TINYRTC_TRACK_KIND_AUDIO
      then demo_open_audio_output_for_track writable track d else d)"

section \<open>Frames\<close>

definition demo_append :: "bytes \<Rightarrow> bytes option \<Rightarrow> bytes option" where
  "demo_append frame file = map_option (\<lambda>written. written @ frame) file"

text \<open>A counter that passes the largest \<^verbatim>\<open>int\<close> is undefined.\<close>

definition demo_on_audio_frame :: "bytes \<Rightarrow> demo_receiver \<Rightarrow> demo_receiver option" where
  "demo_on_audio_frame frame d =
     (if rv_audio_frame_count d \<ge> 2 ^ 31 - 1 then None
      else Some (d\<lparr>rv_audio_file := demo_append frame (rv_audio_file d),
                   rv_audio_frame_count := rv_audio_frame_count d + 1\<rparr>))"

definition demo_on_video_frame :: "bool \<Rightarrow> bytes \<Rightarrow> demo_receiver \<Rightarrow> demo_receiver option" where
  "demo_on_video_frame pc_exists frame d =
     (if rv_video_frame_count d \<ge> 2 ^ 31 - 1 then None
      else
        (let count = rv_video_frame_count d + 1 in
         Some (d\<lparr>rv_video_file := demo_append frame (rv_video_file d), rv_video_frame_count := count,
                 rv_should_exit := rv_should_exit d \<or>
                   (rv_max_video_frames d > 0 \<and> count \<ge> rv_max_video_frames d \<and> pc_exists)\<rparr>)))"

text \<open>
  The observer of the connection: \<open>track_at\<close> are the tracks by address.  State changes are logged,
  candidates go to the signaling client, datagrams and sockets are not the program's.
\<close>

definition demo_receiver_event ::
  "(string \<Rightarrow> bool) \<Rightarrow> (nat \<Rightarrow> track) \<Rightarrow> pc_event \<Rightarrow> demo_receiver \<Rightarrow> demo_receiver option" where
  "demo_receiver_event writable track_at event d =
     (case event of
        On_Track_Added t \<Rightarrow> Some (demo_on_track_added writable (track_at t) d)
      | On_Audio_Frame t frame timestamp \<Rightarrow> demo_on_audio_frame frame d
      | On_Video_Frame t frame timestamp \<Rightarrow> demo_on_video_frame True frame d
      | _ \<Rightarrow> Some d)"

fun demo_receiver_events ::
  "(string \<Rightarrow> bool) \<Rightarrow> (nat \<Rightarrow> track) \<Rightarrow> pc_event list \<Rightarrow> demo_receiver \<Rightarrow> demo_receiver option" where
  "demo_receiver_events writable track_at [] d = Some d"
| "demo_receiver_events writable track_at (e # es) d = do {
     d \<leftarrow> demo_receiver_event writable track_at e d;
     demo_receiver_events writable track_at es d
   }"

section \<open>Signaling\<close>

text \<open>
  An offer is kept for the main loop; \<open>malloc_ok\<close> is the allocation of the copy.  A second offer
  replaces the pointer to the first copy.
\<close>

definition demo_receiver_signaling_callback ::
  "bool \<Rightarrow> signal_event \<Rightarrow> demo_receiver \<Rightarrow> 'ssl peer_connection option
     \<Rightarrow> (demo_receiver \<times> 'ssl peer_connection option) option" where
  "demo_receiver_signaling_callback malloc_ok event d pc =
     (case (se_type event, pc) of
        (TINYRTC_SIGNAL_EVENT_OFFER, Some _) \<Rightarrow>
          (case se_data event of
             Signal_Sdp offer \<Rightarrow>
               Some (d\<lparr>rv_pending_offer := (if malloc_ok then Some offer else None), rv_got_offer := True\<rparr>, pc)
           | _ \<Rightarrow> Some (d, pc))
      | (TINYRTC_SIGNAL_EVENT_ICE_CANDIDATE, Some c) \<Rightarrow> map_option (\<lambda>c. (d, Some c)) (demo_add_candidate event c)
      | _ \<Rightarrow> Some (d, pc))"

text \<open>
  The answer to the pending offer, after the polling loop: the description is set, the answer
  created and sent.  The flag says whether the program goes on; it ends without an offer and at the
  first error.
\<close>

definition demo_receiver_answer ::
  "u64 \<times> u64 \<Rightarrow> (nat \<Rightarrow> track_alloc) \<Rightarrow> 'ssl description_env \<Rightarrow> signaling \<Rightarrow> sig_io \<Rightarrow> demo_receiver
     \<Rightarrow> 'ssl peer_connection
     \<Rightarrow> (bool \<times> demo_receiver \<times> 'ssl peer_connection \<times> signaling option \<times> sig_io \<times> pc_event list) option" where
  "demo_receiver_answer uninit alloc env sig io d pc =
     (case (rv_got_offer d, rv_pending_offer d) of
        (True, Some offer) \<Rightarrow> do {
          (err2, pc, evs2) \<leftarrow> tinyrtc_peer_connection_set_remote_description uninit alloc (Some offer) pc;
          let d = d\<lparr>rv_pending_offer := None\<rparr>;
          if err2 \<noteq> TINYRTC_OK then Some (False, d, pc, Some sig, io, evs2)
          else do {
            (err3, answer_sdp, pc, evs3) \<leftarrow> tinyrtc_peer_connection_create_answer env True pc;
            if err3 \<noteq> TINYRTC_OK then Some (False, d, pc, Some sig, io, evs2 @ evs3)
            else do {
              (err4, sig', io) \<leftarrow> tinyrtc_signaling_send_answer (Some sig) answer_sdp io;
              Some (err4 = TINYRTC_OK, d, pc, sig', io, evs2 @ evs3)
            }
          }
        }
      | _ \<Rightarrow> Some (False, d, pc, Some sig, io, []))"

end
