(* ===== verification/Media_Safety.thy ===== *)
theory Media_Safety
  imports Peer_Safety
begin

text \<open>
  Sending and receiving of media and the event loop keep the invariant of a peer connection: the
  buffers of the send path hold every packet, received packets are read inside their bytes, and the
  ICE session, the DTLS context and the keys are used within their sizes.
\<close>

section \<open>Libraries\<close>

text \<open>The sizes the libraries document: AES blocks, SHA-256 and HMAC-SHA1 values, 48-byte secrets.\<close>

definition runtime_ok :: "'ssl runtime \<Rightarrow> bool" where
  "runtime_ok rt \<longleftrightarrow>
     tls_library_ok (rt_tls rt) \<and> (\<forall>m. length (rt_sha256 rt m) = 32) \<and>
     (\<forall>k m. length (rt_aes rt k m) = 16) \<and> (\<forall>k m. length (rt_srtp_hmac rt k m) = 20)"

lemma runtime_okD:
  assumes "runtime_ok rt"
  shows "tls_library_ok (rt_tls rt)" and "\<forall>m. length (rt_sha256 rt m) = 32"
    and "\<forall>k m. length (rt_aes rt k m) = 16" and "\<forall>k m. length (rt_srtp_hmac rt k m) = 20"
  using assms by (simp_all add: runtime_ok_def)

section \<open>Sending\<close>

lemma send_header_built:
  "tinyrtc_rtp_build_header (Some (send_header pt sequence timestamp marker)) 1500 =
     Some (12, rtp_fixed_part (send_header pt sequence timestamp marker))"
  by (simp add: tinyrtc_rtp_build_header_def send_header_def Let_def)

lemma ready_peer:
  assumes "pc_ok pc" and "pc_is_secure_media_ready pc"
  obtains k i r where "pc_ice pc = Some k" "k < length (pc_sessions pc)" "ice_selected_pair (pc_sessions pc ! k) = Some i"
    "ice_selected_remote (pc_sessions pc ! k) i = Some r" "pc_srtp_initialized pc"
proof -
  obtain k where k: "pc_ice pc = Some k" "ice_is_connected (Some (pc_sessions pc ! k))" "pc_srtp_initialized pc"
    using assms(2) by (auto simp: pc_is_secure_media_ready_def pc_ice_session_def split: option.splits)
  have inv: "ice_inv (pc_sessions pc ! k)" "k < length (pc_sessions pc)" using pc_ok_inv [OF assms(1) k(1)] by simp_all
  obtain i where i: "ice_selected_pair (pc_sessions pc ! k) = Some i"
    using k(2) by (auto simp: ice_is_connected_def split: option.splits)
  then obtain r where "ice_selected_remote (pc_sessions pc ! k) i = Some r" using ice_selected_remote_ok [OF inv(1)] by blast
  with that k(1,3) inv(2) i show ?thesis by blast
qed

lemma send_datagram_ok:
  assumes "pc_ok pc" and "pc_is_secure_media_ready pc"
  shows "\<exists>st'. send_datagram sendto pc bs st = Some st'"
  by (rule ready_peer [OF assms])
    (simp add: send_datagram_def pc_ice_session_def Let_def split: option.split)

lemma packetize_send_ok:
  assumes "pc_ok pc" and "length payload + 12 \<le> 1490"
  shows "\<exists>st'. packetize_send_callback aes hmac sendto pc pt timestamp (payload, marker) st = Some st'"
proof (cases "pc_is_secure_media_ready pc")
  case False
  with assms(2) show ?thesis by (simp add: packetize_send_callback_def send_header_built Let_def)
next
  case True
  note sent = send_datagram_ok [OF assms(1) True]
  show ?thesis
  proof (cases "ms_srtp st")
    case None
    with True assms(2) sent show ?thesis by (simp add: packetize_send_callback_def send_header_built Let_def)
  next
    case (Some srtp)
    define packet where "packet = rtp_fixed_part (send_header pt (ms_sequence st) timestamp marker) @ payload
      @ replicate (1488 - length payload) 0"
    have "length packet = 1500" using assms(2) by (simp add: packet_def length_rtp_fixed_part)
    with srtp_encrypt_ok [of "12 + length payload" 1500 packet aes hmac srtp] assms(2)
    obtain buf srtp' where "srtp_encrypt_packet aes hmac srtp packet (12 + length payload) 1500
        = Some (TINYRTC_OK, buf, 12 + length payload + 10, srtp')" by auto
    with Some True assms(2) sent show ?thesis
      by (simp add: packetize_send_callback_def send_header_built Let_def packet_def [symmetric])
  qed
qed

lemma send_packets_ok:
  assumes "pc_ok pc"
  shows "\<forall>c \<in> set calls. length (fst c) + 12 \<le> 1490 \<Longrightarrow>
    \<exists>st'. send_packets aes hmac sendto pc pt timestamp calls st = Some st'"
proof (induction calls arbitrary: st)
  case (Cons c calls)
  obtain payload marker where c: "c = (payload, marker)" by (cases c)
  obtain st1 where "packetize_send_callback aes hmac sendto pc pt timestamp c st = Some st1"
    using packetize_send_ok [OF assms, of payload aes hmac sendto pt timestamp marker st] Cons.prems c by auto
  with Cons show ?case by simp
qed simp

lemma pc_update_local_track_ok:
  "pc_ok pc \<Longrightarrow> (\<And>t. track_ok t \<Longrightarrow> tk_is_local t \<Longrightarrow> track_ok (f t) \<and> tk_is_local (f t)) \<Longrightarrow>
   pc_ok (pc_update_local_track address f pc)"
  by (auto simp: pc_ok_def pc_update_local_track_def)

text \<open>A track handle the application has: NULL or one of the connection's tracks.\<close>

definition track_handle :: "'ssl peer_connection \<Rightarrow> nat option \<Rightarrow> bool" where
  "track_handle pc track \<longleftrightarrow> (\<forall>a. track = Some a \<longrightarrow> pc_find_track a pc \<noteq> None)"

lemma send_mtu: "unat (TINYRTC_SEND_MTU - TINYRTC_SRTP_AUTH_TAG_RESERVED) = 1490"
  by (simp add: TINYRTC_SEND_MTU_def TINYRTC_SRTP_AUTH_TAG_RESERVED_def)

lemma track_send_frame_ok:
  assumes ok: "pc_ok pc" and handle: "track_handle pc track"
  shows "\<exists>err pc' evs. track_send_frame aes hmac sendto alloc track frame timestamp pc = Some (err, pc', evs) \<and> pc_ok pc'"
proof (cases track)
  case None
  with ok show ?thesis by (simp add: track_send_frame_def)
next
  case (Some a)
  then obtain t where t: "pc_find_track a pc = Some t" using handle by (auto simp: track_handle_def)
  let ?params = "\<lparr>cp_codec_id = tk_codec_id t, cp_payload_type = tk_payload_type t,
                  cp_mtu = TINYRTC_SEND_MTU - TINYRTC_SRTP_AUTH_TAG_RESERVED\<rparr>"
  have sizes: "\<forall>c \<in> set (snd (tinyrtc_packetize_frame alloc d (Some ?params) True)). length (fst c) + 12 \<le> 1490" for d
    using packetize_frame_payload [of _ _ alloc d ?params True] send_mtu by fastforce
  have sent: "\<exists>st'. send_packets aes hmac sendto pc pt timestamp
      (snd (tinyrtc_packetize_frame alloc d (Some ?params) True)) st = Some st'" for d pt st
    using send_packets_ok [OF ok sizes] .
  have upd: "pc_ok (pc_update_local_track a (\<lambda>t. t\<lparr>tk_next_sequence := q, tk_frames_sent := tk_frames_sent t + 1,
      tk_bytes_sent := tk_bytes_sent t + n\<rparr>) pc)" for q n
    by (rule pc_update_local_track_ok [OF ok]) simp
  show ?thesis
  proof (cases frame)
    case (Inl n)
    obtain st where "send_packets aes hmac sendto pc (tk_payload_type t) timestamp
        (snd (tinyrtc_packetize_frame alloc None (Some ?params) True))
        \<lparr>ms_sequence = tk_next_sequence t, ms_next_sequence = tk_next_sequence t, ms_srtp = pc_srtp pc, ms_sent = []\<rparr> = Some st"
      using sent by blast
    with Inl Some t ok upd upd [where n = 0] show ?thesis by (simp add: track_send_frame_def Let_def)
  next
    case (Inr f)
    obtain st where "send_packets aes hmac sendto pc (tk_payload_type t) timestamp
        (snd (tinyrtc_packetize_frame alloc (Some f) (Some ?params) True))
        \<lparr>ms_sequence = tk_next_sequence t, ms_next_sequence = tk_next_sequence t, ms_srtp = pc_srtp pc, ms_sent = []\<rparr> = Some st"
      using sent by blast
    with Inr Some t ok upd show ?thesis by (simp add: track_send_frame_def Let_def)
  qed
qed

section \<open>Receiving\<close>

lemma depacketize_payload_defined: "\<exists>r. depacketize_payload codec payload marker max_len = Some r"
proof -
  have "depacketize_payload codec payload marker max_len \<noteq> None"
    by (cases payload; cases "tl payload") (simp_all add: depacketize_payload_def Let_def rd8_def rd_bytes_def ex_bool_eq)
  then show ?thesis by blast
qed

lemma depacketize_frame_defined: "\<exists>complete frame. tinyrtc_depacketize_frame codec packet max_len = Some (complete, frame)"
proof -
  obtain r where r: "rtp_parse_header packet = Some r" using rtp_parse_header_safe by blast
  show ?thesis
  proof (cases r)
    case (Some h)
    then obtain off where "rtp_get_payload packet h = Some (Some off)"
      using rtp_parse_header_in [of packet h] r by (auto simp: rtp_header_in_def)
    with r Some depacketize_payload_defined [of codec "drop off packet" "hdr_marker h" max_len] show ?thesis
      by (auto simp: tinyrtc_depacketize_frame_def)
  qed (simp add: tinyrtc_depacketize_frame_def r ex_bool_eq)
qed

lemma track_collect_ok:
  assumes "track_ok t"
  shows "track_ok (snd (track_collect ok timestamp frame t)) \<and>
    tk_is_local (snd (track_collect ok timestamp frame t)) = tk_is_local t"
proof -
  define t1 where "t1 = (if tk_reassembly_active t \<and> tk_reassembly_timestamp t \<noteq> timestamp \<and> tk_reassembly t \<noteq> []
    then track_reset_reassembly t else t)"
  define t2 where "t2 = (if \<not> tk_reassembly_active t1
    then t1\<lparr>tk_reassembly_timestamp := timestamp, tk_reassembly_active := True\<rparr> else t1)"
  have t2: "track_ok t2" "tk_is_local t2 = tk_is_local t"
    using assms track_reset_ok [OF assms] by (simp_all add: t2_def t1_def track_reset_reassembly_def)
  have app: "track_ok (snd (track_append_reassembly ok frame t2))" "tk_is_local (snd (track_append_reassembly ok frame t2)) = tk_is_local t"
    using track_append_ok [OF t2(1)] t2(2) by (simp_all, cases rule: track_append_cases [of ok frame t2]) simp_all
  show ?thesis
  proof (cases "frame \<noteq> [] \<and> tk_codec_id t = TINYRTC_CODEC_H264")
    case True
    obtain r t3 where r: "track_append_reassembly ok frame t2 = (r, t3)" by fastforce
    with app True show ?thesis
      by (cases r) (simp_all add: track_collect_def t1_def [symmetric] t2_def [symmetric] Let_def track_reset_ok,
          simp add: track_reset_reassembly_def)
  qed (use assms in \<open>auto simp: track_collect_def\<close>)
qed

lemma track_deliver_ok:
  "track_ok t \<Longrightarrow> track_ok (fst (track_deliver config timestamp frame t)) \<and>
   tk_is_local (fst (track_deliver config timestamp frame t)) = tk_is_local t"
  using track_reset_ok [of "t\<lparr>tk_frames_received := tk_frames_received t + 1\<rparr>"]
  by (simp add: track_deliver_def Let_def track_reset_reassembly_def)

lemma default_jitter_size: "jc_buffer_size tinyrtc_jitter_get_default_config \<noteq> 0"
  by (simp add: tinyrtc_jitter_get_default_config_def)

lemma track_receive_ok:
  assumes ok: "track_ok t0" and remote: "\<not> tk_is_local t0"
  shows "\<exists>err t evs. track_receive alloc now config header packet t0 = Some (err, t, evs) \<and> track_ok t \<and> \<not> tk_is_local t"
proof -
  obtain jb where jb: "tk_jitter_buffer t0 = Some jb" "jitter_inv tinyrtc_jitter_get_default_config jb"
    using ok remote by (auto simp: track_ok_def)
  obtain err jb' where add: "jitter_add (ra_packet alloc) packet now jb = Some (err, jb')"
    "jitter_inv tinyrtc_jitter_get_default_config jb'"
    using jitter_add_inv [OF jb(2) default_jitter_size] by blast
  define t where "t = t0\<lparr>tk_jitter_buffer := Some jb', tk_packets_received := tk_packets_received t0 + 1\<rparr>"
  have t: "track_ok t" "\<not> tk_is_local t" using ok remote add(2) by (simp_all add: t_def track_ok_def)
  obtain complete frame where d: "tinyrtc_depacketize_frame (tk_codec_id t) packet 4096 = Some (complete, frame)"
    using depacketize_frame_defined by blast
  obtain r t1 where c: "track_collect (ra_reassembly alloc) (hdr_timestamp header) frame t = (r, t1)" by fastforce
  have t1: "track_ok t1" "\<not> tk_is_local t1"
    using track_collect_ok [OF t(1), of "ra_reassembly alloc" "hdr_timestamp header" frame] t(2) c by simp_all
  obtain t2 evs where v: "track_deliver config (hdr_timestamp header) frame t1 = (t2, evs)" by fastforce
  have t2: "track_ok t2" "\<not> tk_is_local t2"
    using track_deliver_ok [OF t1(1), of config "hdr_timestamp header" frame] t1(2) v by simp_all
  have "track_receive alloc now config header packet t0 =
    (if err \<noteq> TINYRTC_OK then Some (err, t, [])
     else if \<not> r then Some (TINYRTC_ERROR_MEMORY, t1, [])
     else if complete then Some (TINYRTC_OK, t2, evs) else Some (TINYRTC_OK, t1, []))"
    using jb(1) add(1) d c v
    by (cases r) (simp_all add: track_receive_def tinyrtc_jitter_buffer_add_packet_def t_def [symmetric] Let_def)
  with t t1 t2 show ?thesis by auto
qed

lemma pc_decrypt_ok:
  assumes hmac: "\<forall>k m. length (hmac k m) = 20" and ok: "pc_ok pc"
  shows "\<exists>err p' pc'. pc_decrypt aes hmac p pc = Some (err, p', pc') \<and> pc_ok pc'"
proof (cases "pc_srtp_rx pc")
  case (Some rx)
  have "\<exists>err buf n rx'. srtp_decrypt_packet aes hmac rx p (length p) = Some (err, buf, n, rx')"
    using srtp_decrypt_cases [of hmac "length p" p aes rx] hmac
    by (cases "22 \<le> length p") (auto simp: srtp_decrypt_packet_def SRTP_AUTH_TAG_LEN_def)
  then obtain err buf n rx' where "srtp_decrypt_packet aes hmac rx p (length p) = Some (err, buf, n, rx')" by blast
  with Some ok show ?thesis by (simp add: pc_decrypt_def)
qed (use ok in \<open>simp add: pc_decrypt_def\<close>)

lemma pc_ok_remote_track:
  "pc_ok pc \<Longrightarrow> track_ok t \<Longrightarrow> \<not> tk_is_local t \<Longrightarrow> pc_ok (pc\<lparr>pc_remote_tracks := (pc_remote_tracks pc)[i := t]\<rparr>)"
  by (auto simp: pc_ok_def dest!: set_update_subset_insert [THEN subsetD])

lemma track_index_less: "track_index pt ts = Some i \<Longrightarrow> i < length ts"
  by (auto simp: track_index_def Let_def split: if_splits)

lemma pc_process_incoming_rtp_ok:
  assumes hmac: "\<forall>k m. length (hmac k m) = 20" and ok: "pc_ok pc"
  shows "\<exists>err pc' evs. pc_process_incoming_rtp aes hmac alloc now packet pc = Some (err, pc', evs) \<and> pc_ok pc'"
proof (cases packet)
  case (Some p)
  obtain err p1 pc1 where d: "pc_decrypt aes hmac p pc = Some (err, p1, pc1)" "pc_ok pc1"
    using pc_decrypt_ok [OF hmac ok] by blast
  show ?thesis
  proof (cases "err = TINYRTC_OK")
    case True
    obtain parsed where r: "rtp_parse_header p1 = Some parsed" using rtp_parse_header_safe by blast
    show ?thesis
    proof (cases parsed)
      case (Some header)
      show ?thesis
      proof (cases "track_index (uint (hdr_payload_type header)) (pc_remote_tracks pc1)")
        case None
        with \<open>packet = Some p\<close> d True r Some show ?thesis
          by (simp add: pc_process_incoming_rtp_def tinyrtc_rtp_parse_header_def)
      next
        case i: (Some i)
        have "pc_remote_tracks pc1 ! i \<in> set (pc_remote_tracks pc1)" using track_index_less [OF i] by simp
        then have "track_ok (pc_remote_tracks pc1 ! i)" "\<not> tk_is_local (pc_remote_tracks pc1 ! i)"
          using d(2) by (simp_all add: pc_ok_def)
        then obtain e t evs where t: "track_receive alloc now (pc_config pc1) header p1 (pc_remote_tracks pc1 ! i) = Some (e, t, evs)"
          "track_ok t" "\<not> tk_is_local t" using track_receive_ok by blast
        have "pc_ok (pc1\<lparr>pc_remote_tracks := (pc_remote_tracks pc1)[i := t]\<rparr>)" using d(2) t(2,3) by (rule pc_ok_remote_track)
        with \<open>packet = Some p\<close> d True r Some i t(1) show ?thesis
          by (simp add: pc_process_incoming_rtp_def tinyrtc_rtp_parse_header_def)
      qed
    qed (use \<open>packet = Some p\<close> d True r in \<open>simp add: pc_process_incoming_rtp_def tinyrtc_rtp_parse_header_def\<close>)
  qed (use Some d in \<open>simp add: pc_process_incoming_rtp_def\<close>)
qed (use ok in \<open>simp add: pc_process_incoming_rtp_def\<close>)

section \<open>The event loop\<close>

lemma dtls_start_ok:
  assumes inv: "\<forall>ice \<in> set sessions. ice_inv ice" and lib: "tls_library_ok lib" and ok: "dtls_ok sessions dtls"
    and k: "k < length sessions"
  shows "\<exists>e d out. dtls_start lib sendto sessions k dtls = Some (e, d, out) \<and> dtls_ok sessions d"
proof (cases "ice_socket (sessions ! k) < 0 \<or> ice_selected_pair (sessions ! k) = None")
  case True
  with ok k show ?thesis by (auto simp: dtls_start_def session_at_def)
next
  case False
  obtain e d where c: "dtls_configure_runtime_io lib sessions (dtls\<lparr>dt_ice := Some k\<rparr>) = Some (e, d)" "dtls_ok sessions d"
    using dtls_configure_ok [OF inv, of "dtls\<lparr>dt_ice := Some k\<rparr>" lib] ok k by auto
  obtain ret d2 out where r: "dtls_continue_handshake lib sendto sessions d = Some (ret, d2, out)" "dtls_ok sessions d2"
    using dtls_continue_ok [OF inv lib c(2)] by blast
  show ?thesis using False k c r by (auto simp: dtls_start_def session_at_def)
qed

lemma pc_handshaking_dtls: "pc_handshaking pc = Some d \<Longrightarrow> pc_dtls pc = Some d"
  by (simp add: pc_handshaking_def split: if_splits)

lemma pc_ok_parts:
  assumes "pc_ok pc"
  shows "\<forall>ice \<in> set (pc_sessions pc). ice_inv ice" and "pc_dtls pc = Some d \<Longrightarrow> dtls_ok (pc_sessions pc) d"
  using assms by (simp_all add: pc_ok_def)

lemma pc_receive_ok:
  assumes rt: "runtime_ok rt" and ok: "pc_ok pc" and k: "pc_ice pc = Some k"
    and packet: "\<And>source data. in_datagram inp = Some (source, data) \<Longrightarrow> ice_packet_ok data"
  shows "\<exists>n pc' evs. pc_receive rt inp k pc = Some (n, pc', evs) \<and> pc_ok pc' \<and> pc_ice pc' = Some k"
proof (cases "\<exists>source data. in_datagram inp = Some (source, data) \<and> data \<noteq> []")
  case True
  then obtain source data where sd: "in_datagram inp = Some (source, data)" and ne: "(data = []) = False" by auto
  obtain r ice ice_evs where i: "ice_process_packet (pc_credentials pc) (rt_stun_hmac rt) data (Some source) (pc_sessions pc ! k)
      = Some (r, ice, ice_evs)" "ice_inv ice"
    using ice_process_packet_step [OF _ packet [OF sd], of "pc_sessions pc ! k"] pc_ok_inv [OF ok k] by blast
  define pc1 where "pc1 = pc\<lparr>pc_sessions := (pc_sessions pc)[k := ice]\<rparr>"
  have ok1: "pc_ok pc1" "pc_ice pc1 = Some k" using ok i(2) k by (simp_all add: pc1_def)
  note unfold = pc_receive_def sd option.case prod.case ne if_False i(1) bind.bind_lunit Let_def pc1_def [symmetric]
  show ?thesis
  proof (cases "r = 0")
    case True
    with ok1 show ?thesis unfolding unfold by simp
  next
    case r: False
    show ?thesis
    proof (cases "pc_handshaking pc1")
      case None
      obtain e pc2 evs where p: "pc_process_incoming_rtp (rt_aes rt) (rt_srtp_hmac rt) (in_receive inp) (in_rtp_now inp) (Some data) pc1
          = Some (e, pc2, evs)" "pc_ok pc2"
        using pc_process_incoming_rtp_ok [OF runtime_okD(4) [OF rt] ok1(1)] by blast
      moreover have "pc_ice pc2 = Some k"
        using p(1) ok1(2) by (auto simp: pc_process_incoming_rtp_def pc_decrypt_def split: option.splits bind_splits if_splits)
      ultimately show ?thesis unfolding unfold using r None by simp
    next
      case (Some dtls)
      have "dtls_ok (pc_sessions pc1) dtls" using pc_ok_parts(2) [OF ok1(1) pc_handshaking_dtls [OF Some]] .
      then obtain e d out where p: "dtls_process_data (rt_tls rt) (in_sendto inp) (pc_sessions pc1) data dtls = Some (e, d, out)"
        "dtls_ok (pc_sessions pc1) d"
        using dtls_process_data_outcome [OF pc_ok_parts(1) [OF ok1(1)] runtime_okD(1) [OF rt], of dtls "in_sendto inp" data]
        by (auto simp: dtls_outcome_def split: option.splits)
      then show ?thesis unfolding unfold using r Some ok1 by simp
    qed
  qed
qed (use ok k in \<open>auto simp: pc_receive_def split: option.split\<close>)

lemma pc_notice_connected_ok:
  assumes rt: "runtime_ok rt" and ok: "pc_ok pc" and k: "pc_ice pc = Some k" and cookie: "di_cookie_setup (in_dtls inp) = 0"
  shows "\<exists>pc' evs. pc_notice_connected rt inp k pc = Some (pc', evs) \<and> pc_ok pc' \<and> pc_ice pc' = Some k"
proof (cases "pc_state pc = TINYRTC_PC_STATE_CONNECTED \<or> \<not> ice_is_connected (pc_ice_session pc)")
  case True
  with ok k show ?thesis by (auto simp: pc_notice_connected_def)
next
  case False
  define pc0 where "pc0 = pc\<lparr>pc_state := TINYRTC_PC_STATE_CONNECTED\<rparr>"
  have ok0: "pc_ok pc0" using ok by (simp add: pc0_def)
  obtain pc1 where c: "pc_create_dtls (rt_sha256 rt) (in_dtls inp) (in_seeded inp) pc0 = Some pc1" "pc_ok pc1"
    "\<exists>d. pc1 = pc0\<lparr>pc_dtls := d\<rparr>" using pc_create_dtls_ok [OF ok0 cookie] by blast
  have k1: "pc_ice pc1 = Some k" using c(3) k by (auto simp: pc0_def)
  have len: "k < length (pc_sessions pc1)" using pc_ok_inv [OF c(2) k1] by simp
  show ?thesis
  proof (cases "pc_dtls pc1")
    case None
    with c(1,2) k1 False show ?thesis unfolding pc_notice_connected_def pc0_def [symmetric] by simp
  next
    case (Some d)
    obtain e d2 out where s: "dtls_start (rt_tls rt) (in_sendto inp) (pc_sessions pc1) k d = Some (e, d2, out)"
      "dtls_ok (pc_sessions pc1) d2"
      using dtls_start_ok [OF pc_ok_parts(1) [OF c(2)] runtime_okD(1) [OF rt] pc_ok_parts(2) [OF c(2) Some] len] by blast
    with c(1,2) k1 False Some show ?thesis unfolding pc_notice_connected_def pc0_def [symmetric] by simp
  qed
qed

lemma key_material_length: "\<forall>m. length (sha256 m) = 32 \<Longrightarrow> length (dtls_key_material sha256 ms) = 60"
  by (simp add: dtls_key_material_def Let_def)

lemma pc_initialize_srtp_ok:
  assumes sha: "\<forall>m. length (sha256 m) = 32" and ok: "pc_ok pc"
  shows "\<exists>e pc'. pc_initialize_srtp_after_dtls sha256 key_ok send_ok recv_ok pc = Some (e, pc') \<and> pc_ok pc'"
proof (cases "pc_dtls pc")
  case (Some dtls)
  obtain r d where r: "dtls_derive_srtp_keys sha256 key_ok dtls = (r, d)" by fastforce
  have "dtls_ok (pc_sessions pc) d"
    using pc_ok_parts(2) [OF ok Some] r
    by (auto simp: dtls_derive_srtp_keys_def dtls_ok_def Let_def split: option.splits if_splits)
  then have ok1: "pc_ok (pc\<lparr>pc_dtls := Some d\<rparr>)" using ok by simp
  show ?thesis
  proof (cases r)
    case (Inl e)
    with Some r ok1 show ?thesis by (simp add: pc_initialize_srtp_after_dtls_def)
  next
    case (Inr keys)
    then obtain ms where "keys = dtls_split_keys (dtls_key_material sha256 ms)"
      using r by (auto simp: dtls_derive_srtp_keys_def Let_def split: option.splits if_splits)
    then have len: "length (sk_client_key keys) = 16" "length (sk_client_salt keys) = 14"
      "length (sk_server_key keys) = 16" "length (sk_server_salt keys) = 14"
      using key_material_length [OF sha, of ms] by (simp_all add: dtls_split_keys_def)
    have init: "\<exists>c. srtp_init b (Some ky) (Some sa) = Some c" if "length ky = 16" "length sa = 14" for b ky sa
      using that by (simp add: srtp_init_def rd_bytes_def)
    obtain a b c e where keyed: "srtp_init send_ok (Some (sk_client_key keys)) (Some (sk_client_salt keys)) = Some a"
      "srtp_init recv_ok (Some (sk_server_key keys)) (Some (sk_server_salt keys)) = Some b"
      "srtp_init send_ok (Some (sk_server_key keys)) (Some (sk_server_salt keys)) = Some c"
      "srtp_init recv_ok (Some (sk_client_key keys)) (Some (sk_client_salt keys)) = Some e"
      using init [OF len(1,2)] init [OF len(3,4)] by blast
    show ?thesis
      using Some r Inr ok1 keyed
      by (cases "pcc_is_initiator (pc_config pc)") (simp_all add: pc_initialize_srtp_after_dtls_def)
  qed
qed (use ok in \<open>simp add: pc_initialize_srtp_after_dtls_def\<close>)

lemma pc_drive_handshake_ok:
  assumes rt: "runtime_ok rt" and ok: "pc_ok pc"
  shows "\<exists>pc' evs. pc_drive_handshake rt inp pc = Some (pc', evs) \<and> pc_ok pc'"
proof (cases "pc_handshaking pc")
  case (Some dtls)
  obtain e d out where p: "dtls_poll_handshake (rt_tls rt) (in_sendto inp) (pc_sessions pc) dtls = Some (e, d, out)"
    "dtls_ok (pc_sessions pc) d"
    using dtls_round_outcome [OF pc_ok_parts(1) [OF ok] runtime_okD(1) [OF rt] pc_ok_parts(2) [OF ok pc_handshaking_dtls [OF Some]],
        of "in_sendto inp"]
    by (auto simp: dtls_outcome_def split: option.splits)
  have ok1: "pc_ok (pc\<lparr>pc_dtls := Some d\<rparr>)" using ok p(2) by simp
  obtain e2 pc2 where i: "pc_initialize_srtp_after_dtls (rt_sha256 rt) (in_key_ok inp) (in_send_ok inp) (in_recv_ok inp)
      (pc\<lparr>pc_dtls := Some d\<rparr>) = Some (e2, pc2)" "pc_ok pc2"
    using pc_initialize_srtp_ok [OF runtime_okD(2) [OF rt] ok1] by blast
  show ?thesis using Some p(1) ok1 i by (simp add: pc_drive_handshake_def Let_def)
qed (use ok in \<open>simp add: pc_drive_handshake_def\<close>)

text \<open>An input whose datagram is no malformed STUN message, and working cookies.\<close>

definition peer_input_ok :: "'ssl peer_input \<Rightarrow> bool" where
  "peer_input_ok inp \<longleftrightarrow>
     (case in_datagram inp of None \<Rightarrow> True | Some (source, data) \<Rightarrow> ice_packet_ok data) \<and> di_cookie_setup (in_dtls inp) = 0"

lemma pc_process_events_ok:
  assumes rt: "runtime_ok rt" and ok: "pc_ok pc" and inp: "peer_input_ok inp"
  shows "\<exists>n pc' evs. pc_process_events rt now inp pc = Some (n, pc', evs) \<and> pc_ok pc'"
proof (cases "pc_ice pc")
  case (Some k)
  show ?thesis
  proof (cases "ice_socket (pc_sessions pc ! k) < 0")
    case False
    obtain n pc1 e1 where r: "pc_receive rt inp k pc = Some (n, pc1, e1)" "pc_ok pc1" "pc_ice pc1 = Some k"
      using pc_receive_ok [OF rt ok Some, of inp] inp unfolding peer_input_ok_def by fastforce
    obtain ice e2 where c: "ice_check_connectivity (pc_credentials pc1) (rt_stun_hmac rt) now (in_clock inp) (pc_sessions pc1 ! k)
        = Some (ice, e2)" "ice_inv ice" using ice_check_connectivity_step pc_ok_inv [OF r(2,3)] by blast
    define pc2 where "pc2 = pc1\<lparr>pc_sessions := (pc_sessions pc1)[k := ice]\<rparr>"
    have ok2: "pc_ok pc2" "pc_ice pc2 = Some k" using r(2,3) c(2) by (simp_all add: pc2_def)
    obtain pc3 e3 where d: "pc_notice_connected rt inp k pc2 = Some (pc3, e3)" "pc_ok pc3"
      using pc_notice_connected_ok [OF rt ok2, of inp] inp unfolding peer_input_ok_def by blast
    obtain pc4 e4 where h: "pc_drive_handshake rt inp pc3 = Some (pc4, e4)" "pc_ok pc4"
      using pc_drive_handshake_ok [OF rt d(2)] by blast
    show ?thesis using Some False r(1) c(1) d(1) [unfolded pc2_def] h by (simp add: pc_process_events_def)
  qed (use Some ok in \<open>simp add: pc_process_events_def\<close>)
qed (use ok in \<open>simp add: pc_process_events_def\<close>)

end
