(* ===== verification/Peer_Session.thy ===== *)
theory Peer_Session
  imports Media_Safety Interfaces
begin

text \<open>
  A peer connection as a machine: the calls the application and the event loop make on it, in any
  order.  Under the invariant every admissible call is defined in C and keeps the invariant.
\<close>

section \<open>Calls\<close>

text \<open>
  A track is given by its position among the connection's local and remote tracks; a position
  behind them stands for NULL.
\<close>

datatype 'ssl pc_call =
    PC_Add_Track "nat option" "track_fields option"
  | PC_Remove_Track "nat option"
  | PC_Create_Offer "'ssl description_env" bool
  | PC_Create_Answer "'ssl description_env" bool
  | PC_Set_Remote_Description "u64 \<times> u64" "nat \<Rightarrow> track_alloc" "string option"
  | PC_Add_Ice_Candidate "candidate_fields option"
  | PC_Send_Frame "sockaddr \<Rightarrow> bytes \<Rightarrow> int" "nat \<Rightarrow> bool" nat "nat + bytes" u32
  | PC_Process_Events u64 "'ssl peer_input"
  | PC_Close

definition pc_handle :: "nat \<Rightarrow> 'ssl peer_connection \<Rightarrow> nat option" where
  "pc_handle i pc =
     (let tracks = pc_local_tracks pc @ pc_remote_tracks pc in
      if i < length tracks then Some (tk_address (tracks ! i)) else None)"

fun pc_step :: "'ssl runtime \<Rightarrow> 'ssl pc_call \<Rightarrow> 'ssl peer_connection \<Rightarrow> 'ssl peer_connection option" where
  "pc_step rt (PC_Add_Track allocated config) pc = map_option snd (tinyrtc_peer_connection_add_track allocated config pc)"
| "pc_step rt (PC_Remove_Track track) pc = Some (snd (tinyrtc_peer_connection_remove_track track pc))"
| "pc_step rt (PC_Create_Offer env out_sdp) pc =
     map_option (fst \<circ> snd \<circ> snd) (tinyrtc_peer_connection_create_offer env out_sdp pc)"
| "pc_step rt (PC_Create_Answer env out_sdp) pc =
     map_option (fst \<circ> snd \<circ> snd) (tinyrtc_peer_connection_create_answer env out_sdp pc)"
| "pc_step rt (PC_Set_Remote_Description uninit alloc sdp) pc =
     map_option (fst \<circ> snd) (tinyrtc_peer_connection_set_remote_description uninit alloc sdp pc)"
| "pc_step rt (PC_Add_Ice_Candidate candidate) pc =
     map_option snd (tinyrtc_peer_connection_add_ice_candidate candidate pc)"
| "pc_step rt (PC_Send_Frame sendto alloc_ok i frame timestamp) pc =
     map_option (fst \<circ> snd)
       (track_send_frame (rt_aes rt) (rt_srtp_hmac rt) sendto alloc_ok (pc_handle i pc) frame timestamp pc)"
| "pc_step rt (PC_Process_Events now inp) pc = map_option (fst \<circ> snd) (pc_process_events rt now inp pc)"
| "pc_step rt PC_Close pc = Some (fst (tinyrtc_peer_connection_close pc))"

text \<open>
  What the code relies on without checking: a track configuration has a \<^verbatim>\<open>mid\<close> (its integers are of
  their C types), a candidate has all its strings, there is memory for an ICE session, the cookies of
  DTLS are set up, a remote description ends in a line end, and a datagram with the STUN cookie is as
  long as its length field says.  All other calls are admissible, NULL arguments, unknown tracks,
  unparsable descriptions, failed allocations and datagrams of any other content included.
\<close>

fun pc_admissible :: "'ssl pc_call \<Rightarrow> bool" where
  "pc_admissible (PC_Add_Track allocated config) = track_fields_complete config"
| "pc_admissible (PC_Remove_Track track) = True"
| "pc_admissible (PC_Create_Offer env out_sdp) = description_env_ok env"
| "pc_admissible (PC_Create_Answer env out_sdp) = description_env_ok env"
| "pc_admissible (PC_Set_Remote_Description uninit alloc sdp) = (case sdp of None \<Rightarrow> True | Some t \<Rightarrow> text_ends t)"
| "pc_admissible (PC_Add_Ice_Candidate candidate) = candidate_complete candidate"
| "pc_admissible (PC_Send_Frame sendto alloc_ok i frame timestamp) = True"
| "pc_admissible (PC_Process_Events now inp) = peer_input_ok inp"
| "pc_admissible PC_Close = True"

section \<open>Safety\<close>

lemma pc_handle_track: "track_handle pc (pc_handle i pc)"
proof -
  let ?ts = "pc_local_tracks pc @ pc_remote_tracks pc"
  have "pc_find_track (tk_address (?ts ! i)) pc \<noteq> None" if "i < length ?ts"
    using nth_mem [OF that] unfolding pc_find_track_def find_None_iff by blast
  then show ?thesis by (auto simp: track_handle_def pc_handle_def Let_def simp del: nth_append)
qed

lemma pc_step_ok:
  assumes rt: "runtime_ok rt" and ok: "pc_ok pc" and adm: "pc_admissible call"
  shows "\<exists>pc'. pc_step rt call pc = Some pc' \<and> pc_ok pc'"
proof (cases call)
  case (PC_Add_Track a config)
  with add_track_ok [OF ok, of config a] adm show ?thesis by auto
next
  case (PC_Remove_Track track)
  with remove_track_ok [OF ok] show ?thesis by simp
next
  case (PC_Create_Offer env out_sdp)
  with create_offer_ok [OF ok, of env out_sdp] adm show ?thesis by auto
next
  case (PC_Create_Answer env out_sdp)
  with create_answer_ok [OF ok, of env out_sdp] adm show ?thesis by auto
next
  case (PC_Set_Remote_Description uninit alloc sdp)
  with set_remote_description_ok [OF ok, of sdp uninit alloc] adm show ?thesis by (cases sdp) auto
next
  case (PC_Add_Ice_Candidate candidate)
  with add_ice_candidate_ok [OF ok, of candidate] adm show ?thesis by auto
next
  case (PC_Send_Frame sendto alloc_ok i frame timestamp)
  with track_send_frame_ok [OF ok pc_handle_track, of "rt_aes rt" "rt_srtp_hmac rt" sendto alloc_ok i frame timestamp]
  show ?thesis by auto
next
  case (PC_Process_Events now inp)
  with pc_process_events_ok [OF rt ok, of inp now] adm show ?thesis by auto
next
  case PC_Close
  with ok show ?thesis by (simp add: tinyrtc_peer_connection_close_def)
qed

interpretation peer: safe_machine "pc_step rt" "\<lambda>pc. runtime_ok rt \<and> pc_ok pc" pc_admissible for rt
  by unfold_locales (use pc_step_ok in blast)

text \<open>C3: whatever the application and the event loop do with a connection, in whatever order, stays
  defined as long as each call is admissible.  A new connection with a STUN server URL that fits runs
  through every sequence of admissible calls - tracks added and removed, offers, answers, remote
  descriptions and candidates, frames sent, rounds of the event loop with received datagrams, closing -
  without an access outside an array, a NULL dereference or a loop that does not end, and afterwards
  its tracks, descriptions, ICE sessions and DTLS context are inside their arrays and refer to each
  other.  Not admissible, because the code does not check them, are: a track configuration whose \<^verbatim>\<open>mid\<close>
  is NULL, a candidate with a NULL string, a remote description that does not end in a line end, a
  datagram with the STUN cookie that is shorter than its header or than its length field says, and a call for
  which the ICE session cannot be allocated or the DTLS cookies cannot be set up.\<close>
theorem pc_session_safe:
  assumes "runtime_ok rt" and "pcc_stun_ok config" and "\<forall>call \<in> set calls. pc_admissible call"
  shows "\<exists>pc. run_machine (pc_step rt) calls (pc_new config) = Some pc \<and> pc_ok pc"
  using peer.run_safe [of rt "pc_new config" calls] assms pc_new_ok by blast

definition runtime_example :: "bool runtime" where
  "runtime_example = \<lparr>rt_tls = tls_library_example, rt_sha256 = (\<lambda>_. replicate 32 0), rt_aes = (\<lambda>_ _. replicate 16 0),
     rt_srtp_hmac = (\<lambda>_ _. replicate 20 0), rt_stun_hmac = (\<lambda>_ _. Some (replicate 20 0))\<rparr>"

definition pc_config_example :: "bool \<Rightarrow> pc_configuration" where
  "pc_config_example initiator = \<lparr>pcc_stun_server = None, pcc_is_initiator = initiator, pcc_on_ice_candidate = True,
     pcc_on_connection_state_change = True, pcc_on_track_added = True, pcc_on_audio_frame = True,
     pcc_on_video_frame = True\<rparr>"

lemma runtime_example_ok: "runtime_ok runtime_example"
  by (simp add: runtime_ok_def runtime_example_def tls_library_example_ok)

text \<open>A session with every kind of call: a track, an offer, the answer of the peer, a candidate, two rounds
  of the event loop (one with a binding request, one with bytes that are no STUN), a frame.\<close>

definition answer_text_example :: string where
  "answer_text_example = ''v=0'' @ crlf @ ''o=- 1 2 IN IP4 0.0.0.0'' @ crlf @ ''s=-'' @ crlf @ ''a=ice-ufrag:abcd'' @ crlf
     @ ''a=ice-pwd:secret'' @ crlf @ ''m=audio 9 UDP/TLS/RTP/SAVPF 0'' @ crlf @ ''a=mid:a0'' @ crlf"

definition peer_input_example :: "(sockaddr \<times> bytes) option \<Rightarrow> bool peer_input" where
  "peer_input_example datagram = \<lparr>in_datagram = datagram, in_clock = (\<lambda>_. 7), in_rtp_now = 7, in_sendto = (\<lambda>_ bs. int (length bs)),
     in_receive = \<lparr>ra_packet = True, ra_reassembly = True\<rparr>, in_dtls = dtls_env_example,
     in_seeded = True, in_key_ok = True, in_send_ok = True, in_recv_ok = True\<rparr>"

definition pc_calls_example :: "bool pc_call list" where
  "pc_calls_example =
     [PC_Add_Track (Some 1) (Some \<lparr>tf_kind = TINYRTC_TRACK_KIND_AUDIO, tf_mid = Some ''a0'', tf_codec_id = TINYRTC_CODEC_PCMU,
        tf_payload_type = 0, tf_clock_rate = 8000, tf_channels = 1\<rparr>),
      PC_Create_Offer description_env_example True,
      PC_Set_Remote_Description (0, 0) (\<lambda>i. (Some (i + 2), True, jitter_all_arrays)) (Some answer_text_example),
      PC_Add_Ice_Candidate (Some \<lparr>cf_foundation = Some ''1'', cf_priority = 1, cf_ip = Some ''10.0.0.2'', cf_port = 6000,
        cf_type = Some ''host'', cf_protocol = Some ''udp'', cf_is_ipv6 = False\<rparr>),
      PC_Process_Events 100 (peer_input_example (Some ((167772162, 6000), stun_header STUN_BINDING_REQUEST 0 (replicate 12 5)))),
      PC_Process_Events 200 (peer_input_example (Some ((167772162, 6000), [1, 2, 3]))),
      PC_Send_Frame (\<lambda>_ bs. int (length bs)) (\<lambda>_. True) 0 (Inr [1, 2, 3]) 160,
      PC_Remove_Track (Some 1), PC_Close]"

theorem pc_session_safe_witness:
  "\<exists>pc. run_machine (pc_step runtime_example) pc_calls_example (pc_new (pc_config_example True)) = Some pc \<and> pc_ok pc"
  by (rule pc_session_safe [OF runtime_example_ok])
    (simp_all add: pcc_stun_ok_def pc_config_example_def pc_calls_example_def track_fields_complete_def
      track_config_of_fields_def track_config_int_def description_env_ok_def description_env_example_def dtls_env_example_def
      text_ends_def answer_text_example_def crlf_def is_eol_def candidate_complete_def candidate_of_fields_def peer_input_ok_def
      peer_input_example_def ice_packet_ok_def stun_header_def wire_simps)

text \<open>A connection that is not usable any more: \<^verbatim>\<open>close\<close> only sets the state, and the event loop sets it
  back as soon as it sees the ICE session connected.\<close>

lemma closed_connection_reconnects:
  assumes "pc_notice_connected rt inp k (fst (tinyrtc_peer_connection_close pc)) = Some (pc', evs)"
    and "ice_is_connected (pc_ice_session pc)"
  shows "pc_state pc' = TINYRTC_PC_STATE_CONNECTED"
proof -
  have "pc_ice_session (fst (tinyrtc_peer_connection_close pc)) = pc_ice_session pc"
    by (simp add: tinyrtc_peer_connection_close_def pc_ice_session_def)
  with assms show ?thesis
    by (auto simp: pc_notice_connected_def pc_create_dtls_def tinyrtc_peer_connection_close_def
        split: bind_splits option.splits prod.splits)
qed

end
