(* ===== verification/Demo_Safety.thy ===== *)
theory Demo_Safety
  imports Demo_Receiver Peer_Session
begin

text \<open>
  The demo programs stay defined: the connection they set up satisfies the invariant of
  connections, and their callbacks, the offer, the answer and every tick of the media sender keep it.
\<close>

section \<open>The connection of a demo\<close>

text \<open>
  Whatever the allocations return, except that the array of connections is there: the setup ends
  with status 1, or with one connection that satisfies the invariant of connections.  The default
  server fits its buffer.
\<close>

lemma demo_track_config_complete: "track_fields_complete (Some (demo_track_config kind mid codec))"
  by (simp add: track_fields_complete_def track_config_of_fields_def demo_track_config_def track_config_int_def)

lemma demo_add_tracks_ok:
  assumes "pc_ok pc"
  shows "\<exists>video audio pc'. demo_add_tracks mem codec pc = Some (video, audio, pc') \<and> pc_ok pc'"
proof -
  note add = add_track_ok [OF _ demo_track_config_complete]
  obtain video pc1 where v: "tinyrtc_peer_connection_add_track (st_video_track mem)
      (Some (demo_track_config TINYRTC_TRACK_KIND_VIDEO ''v0'' TINYRTC_CODEC_H264)) pc = Some (video, pc1)" "pc_ok pc1"
    using add [OF assms] by blast
  obtain audio pc2 where "tinyrtc_peer_connection_add_track (st_audio_track mem)
      (Some (demo_track_config TINYRTC_TRACK_KIND_AUDIO ''a0'' codec)) pc1 = Some (audio, pc2)" "pc_ok pc2"
    using add [OF v(2)] by blast
  with v show ?thesis by (simp add: demo_add_tracks_def)
qed

lemma demo_setup_ok:
  assumes "parse_stun_url stun_server 128 \<noteq> None" and "st_peers mem"
  shows "\<exists>result. demo_setup mem stun_server is_initiator codec = Some result \<and>
    (\<forall>address ctx video audio. result = Some (address, ctx, video, audio) \<longrightarrow>
       (\<exists>pc. cx_peers ctx = [(address, pc)] \<and> pc_ok (pc :: 'ssl peer_connection)))"
proof -
  have "pc_ok (pc_new (demo_pc_config stun_server is_initiator) :: 'ssl peer_connection)"
    using assms(1) by (intro pc_new_ok) (simp add: pcc_stun_ok_def demo_pc_config_def)
  from demo_add_tracks_ok [OF this, of mem codec] assms(2) show ?thesis
    by (cases "st_connection mem")
      (auto simp: demo_setup_def tinyrtc_init_def tinyrtc_peer_connection_create_def split: prod.splits)
qed

lemma demo_default_server_fits: "parse_stun_url (op_stun demo_default_options) 128 \<noteq> None"
  by (simp add: demo_default_options_def parse_stun_url_def Let_def split: option.split)

section \<open>Callbacks\<close>

text \<open>
  The descriptions a signaling event carries end in a line end, as the parser needs.  Under this
  assumption the callbacks of both programs are defined and keep the invariant of the connection; the
  two programs are machines whose steps are the events of the signaling client.
\<close>

definition demo_event_ok :: "signal_event \<Rightarrow> bool" where
  "demo_event_ok event \<longleftrightarrow> (\<forall>sdp. se_data event = Signal_Sdp sdp \<longrightarrow> text_ends sdp)"

lemma demo_add_candidate_ok:
  assumes "pc_ok pc"
  shows "\<exists>pc'. demo_add_candidate event pc = Some pc' \<and> pc_ok pc'"
proof (cases "se_data event")
  case (Signal_Candidate c)
  have "candidate_complete (Some (candidate_fields_of c))"
    by (simp add: candidate_complete_def candidate_of_fields_def candidate_fields_of_def)
  from add_ice_candidate_ok [OF assms this] Signal_Candidate show ?thesis
    by (auto simp: demo_add_candidate_def)
qed (simp_all add: demo_add_candidate_def assms)

lemma demo_sender_callback_ok:
  assumes "pc_ok pc" and "demo_event_ok event"
  shows "\<exists>g' pc' evs. demo_sender_signaling_callback uninit alloc event g (Some pc) = Some (g', Some pc', evs) \<and> pc_ok pc'"
proof (cases "se_type event = TINYRTC_SIGNAL_EVENT_ANSWER")
  case True
  show ?thesis
  proof (cases "se_data event")
    case (Signal_Sdp sdp)
    with assms(2) have "\<And>t. Some sdp = Some t \<Longrightarrow> text_ends t" by (simp add: demo_event_ok_def)
    from set_remote_description_ok [OF assms(1) this] obtain err pc' evs where
      "tinyrtc_peer_connection_set_remote_description uninit alloc (Some sdp) pc = Some (err, pc', evs)" "pc_ok pc'" by blast
    with True Signal_Sdp show ?thesis by (simp add: demo_sender_signaling_callback_def)
  qed (simp_all add: demo_sender_signaling_callback_def True assms(1))
next
  case False
  with demo_add_candidate_ok [OF assms(1), of event] assms(1) show ?thesis
    by (cases "se_type event") (auto simp: demo_sender_signaling_callback_def)
qed

lemma demo_receiver_callback_ok:
  assumes "pc_ok pc" and "demo_event_ok event" and "\<forall>sdp. rv_pending_offer d = Some sdp \<longrightarrow> text_ends sdp"
  shows "\<exists>d' pc'. demo_receiver_signaling_callback malloc_ok event d (Some pc) = Some (d', Some pc') \<and> pc_ok pc' \<and>
    (\<forall>sdp. rv_pending_offer d' = Some sdp \<longrightarrow> text_ends sdp)"
proof (cases "se_type event = TINYRTC_SIGNAL_EVENT_OFFER")
  case True
  with assms show ?thesis
    by (cases "se_data event") (simp_all add: demo_receiver_signaling_callback_def demo_event_ok_def)
next
  case False
  with demo_add_candidate_ok [OF assms(1), of event] assms(1,3) show ?thesis
    by (cases "se_type event") (auto simp: demo_receiver_signaling_callback_def)
qed

fun demo_sender_step ::
  "(u64 \<times> u64) \<times> (nat \<Rightarrow> track_alloc) \<times> signal_event \<Rightarrow> demo_globals \<times> 'ssl peer_connection
     \<Rightarrow> (demo_globals \<times> 'ssl peer_connection) option" where
  "demo_sender_step (uninit, alloc, event) (g, pc) =
     (case demo_sender_signaling_callback uninit alloc event g (Some pc) of
        Some (g, Some pc, evs) \<Rightarrow> Some (g, pc)
      | _ \<Rightarrow> None)"

fun demo_receiver_step ::
  "bool \<times> signal_event \<Rightarrow> demo_receiver \<times> 'ssl peer_connection \<Rightarrow> (demo_receiver \<times> 'ssl peer_connection) option" where
  "demo_receiver_step (malloc_ok, event) (d, pc) =
     (case demo_receiver_signaling_callback malloc_ok event d (Some pc) of
        Some (d, Some pc) \<Rightarrow> Some (d, pc)
      | _ \<Rightarrow> None)"

interpretation sender_events: safe_machine demo_sender_step "\<lambda>(g, pc). pc_ok pc" "\<lambda>(uninit, alloc, event). demo_event_ok event"
proof (unfold_locales, clarify)
  fix g a b alloc event and pc :: "'a peer_connection"
  assume "pc_ok pc" "demo_event_ok event"
  from demo_sender_callback_ok [OF this, of "(a, b)" alloc g]
  show "\<exists>s'. demo_sender_step ((a, b), alloc, event) (g, pc) = Some s' \<and> (case s' of (g, pc) \<Rightarrow> pc_ok pc)" by auto
qed

text \<open>The offer that waits for the main loop is always one the parser can read.\<close>

interpretation receiver_events: safe_machine demo_receiver_step
  "\<lambda>(d, pc). pc_ok pc \<and> (\<forall>sdp. rv_pending_offer d = Some sdp \<longrightarrow> text_ends sdp)" "\<lambda>(malloc_ok, event). demo_event_ok event"
proof (unfold_locales, clarify)
  fix d :: demo_receiver and malloc_ok event and pc :: "'a peer_connection"
  assume "pc_ok pc" "demo_event_ok event" "\<forall>sdp. rv_pending_offer d = Some sdp \<longrightarrow> text_ends sdp"
  from demo_receiver_callback_ok [OF this, of malloc_ok]
  show "\<exists>s'. demo_receiver_step (malloc_ok, event) (d, pc) = Some s' \<and>
      (case s' of (d, pc) \<Rightarrow> pc_ok pc \<and> (\<forall>sdp. rv_pending_offer d = Some sdp \<longrightarrow> text_ends sdp))" by auto
qed

text \<open>The offer of the sender and the answer of the receiver, with a signaling client that can write.\<close>

lemma demo_sender_offer_ok:
  assumes "pc_ok pc" and "description_env_ok env" and "sig_ok sig" and "tx_ready SIG_MAX_SEND_BUF (io_tx io)"
  shows "\<exists>proceed g' pc' sig' io' evs. demo_sender_offer env g sig io pc = Some (proceed, g', pc', Some sig', io', evs) \<and>
    pc_ok pc' \<and> sig_ok sig'"
proof (cases "g_offer_sent g \<or> \<not> g_peer_joined g")
  case True
  with assms(1,3) show ?thesis by (auto simp: demo_sender_offer_def)
next
  case False
  obtain err sdp pc' evs where c: "tinyrtc_peer_connection_create_offer env True pc = Some (err, sdp, pc', evs)" "pc_ok pc'"
    using create_offer_ok [OF assms(1,2)] by blast
  obtain e sig' io' where "tinyrtc_signaling_send_offer (Some sig) sdp io = Some (e, Some sig', io')" "sig_ok sig'"
    using sig_send_sdp_ok [OF assms(3,4)] unfolding tinyrtc_signaling_send_offer_def by blast
  with c False assms(3) show ?thesis
    by (cases "err = TINYRTC_OK"; cases "e = TINYRTC_OK") (auto simp: demo_sender_offer_def)
qed

lemma demo_receiver_answer_ok:
  assumes "pc_ok pc" and "description_env_ok env" and "sig_ok sig" and "tx_ready SIG_MAX_SEND_BUF (io_tx io)"
    and "\<forall>sdp. rv_pending_offer d = Some sdp \<longrightarrow> text_ends sdp"
  shows "\<exists>proceed d' pc' sig' io' evs. demo_receiver_answer uninit alloc env sig io d pc = Some (proceed, d', pc', Some sig', io', evs) \<and>
    pc_ok pc' \<and> sig_ok sig'"
proof (cases "rv_got_offer d \<and> rv_pending_offer d \<noteq> None")
  case False
  with assms(1,3) show ?thesis by (auto simp: demo_receiver_answer_def split: option.split bool.split)
next
  case True
  then obtain offer where o: "rv_got_offer d" "rv_pending_offer d = Some offer" by auto
  with assms(5) have "\<And>t. Some offer = Some t \<Longrightarrow> text_ends t" by simp
  from set_remote_description_ok [OF assms(1) this] obtain err2 pc2 evs2 where
    r: "tinyrtc_peer_connection_set_remote_description uninit alloc (Some offer) pc = Some (err2, pc2, evs2)" "pc_ok pc2" by blast
  obtain err3 sdp pc3 evs3 where a: "tinyrtc_peer_connection_create_answer env True pc2 = Some (err3, sdp, pc3, evs3)" "pc_ok pc3"
    using create_answer_ok [OF r(2) assms(2)] by blast
  obtain e sig' io' where "tinyrtc_signaling_send_answer (Some sig) sdp io = Some (e, Some sig', io')" "sig_ok sig'"
    using sig_send_sdp_ok [OF assms(3,4)] unfolding tinyrtc_signaling_send_answer_def by blast
  with o r a assms(3) show ?thesis
    by (cases "err2 = TINYRTC_OK"; cases "err3 = TINYRTC_OK") (auto simp: demo_receiver_answer_def)
qed

section \<open>Ticks\<close>

text \<open>
  \<open>demo_ticks n\<close> repeats the tick \<open>n\<close> times.  It is not the main loop: that also polls the connection and
  the signaling client, and it tests \<^verbatim>\<open>g_should_exit\<close> before each round (\<^verbatim>\<open>demo_sender.c:478\<close>), which
  \<open>demo_ticks\<close> does not consult.  \<open>demo_ticks_exit\<close> says when this makes no difference: without a limit
  of frames, or below it, no tick sets the flag.
\<close>

fun demo_ticks ::
  "cipher \<Rightarrow> cipher \<Rightarrow> (sockaddr \<Rightarrow> bytes \<Rightarrow> int) \<Rightarrow> (nat \<Rightarrow> bool) \<Rightarrow> nat \<Rightarrow> demo_globals \<Rightarrow> demo_media_sender
     \<Rightarrow> 'ssl peer_connection \<Rightarrow> (demo_globals \<times> demo_media_sender \<times> 'ssl peer_connection \<times> pc_event list) option" where
  "demo_ticks aes hmac sendto alloc_ok 0 g sender pc = Some (g, sender, pc, [])"
| "demo_ticks aes hmac sendto alloc_ok (Suc n) g sender pc = do {
     (g, sender, pc, evs) \<leftarrow> demo_media_sender_tick aes hmac sendto alloc_ok g sender pc;
     (g, sender, pc, more_evs) \<leftarrow> demo_ticks aes hmac sendto alloc_ok n g sender pc;
     Some (g, sender, pc, evs @ more_evs)
   }"

lemma demo_tick_exit:
  assumes "demo_media_sender_tick aes hmac sendto alloc_ok g sender pc = Some (g', sender', pc', evs)"
  shows "g_max_video_frames g' = g_max_video_frames g \<and> sn_frame_count sender' \<le> sn_frame_count sender + 1 \<and>
    (g_should_exit g' \<longrightarrow> g_should_exit g \<or>
       g_max_video_frames g > 0 \<and> g_max_video_frames g \<le> sn_frame_count sender + 1)"
  using assms
  by (auto simp: demo_media_sender_tick_def demo_tick_video_def demo_tick_audio_def Let_def
      split: if_splits bind_splits option.splits prod.splits)

lemma demo_ticks_exit:
  assumes "demo_ticks aes hmac sendto alloc_ok n g sender pc = Some (g', sender', pc', evs)" and "\<not> g_should_exit g"
    and "g_max_video_frames g \<le> 0 \<or> sn_frame_count sender + int n < g_max_video_frames g"
  shows "\<not> g_should_exit g'"
  using assms
proof (induction n arbitrary: g sender pc evs)
  case (Suc n)
  obtain g1 s1 pc1 evs1 evs2 where t: "demo_media_sender_tick aes hmac sendto alloc_ok g sender pc = Some (g1, s1, pc1, evs1)"
    and r: "demo_ticks aes hmac sendto alloc_ok n g1 s1 pc1 = Some (g', sender', pc', evs2)"
    using Suc.prems(1) by (auto split: bind_splits)
  show ?case
    by (rule Suc.IH [OF r]) (use demo_tick_exit [OF t] Suc.prems(2,3) in auto)
qed simp

text \<open>
  The sender stays defined: valid tracks stay valid, the index stays inside the units, and the counter
  of frames fits its type for as many ticks as it has room for.
\<close>

definition demo_sender_ok :: "demo_globals \<Rightarrow> demo_media_sender \<Rightarrow> 'ssl peer_connection \<Rightarrow> bool" where
  "demo_sender_ok g sender pc \<longleftrightarrow>
     pc_ok pc \<and> track_handle pc (g_video_track g) \<and> track_handle pc (g_audio_track g) \<and>
     (ds_units (sn_stream sender) \<noteq> [] \<longrightarrow> ds_current_index (sn_stream sender) < length (ds_units (sn_stream sender)))"

lemma pc_update_handle:
  fixes pc :: "'a peer_connection"
  assumes "\<forall>t. tk_address (f t) = tk_address t"
  shows "track_handle (pc_update_local_track a f pc) h = track_handle pc h"
proof -
  have "track_handle q h = (\<forall>b. h = Some b \<longrightarrow> b \<in> tk_address ` set (pc_local_tracks q @ pc_remote_tracks q))" for q :: "'a peer_connection"
    by (auto simp: track_handle_def pc_find_track_def find_None_iff)
  moreover have "tk_address ` set (map (\<lambda>t. if tk_address t = a then f t else t) ts) = tk_address ` set ts" for ts
    unfolding set_map image_image by (rule image_cong) (simp_all add: assms)
  ultimately show ?thesis by (simp add: pc_update_local_track_def image_Un del: set_map)
qed

lemma track_send_handle:
  assumes "track_send_frame aes hmac sendto alloc_ok track frame timestamp pc = Some (err, pc', evs)"
  shows "track_handle pc' h = track_handle pc h"
proof -
  have srtp: "track_handle (pc\<lparr>pc_srtp := x\<rparr>) h = track_handle pc h" for pc :: "'a peer_connection" and x
    by (simp add: track_handle_def pc_find_track_def)
  show ?thesis
    using assms by (auto simp: track_send_frame_def Let_def srtp pc_update_handle split: option.splits if_splits bind_splits sum.splits)
qed

lemma demo_tick_video_ok:
  assumes "demo_sender_ok g sender pc" and "sn_frame_count sender < 2 ^ 31 - 1"
  shows "\<exists>proceed g' sender' pc' evs. demo_tick_video aes hmac sendto alloc_ok g sender pc = Some (proceed, g', sender', pc', evs) \<and>
    demo_sender_ok g' sender' pc' \<and> sn_frame_count sender' \<le> sn_frame_count sender + 1"
proof (cases "ds_units (sn_stream sender) = [] \<or> g_video_track g = None")
  case True
  with assms(1) show ?thesis by (auto simp: demo_tick_video_def Let_def)
next
  case False
  have ok: "pc_ok pc" "track_handle pc (g_video_track g)" "ds_current_index (sn_stream sender) < length (ds_units (sn_stream sender))"
    using assms(1) False by (simp_all add: demo_sender_ok_def)
  let ?frame = "Inr (ds_units (sn_stream sender) ! ds_current_index (sn_stream sender)) :: nat + bytes"
  obtain err pc' evs where s: "track_send_frame aes hmac sendto alloc_ok (g_video_track g) ?frame (sn_video_timestamp sender) pc
      = Some (err, pc', evs)" "pc_ok pc'"
    using track_send_frame_ok [OF ok(1,2)] by blast
  note h = track_send_handle [OF s(1)]
  have ok': "track_handle pc' (g_video_track g)" "track_handle pc' (g_audio_track g)"
    using assms(1) by (simp_all add: h demo_sender_ok_def)
  show ?thesis
  proof (cases "err = TINYRTC_OK")
    case True
    have "\<not> 2 ^ 31 - 1 \<le> sn_frame_count sender" using assms(2) by simp
    with True False ok(3) s ok' show ?thesis
      by (simp only: demo_tick_video_def Let_def tinyrtc_track_send_video_frame_def not_le [symmetric] if_False bind.bind_lunit prod.case not_True_eq_False)
        (auto simp: demo_sender_ok_def)
  next
    case err: False
    with False ok(3) s assms(1) ok' show ?thesis
      by (auto simp: demo_tick_video_def Let_def tinyrtc_track_send_video_frame_def demo_sender_ok_def)
  qed
qed

lemma demo_tick_audio_ok:
  assumes "demo_sender_ok g sender pc"
  shows "\<exists>sender' pc' evs. demo_tick_audio aes hmac sendto alloc_ok g sender pc = Some (sender', pc', evs) \<and>
    demo_sender_ok g sender' pc' \<and> sn_frame_count sender' = sn_frame_count sender"
proof (cases "sn_audio_file sender = None \<or> g_audio_track g = None")
  case True
  with assms show ?thesis by (auto simp: demo_tick_audio_def split: option.split)
next
  case False
  then obtain data pos h where f: "sn_audio_file sender = Some (data, pos)" "g_audio_track g = Some h" by auto
  have ok: "pc_ok pc" "track_handle pc (Some h)" using assms f(2) by (simp_all add: demo_sender_ok_def)
  let ?frame = "Inr (take (sn_audio_frame_size sender) (drop pos data)) :: nat + bytes"
  obtain err pc' evs where s: "track_send_frame aes hmac sendto alloc_ok (Some h) ?frame (sn_audio_timestamp sender) pc
      = Some (err, pc', evs)" "pc_ok pc'"
    using track_send_frame_ok [OF ok] by blast
  note h = track_send_handle [OF s(1)]
  show ?thesis
    using assms f s h
    by (cases "err = TINYRTC_OK")
      (auto simp: demo_tick_audio_def Let_def tinyrtc_track_send_audio_frame_def demo_sender_ok_def)
qed

lemma demo_tick_ok:
  assumes "demo_sender_ok g sender pc" and "sn_frame_count sender < 2 ^ 31 - 1"
  shows "\<exists>g' sender' pc' evs. demo_media_sender_tick aes hmac sendto alloc_ok g sender pc = Some (g', sender', pc', evs) \<and>
    demo_sender_ok g' sender' pc' \<and> sn_frame_count sender' \<le> sn_frame_count sender + 1"
proof -
  obtain proceed g1 s1 pc1 evs1 where v: "demo_tick_video aes hmac sendto alloc_ok g sender pc = Some (proceed, g1, s1, pc1, evs1)"
    "demo_sender_ok g1 s1 pc1" "sn_frame_count s1 \<le> sn_frame_count sender + 1"
    using demo_tick_video_ok [OF assms] by blast
  obtain s2 pc2 evs2 where "demo_tick_audio aes hmac sendto alloc_ok g1 s1 pc1 = Some (s2, pc2, evs2)"
    "demo_sender_ok g1 s2 pc2" "sn_frame_count s2 = sn_frame_count s1"
    using demo_tick_audio_ok [OF v(2)] by blast
  with v assms show ?thesis by (cases proceed) (simp_all add: demo_media_sender_tick_def)
qed

lemma demo_ticks_ok:
  assumes "demo_sender_ok g sender pc" and "sn_frame_count sender + int n < 2 ^ 31"
  shows "\<exists>g' sender' pc' evs. demo_ticks aes hmac sendto alloc_ok n g sender pc = Some (g', sender', pc', evs) \<and>
    demo_sender_ok g' sender' pc'"
  using assms
proof (induction n arbitrary: g sender pc)
  case (Suc n)
  have "sn_frame_count sender < 2 ^ 31 - 1" using Suc.prems(2) by simp
  from demo_tick_ok [OF Suc.prems(1) this] obtain g1 s1 pc1 evs1 where
    t: "demo_media_sender_tick aes hmac sendto alloc_ok g sender pc = Some (g1, s1, pc1, evs1)"
    "demo_sender_ok g1 s1 pc1" "sn_frame_count s1 \<le> sn_frame_count sender + 1" by blast
  have "sn_frame_count s1 + int n < 2 ^ 31" using t(3) Suc.prems(2) by simp
  from Suc.IH [OF t(2) this] obtain g2 s2 pc2 evs2 where
    "demo_ticks aes hmac sendto alloc_ok n g1 s1 pc1 = Some (g2, s2, pc2, evs2)" "demo_sender_ok g2 s2 pc2" by blast
  with t(1) show ?case by simp
qed simp

end
