(* ===== verification/Media_Roundtrip.thy ===== *)
theory Media_Roundtrip
  imports Peer_Session
begin

text \<open>
  A frame from one peer to the other: the keys both sides derive from the DTLS master secret, the
  datagrams \<^verbatim>\<open>tinyrtc_track_send_video_frame\<close> sends, and the frame that \<^verbatim>\<open>pc_process_incoming_rtp\<close>
  reports on the other side.
\<close>

section \<open>Datagrams\<close>

text \<open>An RTP packet as it is sent: protected, and its tag behind it.\<close>

definition srtp_datagram :: "cipher \<Rightarrow> cipher \<Rightarrow> srtp_context \<Rightarrow> bytes \<Rightarrow> bytes" where
  "srtp_datagram aes hmac srtp packet =
     srtp_protected aes srtp packet (length packet)
       @ srtp_generate_auth hmac srtp (srtp_protected aes srtp packet (length packet))"

definition media_packet :: "int \<Rightarrow> u16 \<Rightarrow> u32 \<Rightarrow> bytes \<Rightarrow> bool \<Rightarrow> bytes" where
  "media_packet pt sequence timestamp payload marker =
     rtp_fixed_part (send_header pt sequence timestamp marker) @ payload"

fun media_datagrams :: "cipher \<Rightarrow> cipher \<Rightarrow> srtp_context \<Rightarrow> int \<Rightarrow> u32 \<Rightarrow> u16 \<Rightarrow> packet_calls \<Rightarrow> bytes list" where
  "media_datagrams aes hmac srtp pt timestamp sequence [] = []"
| "media_datagrams aes hmac srtp pt timestamp sequence ((payload, marker) # calls) =
     srtp_datagram aes hmac srtp (media_packet pt sequence timestamp payload marker)
       # media_datagrams aes hmac srtp pt timestamp (sequence + 1) calls"

text \<open>The same keys; the packet counter \<^verbatim>\<open>roc\<close> is not used by the cipher.\<close>

definition same_keys :: "srtp_context \<Rightarrow> srtp_context \<Rightarrow> bool" where
  "same_keys a b \<longleftrightarrow> srtp_key a = srtp_key b \<and> srtp_salt a = srtp_salt b"

lemma same_keys_roc [simp]:
  "same_keys (a\<lparr>srtp_roc := r\<rparr>) b = same_keys a b" "same_keys a (b\<lparr>srtp_roc := r\<rparr>) = same_keys a b" "same_keys a a"
  by (simp_all add: same_keys_def)

lemma srtp_datagram_context:
  assumes "same_keys a b"
  shows "srtp_datagram aes hmac a packet = srtp_datagram aes hmac b packet"
proof -
  have k: "srtp_key a = srtp_key b" "srtp_salt a = srtp_salt b" using assms by (simp_all add: same_keys_def)
  have "srtp_protected aes a packet n = srtp_protected aes b packet n" for n
    unfolding srtp_protected_def srtp_crypt_payload_context [OF k] ..
  then show ?thesis by (simp add: srtp_datagram_def srtp_generate_auth_context [OF k(1)])
qed

lemma length_media_packet [simp]: "length (media_packet pt q ts p m) = 12 + length p"
  by (simp add: media_packet_def length_rtp_fixed_part)

lemma length_srtp_datagram:
  assumes "\<forall>k b. length (aes k b) = 16" and "\<forall>k m. length (hmac k m) = 20" and "12 \<le> length packet"
  shows "length (srtp_datagram aes hmac srtp packet) = length packet + 10"
  using length_srtp_protected [of aes "length packet" packet srtp] length_srtp_generate_auth [of hmac srtp] assms
  by (simp add: srtp_datagram_def)

text \<open>The bytes behind the packet in the send buffer do not matter.\<close>

lemma srtp_protected_padding:
  assumes "12 \<le> length packet"
  shows "srtp_protected aes srtp (packet @ pad) (length packet) = srtp_protected aes srtp packet (length packet)"
proof -
  have "rd32 (packet @ pad) 8 = rd32 packet 8" using assms by (simp add: rd32_Some nth_append)
  then show ?thesis using assms by (simp add: srtp_protected_def)
qed

section \<open>Sending\<close>

text \<open>A connection that can send, and the address of its peer.\<close>

definition pc_sends_to :: "'ssl peer_connection \<Rightarrow> sockaddr \<Rightarrow> bool" where
  "pc_sends_to pc addr \<longleftrightarrow> pc_is_secure_media_ready pc \<and>
     (case pc_ice_session pc of
        None \<Rightarrow> False
      | Some ice \<Rightarrow>
          (case ice_selected_pair ice of
             None \<Rightarrow> False
           | Some i \<Rightarrow>
               (case ice_selected_remote ice i of
                  None \<Rightarrow> False
                | Some remote \<Rightarrow> inet_pton (ica_ip remote) = Some (fst addr) \<and> ica_port remote = snd addr)))"

lemma send_datagram_to:
  assumes "pc_sends_to pc addr" and "\<forall>a bs. 0 \<le> sendto a bs"
  shows "send_datagram sendto pc datagram st =
    Some (st\<lparr>ms_next_sequence := ms_sequence st, ms_sent := ms_sent st @ [(addr, datagram)]\<rparr>)"
proof -
  have "\<not> sendto addr datagram < 0" using assms(2) by (cases addr) (simp add: not_less)
  with assms(1) show ?thesis
    by (cases addr) (auto simp: pc_sends_to_def send_datagram_def Let_def split: option.splits)
qed

lemma send_callback_datagram:
  assumes to: "pc_sends_to pc addr" "\<forall>a bs. 0 \<le> sendto a bs"
    and srtp: "ms_srtp st = Some srtp" and len: "length payload + 12 \<le> 1490"
    and lib: "\<forall>k b. length (aes k b) = 16" "\<forall>k m. length (hmac k m) = 20"
  shows "packetize_send_callback aes hmac sendto pc pt timestamp (payload, marker) st =
    Some (st\<lparr>ms_sequence := ms_sequence st + 1, ms_srtp := Some (srtp\<lparr>srtp_roc := srtp_roc srtp + 1\<rparr>),
      ms_next_sequence := ms_sequence st + 1,
      ms_sent := ms_sent st @ [(addr, srtp_datagram aes hmac srtp
        (media_packet pt (ms_sequence st) timestamp payload marker))]\<rparr>)"
proof -
  define packet where "packet = media_packet pt (ms_sequence st) timestamp payload marker"
  define pad where "pad = replicate (1500 - length packet) (0 :: u8)"
  have l: "length packet = 12 + length payload" "length (packet @ pad) = 1500" using len by (simp_all add: packet_def pad_def)
  have buffer: "rtp_fixed_part (send_header pt (ms_sequence st) timestamp marker) @ payload @ replicate (1488 - length payload) 0
      = packet @ pad"
    by (simp add: packet_def pad_def) (simp add: media_packet_def)
  have enc: "srtp_encrypt_packet aes hmac srtp (packet @ pad) (12 + length payload) 1500 =
    Some (TINYRTC_OK, srtp_datagram aes hmac srtp packet @ drop (12 + length payload + 10) (packet @ pad),
      12 + length payload + 10, srtp\<lparr>srtp_roc := srtp_roc srtp + 1\<rparr>)"
    using srtp_encrypt_ok [of "12 + length payload" 1500 "packet @ pad" aes hmac srtp] len l
      srtp_protected_padding [of packet aes srtp pad]
    by (simp add: srtp_datagram_def)
  have "length (srtp_datagram aes hmac srtp packet) = 12 + length payload + 10"
    using length_srtp_datagram [OF lib, of packet] l(1) by simp
  then have t: "take (12 + length payload + 10) (srtp_datagram aes hmac srtp packet @ ys) = srtp_datagram aes hmac srtp packet" for ys
    by simp
  have ready: "pc_is_secure_media_ready pc" using to(1) by (simp add: pc_sends_to_def)
  show ?thesis
    using len enc t ready srtp
    by (simp add: packetize_send_callback_def send_header_built Let_def buffer send_datagram_to [OF to] packet_def)
qed

lemma send_packets_datagrams:
  assumes to: "pc_sends_to pc addr" "\<forall>a bs. 0 \<le> sendto a bs"
    and lib: "\<forall>k b. length (aes k b) = 16" "\<forall>k m. length (hmac k m) = 20"
  shows "ms_srtp st = Some srtp \<Longrightarrow> same_keys srtp tx \<Longrightarrow> \<forall>c \<in> set calls. length (fst c) + 12 \<le> 1490 \<Longrightarrow>
    \<exists>st'. send_packets aes hmac sendto pc pt timestamp calls st = Some st' \<and>
      ms_sent st' = ms_sent st @ map (Pair addr) (media_datagrams aes hmac tx pt timestamp (ms_sequence st) calls) \<and>
      (\<exists>srtp'. ms_srtp st' = Some srtp' \<and> same_keys srtp' tx)"
proof (induction calls arbitrary: st srtp)
  case (Cons c calls)
  obtain payload marker where c: "c = (payload, marker)" by (cases c)
  define st1 where "st1 = st\<lparr>ms_sequence := ms_sequence st + 1, ms_srtp := Some (srtp\<lparr>srtp_roc := srtp_roc srtp + 1\<rparr>),
      ms_next_sequence := ms_sequence st + 1,
      ms_sent := ms_sent st @ [(addr, srtp_datagram aes hmac srtp (media_packet pt (ms_sequence st) timestamp payload marker))]\<rparr>"
  have step: "packetize_send_callback aes hmac sendto pc pt timestamp c st = Some st1"
    unfolding c st1_def using Cons.prems by (intro send_callback_datagram [OF to _ _ lib]) (simp_all add: c)
  have "ms_srtp st1 = Some (srtp\<lparr>srtp_roc := srtp_roc srtp + 1\<rparr>)" by (simp add: st1_def)
  from Cons.IH [OF this] Cons.prems obtain st' where "send_packets aes hmac sendto pc pt timestamp calls st1 = Some st'"
    "ms_sent st' = ms_sent st1 @ map (Pair addr) (media_datagrams aes hmac tx pt timestamp (ms_sequence st1) calls)"
    "\<exists>srtp'. ms_srtp st' = Some srtp' \<and> same_keys srtp' tx"
    by auto
  then show ?case using step srtp_datagram_context [OF Cons.prems(2)] by (simp add: c st1_def)
qed simp

section \<open>Receiving\<close>

text \<open>Received datagrams one after the other, with the events they cause.\<close>

fun receive_datagrams ::
  "cipher \<Rightarrow> cipher \<Rightarrow> (nat \<Rightarrow> u64) \<Rightarrow> nat \<Rightarrow> bytes list \<Rightarrow> 'ssl peer_connection
     \<Rightarrow> ('ssl peer_connection \<times> pc_event list) option" where
  "receive_datagrams aes hmac now i [] pc = Some (pc, [])"
| "receive_datagrams aes hmac now i (d # ds) pc = do {
     (_, pc, evs) \<leftarrow> pc_process_incoming_rtp aes hmac \<lparr>ra_packet = True, ra_reassembly = True\<rparr> (now i) (Some d) pc;
     (pc, other_evs) \<leftarrow> receive_datagrams aes hmac now (Suc i) ds pc;
     Some (pc, evs @ other_evs)
   }"

lemma srtp_datagram_decrypted:
  assumes lib: "\<forall>k b. length (aes k b) = 16" "\<forall>k m. length (hmac k m) = 20"
    and rx: "pc_srtp_rx pc = Some rx" "same_keys rx tx" and len: "12 \<le> length packet"
  shows "pc_decrypt aes hmac (srtp_datagram aes hmac tx packet) pc =
    Some (TINYRTC_OK, packet, pc\<lparr>pc_srtp_rx := Some (rx\<lparr>srtp_roc := srtp_roc rx + 1\<rparr>)\<rparr>)"
proof -
  define n where "n = length packet"
  define body where "body = srtp_protected aes tx packet n"
  define d where "d = srtp_datagram aes hmac tx packet"
  have k: "srtp_key rx = srtp_key tx" "srtp_salt rx = srtp_salt tx" using rx(2) by (simp_all add: same_keys_def)
  have body: "length body = n" using lib(1) len by (simp add: body_def n_def length_srtp_protected)
  have d: "d = body @ srtp_generate_auth hmac tx body" "length d = n + 10"
    using length_srtp_datagram [OF lib len] by (simp_all add: d_def srtp_datagram_def body_def n_def)
  have "take 10 (drop (length d - 10) d) = srtp_generate_auth hmac rx (take (length d - 10) d)"
    using d body by (simp add: srtp_generate_auth_context [OF k(1)])
  then have dec: "srtp_decrypt_packet aes hmac rx d (length d) =
      Some (TINYRTC_OK, srtp_protected aes rx d n @ drop n d, Some n, rx\<lparr>srtp_roc := srtp_roc rx + 1\<rparr>)"
    using srtp_decrypt_cases [of hmac "length d" d aes rx] lib(2) len d(2)
      length_srtp_generate_auth [of hmac rx] by (simp add: n_def)
  have r: "rd32 d 8 = rd32 packet 8" and h: "take 12 d = take 12 packet"
    using rd32_take12 [OF len] len by (simp_all add: d(1) body_def srtp_protected_def)
  have "take (n - 12) (drop 12 d) = srtp_crypt_payload aes tx (the (rd32 packet 8)) (drop 12 packet)"
    using len lib(1) by (simp add: d(1) body_def srtp_protected_def n_def length_srtp_crypt_payload)
  then have "srtp_protected aes rx d n = packet"
    using lib(1) unfolding srtp_protected_def [of aes rx] r h
    by (simp add: srtp_crypt_payload_context [OF k] srtp_crypt_payload_twice)
  with dec rx(1) show ?thesis by (simp add: pc_decrypt_def d_def [symmetric] n_def)
qed

text \<open>The parsed header of a media packet and its payload.\<close>

lemma send_header_wf:
  assumes "0 \<le> pt" and "pt < 128"
  shows "rtp_header_wf (send_header pt q ts m)" and "uint (hdr_payload_type (send_header pt q ts m)) = pt"
proof -
  have u: "uint (word_of_int pt :: u8) = pt" using assms by (simp add: uint_word_of_int)
  then have "unat (word_of_int pt :: u8) < 128" using assms(2) by (simp add: unat_eq_nat_uint)
  with u show "rtp_header_wf (send_header pt q ts m)" and "uint (hdr_payload_type (send_header pt q ts m)) = pt"
    by (simp_all add: rtp_header_wf_def send_header_def)
qed

lemma media_packet_parsed:
  assumes "0 \<le> pt" and "pt < 128"
  shows "rtp_parse_header (media_packet pt q ts p m) = Some (Some (send_header pt q ts m))"
    and "tinyrtc_depacketize_frame codec (media_packet pt q ts p m) max_len = depacketize_payload codec p m max_len"
proof -
  note wf = send_header_wf(1) [OF assms, of q ts m]
  have c: "hdr_csrc (send_header pt q ts m) = []" "hdr_marker (send_header pt q ts m) = m" by (simp_all add: send_header_def)
  show p: "rtp_parse_header (media_packet pt q ts p m) = Some (Some (send_header pt q ts m))"
    using rtp_parse_built [OF wf, of p] by (simp add: media_packet_def c)
  have "rtp_get_payload (media_packet pt q ts p m) (send_header pt q ts m) = Some (Some 12)"
    using rtp_payload_built(2) [OF wf, of p] by (simp add: media_packet_def c length_rtp_fixed_part)
  with p show "tinyrtc_depacketize_frame codec (media_packet pt q ts p m) max_len = depacketize_payload codec p m max_len"
    by (simp add: tinyrtc_depacketize_frame_def c media_packet_def length_rtp_fixed_part)
qed

text \<open>
  What a track has collected of the frame with a timestamp.  Bytes of an earlier frame that lost its
  last packet may still be there, with another timestamp.
\<close>

definition collected :: "track \<Rightarrow> u32 \<Rightarrow> bytes \<Rightarrow> bool" where
  "collected t timestamp bs \<longleftrightarrow>
     (if tk_reassembly_active t then
        (if tk_reassembly_timestamp t = timestamp then tk_reassembly t = bs else tk_reassembly t \<noteq> [] \<and> bs = [])
      else tk_reassembly t = [] \<and> bs = [])"

text \<open>Nothing of an unfinished frame is there.\<close>

definition track_idle :: "track \<Rightarrow> bool" where
  "track_idle t \<longleftrightarrow> \<not> tk_reassembly_active t \<and> tk_reassembly t = []"

lemma track_idle_collected: "track_idle t \<Longrightarrow> collected t timestamp []"
  by (simp add: track_idle_def collected_def)

lemma track_collect_collected:
  assumes "collected t timestamp bs" and "tk_codec_id t = TINYRTC_CODEC_H264"
  obtains t' where "track_collect True timestamp frame t = (True, t')" "collected t' timestamp (bs @ frame)"
    "tk_codec_id t' = tk_codec_id t" "tk_payload_type t' = tk_payload_type t" "tk_jitter_buffer t' = tk_jitter_buffer t"
    "tk_address t' = tk_address t" "tk_kind t' = tk_kind t"
proof (cases "frame = []")
  case True
  with assms that [of t] show ?thesis by (simp add: track_collect_def)
next
  case False
  define t1 where "t1 = (if tk_reassembly_active t \<and> tk_reassembly_timestamp t \<noteq> timestamp \<and> tk_reassembly t \<noteq> []
    then track_reset_reassembly t else t)"
  define t2 where "t2 = (if \<not> tk_reassembly_active t1
    then t1\<lparr>tk_reassembly_timestamp := timestamp, tk_reassembly_active := True\<rparr> else t1)"
  have t2: "tk_reassembly_active t2" "tk_reassembly_timestamp t2 = timestamp" "tk_reassembly t2 = bs"
    "tk_codec_id t2 = tk_codec_id t" "tk_payload_type t2 = tk_payload_type t" "tk_jitter_buffer t2 = tk_jitter_buffer t"
    "tk_address t2 = tk_address t" "tk_kind t2 = tk_kind t"
    using assms(1) by (auto simp: t2_def t1_def collected_def track_reset_reassembly_def split: if_splits)
  obtain c where "track_append_reassembly True frame t2
      = (True, t2\<lparr>tk_reassembly_capacity := c, tk_reassembly := bs @ frame\<rparr>)"
    using track_append_cases [of True frame t2] False t2(3) by metis
  with that t2 False assms(2) show ?thesis
    by (simp add: track_collect_def t1_def [symmetric] t2_def [symmetric] Let_def collected_def)
qed

text \<open>The callback that reports a frame.\<close>

definition media_event :: "track \<Rightarrow> bytes \<Rightarrow> u32 \<Rightarrow> pc_event" where
  "media_event t frame timestamp =
     (if tk_kind t = TINYRTC_TRACK_KIND_AUDIO then On_Audio_Frame (tk_address t) frame timestamp
      else On_Video_Frame (tk_address t) frame timestamp)"

text \<open>A remote track that can receive: its jitter buffer is there.\<close>

definition track_receives :: "track \<Rightarrow> bool" where
  "track_receives t \<longleftrightarrow> (\<exists>jb. tk_jitter_buffer t = Some jb \<and> jitter_inv tinyrtc_jitter_get_default_config jb)"

lemma jitter_takes_media_packet:
  assumes "jitter_inv tinyrtc_jitter_get_default_config jb" and "0 \<le> pt" "pt < 128"
  shows "\<exists>jb'. tinyrtc_jitter_buffer_add_packet True (Some jb) (Some (media_packet pt q ts p m)) now = Some (TINYRTC_OK, Some jb') \<and>
    jitter_inv tinyrtc_jitter_get_default_config jb'"
proof -
  have c: "jc_buffer_size tinyrtc_jitter_get_default_config \<noteq> 0" by (simp add: tinyrtc_jitter_get_default_config_def)
  obtain e jb' where a: "jitter_add True (media_packet pt q ts p m) now jb = Some (e, jb')" "jitter_inv tinyrtc_jitter_get_default_config jb'"
    using jitter_add_inv [OF assms(1) c] by blast
  moreover have "e = TINYRTC_OK"
    using a(1) media_packet_parsed(1) [OF assms(2,3)]
    by (auto simp: jitter_add_def Let_def split: bind_splits if_splits)
  ultimately show ?thesis by (simp add: tinyrtc_jitter_buffer_add_packet_def)
qed

definition media_callbacks :: "pc_configuration \<Rightarrow> bool" where
  "media_callbacks config \<longleftrightarrow> pcc_on_audio_frame config \<and> pcc_on_video_frame config"

definition same_track :: "track \<Rightarrow> track \<Rightarrow> bool" where
  "same_track t t' \<longleftrightarrow> tk_codec_id t' = tk_codec_id t \<and> tk_payload_type t' = tk_payload_type t \<and>
     tk_address t' = tk_address t \<and> tk_kind t' = tk_kind t"

lemma same_track_trans: "same_track a b \<Longrightarrow> same_track b c \<Longrightarrow> same_track a c"
  by (simp add: same_track_def)

lemma media_event_same: "same_track t t' \<Longrightarrow> media_event t' = media_event t"
  by (rule ext)+ (simp add: same_track_def media_event_def)

lemma collected_nonempty: "collected t timestamp bs \<Longrightarrow> bs \<noteq> [] \<Longrightarrow> tk_reassembly t = bs"
  by (simp add: collected_def split: if_splits)

text \<open>One H.264 packet: its bytes are collected, and a complete frame is reported.\<close>

lemma track_receive_h264:
  assumes r: "track_receives t" and codec: "tk_codec_id t = TINYRTC_CODEC_H264" and acc: "collected t timestamp bs"
    and pt: "0 \<le> pt" "pt < 128" and cb: "media_callbacks config"
    and d: "depacketize_payload TINYRTC_CODEC_H264 p m 4096 = Some (complete, frame)"
  obtains t' evs where "track_receive \<lparr>ra_packet = True, ra_reassembly = True\<rparr> now config (send_header pt q timestamp m)
      (media_packet pt q timestamp p m) t = Some (TINYRTC_OK, t', evs)"
    "track_receives t'" "same_track t t'" "\<not> complete \<Longrightarrow> evs = [] \<and> collected t' timestamp (bs @ frame)"
    "complete \<Longrightarrow> bs @ frame \<noteq> [] \<Longrightarrow> evs = [media_event t (bs @ frame) timestamp]" "complete \<Longrightarrow> track_idle t'"
proof -
  obtain jb where jb: "tk_jitter_buffer t = Some jb" "jitter_inv tinyrtc_jitter_get_default_config jb"
    using r by (auto simp: track_receives_def)
  obtain jb' where add: "tinyrtc_jitter_buffer_add_packet True (Some jb) (Some (media_packet pt q timestamp p m)) now
      = Some (TINYRTC_OK, Some jb')" "jitter_inv tinyrtc_jitter_get_default_config jb'"
    using jitter_takes_media_packet [OF jb(2) pt] by blast
  define t1 where "t1 = t\<lparr>tk_jitter_buffer := Some jb', tk_packets_received := tk_packets_received t + 1\<rparr>"
  have t1: "collected t1 timestamp bs" "tk_codec_id t1 = TINYRTC_CODEC_H264" using acc codec by (simp_all add: t1_def collected_def)
  obtain t2 where c: "track_collect True timestamp frame t1 = (True, t2)" "collected t2 timestamp (bs @ frame)"
    "tk_codec_id t2 = tk_codec_id t1" "tk_payload_type t2 = tk_payload_type t1" "tk_jitter_buffer t2 = tk_jitter_buffer t1"
    "tk_address t2 = tk_address t1" "tk_kind t2 = tk_kind t1" by (rule track_collect_collected [OF t1, of frame])
  have t2: "track_receives t2" "same_track t t2" "tk_codec_id t2 = TINYRTC_CODEC_H264"
    using c(3-7) add(2) codec by (simp_all add: track_receives_def same_track_def t1_def)
  obtain t3 evs where v: "track_deliver config timestamp frame t2 = (t3, evs)" by fastforce
  have t3: "track_receives t3" "same_track t t3" "track_idle t3"
    using v t2 by (auto simp: track_deliver_def Let_def track_receives_def same_track_def track_reset_reassembly_def track_idle_def)
  have evs: "evs = [media_event t (bs @ frame) timestamp]" if "bs @ frame \<noteq> []"
    unfolding media_event_same [OF t2(2), symmetric] using v cb t2(3) collected_nonempty [OF c(2) that]
    by (cases "tk_kind t2") (auto simp: track_deliver_def Let_def media_callbacks_def media_event_def)
  have h: "hdr_timestamp (send_header pt q timestamp m) = timestamp" by (simp add: send_header_def)
  have "track_receive \<lparr>ra_packet = True, ra_reassembly = True\<rparr> now config (send_header pt q timestamp m)
      (media_packet pt q timestamp p m) t = Some (TINYRTC_OK, if complete then t3 else t2, if complete then evs else [])"
    using codec jb(1) add(1) c(1) d v media_packet_parsed(2) [OF pt]
    by (simp add: track_receive_def Let_def t1_def h)
  from that [OF this] t2 t3 c(2) evs show ?thesis by (cases complete) simp_all
qed

text \<open>Other codecs report the payload of a packet with the marker as a frame.\<close>

lemma track_receive_whole:
  assumes r: "track_receives t" and codec: "tk_codec_id t \<noteq> TINYRTC_CODEC_H264"
    and pt: "0 \<le> pt" "pt < 128" and cb: "media_callbacks config" and len: "length p \<le> 4096"
  obtains t' where "track_receive \<lparr>ra_packet = True, ra_reassembly = True\<rparr> now config (send_header pt q timestamp True)
      (media_packet pt q timestamp p True) t = Some (TINYRTC_OK, t', [media_event t p timestamp])"
    "track_receives t'" "same_track t t'" "track_idle t' = track_idle t"
proof -
  obtain jb where jb: "tk_jitter_buffer t = Some jb" "jitter_inv tinyrtc_jitter_get_default_config jb"
    using r by (auto simp: track_receives_def)
  obtain jb' where add: "tinyrtc_jitter_buffer_add_packet True (Some jb) (Some (media_packet pt q timestamp p True)) now
      = Some (TINYRTC_OK, Some jb')" "jitter_inv tinyrtc_jitter_get_default_config jb'"
    using jitter_takes_media_packet [OF jb(2) pt] by blast
  have d: "depacketize_payload (tk_codec_id t) p True 4096 = Some (True, p)"
    using codec len by (simp add: depacketize_payload_def)
  have h: "hdr_timestamp (send_header pt q timestamp True) = timestamp" by (simp add: send_header_def)
  define t' where "t' = t\<lparr>tk_jitter_buffer := Some jb', tk_packets_received := tk_packets_received t + 1,
    tk_frames_received := tk_frames_received t + 1\<rparr>"
  have "track_receive \<lparr>ra_packet = True, ra_reassembly = True\<rparr> now config (send_header pt q timestamp True)
      (media_packet pt q timestamp p True) t = Some (TINYRTC_OK, t', [media_event t p timestamp])"
    using codec jb(1) add(1) d cb media_packet_parsed(2) [OF pt]
    by (cases "tk_kind t")
      (simp_all add: track_receive_def Let_def h track_collect_def track_deliver_def media_callbacks_def media_event_def t'_def)
  from that [OF this] add(2) show thesis by (simp add: t'_def track_receives_def same_track_def track_idle_def)
qed

section \<open>A run of packets\<close>

lemma track_index_at: "track_index pt ts = Some i \<Longrightarrow> i < length ts \<and> tk_payload_type (ts ! i) = pt"
  using nth_length_takeWhile [of "\<lambda>t. tk_payload_type t \<noteq> pt" ts] by (auto simp: track_index_def Let_def split: if_splits)

lemma track_index_update:
  assumes "track_index pt ts = Some i" and "tk_payload_type t = pt"
  shows "track_index pt (ts[i := t]) = Some i"
proof -
  let ?P = "\<lambda>t. tk_payload_type t \<noteq> pt"
  have i: "i = length (takeWhile ?P ts)" and l: "i < length ts"
    using assms(1) by (auto simp: track_index_def Let_def split: if_splits)
  have "ts[i := t] = takeWhile ?P ts @ t # drop (Suc i) ts"
    using l i by (simp add: upd_conv_take_nth_drop takeWhile_eq_take [symmetric])
  then have "takeWhile ?P (ts[i := t]) = takeWhile ?P ts"
    using assms(2) by (simp add: takeWhile_append)
  then show ?thesis using l i by (simp add: track_index_def Let_def)
qed

lemma receive_media_datagram:
  assumes lib: "\<forall>k b. length (aes k b) = 16" "\<forall>k m. length (hmac k m) = 20"
    and rx: "pc_srtp_rx pc = Some rx" "same_keys rx tx" and pt: "0 \<le> pt" "pt < 128"
    and i: "track_index pt (pc_remote_tracks pc) = Some i"
    and t: "track_receive alloc now (pc_config pc) (send_header pt q ts m) (media_packet pt q ts p m) (pc_remote_tracks pc ! i)
      = Some (err, t, evs)"
  shows "pc_process_incoming_rtp aes hmac alloc now (Some (srtp_datagram aes hmac tx (media_packet pt q ts p m))) pc =
    Some (err, pc\<lparr>pc_srtp_rx := Some (rx\<lparr>srtp_roc := srtp_roc rx + 1\<rparr>), pc_remote_tracks := (pc_remote_tracks pc)[i := t]\<rparr>, evs)"
  using srtp_datagram_decrypted [OF lib rx, of "media_packet pt q ts p m"] media_packet_parsed(1) [OF pt]
    send_header_wf(2) [OF pt] i t
  by (simp add: pc_process_incoming_rtp_def tinyrtc_rtp_parse_header_def)

text \<open>
  A connection that hears what is sent with the keys of \<open>tx\<close>: its track number \<open>i\<close> has the
  payload type and is the track \<open>t\<close> as far as the application can tell.
\<close>

definition pc_hears :: "'ssl peer_connection \<Rightarrow> srtp_context \<Rightarrow> int \<Rightarrow> nat \<Rightarrow> track \<Rightarrow> bool" where
  "pc_hears pc tx pt i t \<longleftrightarrow>
     (\<exists>rx. pc_srtp_rx pc = Some rx \<and> same_keys rx tx) \<and> media_callbacks (pc_config pc) \<and>
     track_index pt (pc_remote_tracks pc) = Some i \<and> track_receives (pc_remote_tracks pc ! i) \<and>
     same_track t (pc_remote_tracks pc ! i)"

lemma pc_hears_keys: "pc_hears pc tx pt i t \<Longrightarrow> same_keys tx tx' \<Longrightarrow> pc_hears pc tx' pt i t"
  by (auto simp: pc_hears_def same_keys_def)

lemma pc_hears_step:
  assumes lib: "\<forall>k b. length (aes k b) = 16" "\<forall>k m. length (hmac k m) = 20" and pt: "0 \<le> pt" "pt < 128"
    and pc: "pc_hears pc tx pt i t"
    and r: "track_receive alloc now (pc_config pc) (send_header pt q ts m) (media_packet pt q ts p m) (pc_remote_tracks pc ! i)
      = Some (err, t', evs)" "track_receives t'" "same_track (pc_remote_tracks pc ! i) t'"
  obtains pc' where "pc_process_incoming_rtp aes hmac alloc now (Some (srtp_datagram aes hmac tx (media_packet pt q ts p m))) pc =
      Some (err, pc', evs)" "pc_hears pc' tx pt i t" "pc_remote_tracks pc' ! i = t'" "pc_config pc' = pc_config pc"
proof -
  obtain rx where rx: "pc_srtp_rx pc = Some rx" "same_keys rx tx" using pc by (auto simp: pc_hears_def)
  have i: "track_index pt (pc_remote_tracks pc) = Some i" "same_track t (pc_remote_tracks pc ! i)"
    using pc by (simp_all add: pc_hears_def)
  have at: "i < length (pc_remote_tracks pc)" "tk_payload_type t' = pt"
    using track_index_at [OF i(1)] r(3) by (simp_all add: same_track_def)
  define pc' where "pc' = pc\<lparr>pc_srtp_rx := Some (rx\<lparr>srtp_roc := srtp_roc rx + 1\<rparr>), pc_remote_tracks := (pc_remote_tracks pc)[i := t']\<rparr>"
  have "pc_hears pc' tx pt i t"
    using pc rx(2) r(2) same_track_trans [OF i(2) r(3)] track_index_update [OF i(1) at(2)] at(1)
    by (simp add: pc_hears_def pc'_def)
  with that [OF receive_media_datagram [OF lib rx pt i(1) r(1), folded pc'_def]] at(1) show thesis by (simp add: pc'_def)
qed

lemma receive_h264_calls:
  assumes lib: "\<forall>k b. length (aes k b) = 16" "\<forall>k m. length (hmac k m) = 20" and pt: "0 \<le> pt" "pt < 128"
    and codec: "tk_codec_id t = TINYRTC_CODEC_H264"
  shows "calls \<noteq> [] \<Longrightarrow>
    depacketize_calls TINYRTC_CODEC_H264 4096 calls = Some (replicate (length calls - 1) False @ [True], rest) \<Longrightarrow>
    bs @ rest \<noteq> [] \<Longrightarrow> pc_hears pc tx pt i t \<Longrightarrow> collected (pc_remote_tracks pc ! i) timestamp bs \<Longrightarrow>
    \<exists>pc'. receive_datagrams aes hmac now k (media_datagrams aes hmac tx pt timestamp q calls) pc =
      Some (pc', [media_event t (bs @ rest) timestamp]) \<and> pc_hears pc' tx pt i t \<and> track_idle (pc_remote_tracks pc' ! i)"
proof (induction calls arbitrary: pc bs rest q k)
  case (Cons c calls)
  obtain p m where c: "c = (p, m)" by (cases c)
  obtain complete frame ds rest' where d: "depacketize_payload TINYRTC_CODEC_H264 p m 4096 = Some (complete, frame)"
    "depacketize_calls TINYRTC_CODEC_H264 4096 calls = Some (ds, rest')" "rest = frame @ rest'"
    "complete # ds = replicate (length calls) False @ [True]"
    using Cons.prems(2) by (auto simp: c split: bind_splits)
  have r: "track_receives (pc_remote_tracks pc ! i)" "media_callbacks (pc_config pc)" "same_track t (pc_remote_tracks pc ! i)"
    using Cons.prems(4) by (simp_all add: pc_hears_def)
  have codec': "tk_codec_id (pc_remote_tracks pc ! i) = TINYRTC_CODEC_H264" using codec r(3) by (simp add: same_track_def)
  obtain t' evs where t: "track_receive \<lparr>ra_packet = True, ra_reassembly = True\<rparr> (now k) (pc_config pc) (send_header pt q timestamp m)
      (media_packet pt q timestamp p m) (pc_remote_tracks pc ! i) = Some (TINYRTC_OK, t', evs)"
    "track_receives t'" "same_track (pc_remote_tracks pc ! i) t'" "\<not> complete \<Longrightarrow> evs = [] \<and> collected t' timestamp (bs @ frame)"
    "complete \<Longrightarrow> bs @ frame \<noteq> [] \<Longrightarrow> evs = [media_event t (bs @ frame) timestamp]" "complete \<Longrightarrow> track_idle t'"
    using track_receive_h264 [OF r(1) codec' Cons.prems(5) pt r(2) d(1), of "now k" q] media_event_same [OF r(3)] by metis
  obtain pc1 where pc1: "pc_process_incoming_rtp aes hmac \<lparr>ra_packet = True, ra_reassembly = True\<rparr> (now k)
      (Some (srtp_datagram aes hmac tx (media_packet pt q timestamp p m))) pc = Some (TINYRTC_OK, pc1, evs)"
    "pc_hears pc1 tx pt i t" "pc_remote_tracks pc1 ! i = t'"
    by (rule pc_hears_step [OF lib pt Cons.prems(4) t(1-3)])
  show ?case
  proof (cases calls)
    case Nil
    with d have "complete" "rest = frame" by simp_all
    with pc1 t(5,6) Cons.prems(3) Nil show ?thesis by (simp add: c)
  next
    case (Cons c' calls')
    with d(4) have nc: "\<not> complete" "ds = replicate (length calls - 1) False @ [True]" by simp_all
    have "calls \<noteq> []" "(bs @ frame) @ rest' \<noteq> []" using Cons Cons.prems d(3) by simp_all
    then obtain pc' where "receive_datagrams aes hmac now (Suc k) (media_datagrams aes hmac tx pt timestamp (q + 1) calls) pc1 =
      Some (pc', [media_event t ((bs @ frame) @ rest') timestamp])" "pc_hears pc' tx pt i t" "track_idle (pc_remote_tracks pc' ! i)"
      using Cons.IH [of rest' "bs @ frame" pc1 "Suc k" "q + 1"] d(2) nc t(4) pc1(2,3) by auto
    with pc1(1) t(4) nc(1) d(3) show ?thesis by (simp add: c)
  qed
qed simp

section \<open>Keys\<close>

lemma srtp_init_result:
  assumes "srtp_init ok (Some key) (Some salt) = Some (Some c)"
  shows "c = \<lparr>srtp_initialized = True, srtp_key = take 16 key, srtp_salt = take 14 salt, srtp_roc = 0\<rparr>"
  using assms by (auto simp: srtp_init_def rd_bytes_def split: if_splits bind_splits)

lemma initialize_srtp_result:
  assumes "pc_initialize_srtp_after_dtls sha256 key_ok send_ok recv_ok pc = Some (TINYRTC_OK, pc')"
  obtains ms dtls keys send recv where "pc_dtls pc = Some dtls" "dt_master_secret dtls = Some ms"
    "keys = dtls_split_keys (dtls_key_material sha256 ms)" "pc_srtp pc' = Some send" "pc_srtp_rx pc' = Some recv"
    "srtp_key send = take 16 (if pcc_is_initiator (pc_config pc) then sk_client_key keys else sk_server_key keys)"
    "srtp_salt send = take 14 (if pcc_is_initiator (pc_config pc) then sk_client_salt keys else sk_server_salt keys)"
    "srtp_key recv = take 16 (if pcc_is_initiator (pc_config pc) then sk_server_key keys else sk_client_key keys)"
    "srtp_salt recv = take 14 (if pcc_is_initiator (pc_config pc) then sk_server_salt keys else sk_client_salt keys)"
proof -
  obtain dtls where dtls: "pc_dtls pc = Some dtls"
    using assms by (auto simp: pc_initialize_srtp_after_dtls_def split: option.splits)
  obtain ms dtls' where ms: "dt_master_secret dtls = Some ms"
    "dtls_derive_srtp_keys sha256 key_ok dtls = (Inr (dtls_split_keys (dtls_key_material sha256 ms)), dtls')"
    using assms dtls by (auto simp: pc_initialize_srtp_after_dtls_def dtls_derive_srtp_keys_def Let_def
        split: option.splits if_splits)
  define keys where "keys = dtls_split_keys (dtls_key_material sha256 ms)"
  define ini where "ini = pcc_is_initiator (pc_config pc)"
  obtain send recv where s: "srtp_init send_ok (Some (if ini then sk_client_key keys else sk_server_key keys))
        (Some (if ini then sk_client_salt keys else sk_server_salt keys)) = Some (Some send)"
    and r: "srtp_init recv_ok (Some (if ini then sk_server_key keys else sk_client_key keys))
        (Some (if ini then sk_server_salt keys else sk_client_salt keys)) = Some (Some recv)"
    and pc': "pc_srtp pc' = Some send" "pc_srtp_rx pc' = Some recv"
    using assms dtls ms unfolding pc_initialize_srtp_after_dtls_def keys_def [symmetric] ini_def [symmetric]
    by (cases ini) (auto simp: Let_def split: bind_splits if_splits)
  from that [OF dtls ms(1) keys_def pc'] srtp_init_result [OF s] srtp_init_result [OF r] show ?thesis
    by (simp add: ini_def)
qed

text \<open>Two sides with one master secret and opposite roles: what one sends with, the other receives with.\<close>

lemma initialize_srtp_same_keys:
  assumes "pc_initialize_srtp_after_dtls sha256 k1 s1 r1 a = Some (TINYRTC_OK, tx)"
    and "pc_initialize_srtp_after_dtls sha256 k2 s2 r2 b = Some (TINYRTC_OK, rx)"
    and "map_option dt_master_secret (pc_dtls a) = map_option dt_master_secret (pc_dtls b)"
    and "pcc_is_initiator (pc_config a) \<noteq> pcc_is_initiator (pc_config b)"
  obtains send recv where "pc_srtp tx = Some send" "pc_srtp_rx rx = Some recv" "same_keys recv send"
proof (rule initialize_srtp_result [OF assms(1)], rule initialize_srtp_result [OF assms(2)])
  fix ms dtls keys send recv and ms' dtls' keys' send' recv'
  assume a: "pc_dtls a = Some dtls" "dt_master_secret dtls = Some ms"
    "keys = dtls_split_keys (dtls_key_material sha256 ms)" "pc_srtp tx = Some send"
    "srtp_key send = take 16 (if pcc_is_initiator (pc_config a) then sk_client_key keys else sk_server_key keys)"
    "srtp_salt send = take 14 (if pcc_is_initiator (pc_config a) then sk_client_salt keys else sk_server_salt keys)"
  assume b: "pc_dtls b = Some dtls'" "dt_master_secret dtls' = Some ms'"
    "keys' = dtls_split_keys (dtls_key_material sha256 ms')" "pc_srtp_rx rx = Some recv'"
    "srtp_key recv' = take 16 (if pcc_is_initiator (pc_config b) then sk_server_key keys' else sk_client_key keys')"
    "srtp_salt recv' = take 14 (if pcc_is_initiator (pc_config b) then sk_server_salt keys' else sk_client_salt keys')"
  have "keys' = keys" using assms(3) a(1-3) b(1-3) by simp
  with assms(4) a(5,6) b(5,6) have "same_keys recv' send" by (auto simp: same_keys_def)
  with that a(4) b(4) show thesis by blast
qed

section \<open>From frame to frame\<close>

text \<open>The payload of a datagram: 1500 bytes less the tag and the RTP header.\<close>

definition MEDIA_PAYLOAD :: nat where "MEDIA_PAYLOAD = 1478"

text \<open>
  The frames that arrive as one: H.264 access units of which only the last NAL unit may need
  fragments, and frames of other codecs that fit one packet.
\<close>

definition media_frame :: "codec_id \<Rightarrow> bytes \<Rightarrow> bool" where
  "media_frame codec frame \<longleftrightarrow>
     (if codec = TINYRTC_CODEC_H264
      then (\<exists>ns. ns \<noteq> [] \<and> (\<forall>n \<in> set ns. h264_nalu_ok n) \<and> (\<forall>n \<in> set (butlast ns). length n \<le> MEDIA_PAYLOAD) \<and>
             frame = h264_stream_of ns)
      else frame \<noteq> [] \<and> length frame \<le> MEDIA_PAYLOAD)"

lemma media_frame_calls:
  assumes "media_frame codec frame" and "\<forall>i. alloc_ok i" and "unat (cp_mtu params) = 1490" "cp_codec_id params = codec"
  obtains calls where "snd (tinyrtc_packetize_frame alloc_ok (Some frame) (Some params) True) = calls" "calls \<noteq> []"
    "codec = TINYRTC_CODEC_H264 \<Longrightarrow>
       depacketize_calls TINYRTC_CODEC_H264 4096 calls = Some (replicate (length calls - 1) False @ [True], frame)"
    "codec \<noteq> TINYRTC_CODEC_H264 \<Longrightarrow> calls = [(frame, True)]"
proof (cases "codec = TINYRTC_CODEC_H264")
  case True
  then obtain ns where ns: "ns \<noteq> []" "\<forall>n \<in> set ns. h264_nalu_ok n" "\<forall>n \<in> set (butlast ns). length n \<le> MEDIA_PAYLOAD"
    "frame = h264_stream_of ns" using assms(1) by (auto simp: media_frame_def)
  have fit: "\<forall>m \<in> set (butlast ns). length m + 12 \<le> unat (cp_mtu params)"
    using ns(3) by (simp add: assms(3) MEDIA_PAYLOAD_def)
  obtain calls dn where c: "tinyrtc_packetize_frame alloc_ok (Some frame) (Some params) True = (int (length calls), calls)"
    "map snd calls = replicate (length calls - 1) False @ [True]"
    "depacketize_calls TINYRTC_CODEC_H264 4096 calls = Some (dn, frame)" "dn = replicate (length calls - 1) False @ [True]"
    using h264_frame_calls [OF ns(1,2), of params 4096 alloc_ok] assms(2-4) True fit unfolding ns(4) by auto
  from c(2) have "calls \<noteq> []" by auto
  with that [of calls] c True show ?thesis by simp
next
  case False
  then have f: "frame \<noteq> []" "length frame \<le> 1478" using assms(1) by (simp_all add: media_frame_def MEDIA_PAYLOAD_def)
  have m: "\<not> cp_mtu params < 20" "unat (cp_mtu params - 12) = 1478"
    using assms(3) by (simp_all add: word_less_nat_alt unat_sub word_le_nat_alt)
  have "packetize_chunks frame 1478 0 = [(frame, True)]"
    using f by (subst packetize_chunks.simps) (simp add: Let_def packetize_chunks.simps)
  then have "snd (tinyrtc_packetize_frame alloc_ok (Some frame) (Some params) True) = [(frame, True)]"
    using False assms(4) m f(1) by (simp add: tinyrtc_packetize_frame_def Let_def)
  with that False show ?thesis by simp
qed

lemma length_media_datagrams:
  assumes lib: "\<forall>k b. length (aes k b) = 16" "\<forall>k m. length (hmac k m) = 20"
  shows "\<forall>c \<in> set calls. length (fst c) + 12 \<le> 1490 \<Longrightarrow>
    d \<in> set (media_datagrams aes hmac tx pt timestamp q calls) \<Longrightarrow> length d \<le> 1500"
proof (induction calls arbitrary: q)
  case (Cons c calls)
  obtain p m where c: "c = (p, m)" by (cases c)
  show ?case using Cons length_srtp_datagram [OF lib, of "media_packet pt q timestamp p m"] by (auto simp: c)
qed simp

text \<open>
  A connection that sends to \<open>addr\<close> with the keys of \<open>tx\<close> on the track with handle \<open>h\<close>, which is the
  track \<open>t\<close> but for its counters.
\<close>

definition pc_speaks :: "'ssl peer_connection \<Rightarrow> srtp_context \<Rightarrow> sockaddr \<Rightarrow> nat \<Rightarrow> track \<Rightarrow> bool" where
  "pc_speaks pc tx addr h t \<longleftrightarrow>
     pc_sends_to pc addr \<and> (\<exists>srtp. pc_srtp pc = Some srtp \<and> same_keys srtp tx) \<and>
     (\<exists>t'. pc_find_track h pc = Some t' \<and> tk_is_local t' \<and> same_track t t')"

lemma pc_find_track_update:
  assumes "pc_find_track h pc = Some t" and "\<forall>t. tk_address (f t) = tk_address t"
  shows "pc_find_track h (pc_update_local_track h f pc) = Some t \<or>
    pc_find_track h (pc_update_local_track h f pc) = Some (f t)"
proof -
  have "find (\<lambda>t. tk_address t = h) (ts @ rs) = Some t \<Longrightarrow>
      find (\<lambda>t. tk_address t = h) (map (\<lambda>t. if tk_address t = h then f t else t) ts @ rs) \<in> {Some t, Some (f t)}" for ts rs
    using assms(2) by (induction ts) auto
  then show ?thesis using assms(1) by (simp add: pc_find_track_def pc_update_local_track_def)
qed

lemma track_send_frame_datagrams:
  assumes lib: "\<forall>k b. length (aes k b) = 16" "\<forall>k m. length (hmac k m) = 20"
    and to: "\<forall>a bs. 0 \<le> sendto a bs" and pc: "pc_speaks pc tx addr h t"
    and calls: "snd (tinyrtc_packetize_frame alloc_ok (Some frame)
      (Some \<lparr>cp_codec_id = tk_codec_id t, cp_payload_type = tk_payload_type t,
             cp_mtu = TINYRTC_SEND_MTU - TINYRTC_SRTP_AUTH_TAG_RESERVED\<rparr>) True) = calls"
  shows "\<exists>pc' q. track_send_frame aes hmac sendto alloc_ok (Some h) (Inr frame) timestamp pc =
      Some (TINYRTC_OK, pc', map (Udp_Send addr) (media_datagrams aes hmac tx (tk_payload_type t) timestamp q calls)) \<and>
    pc_speaks pc' tx addr h t \<and> pc_state pc' = pc_state pc"
    and "d \<in> set (media_datagrams aes hmac tx pt timestamp q calls) \<Longrightarrow> length d \<le> 1500"
proof -
  have sizes: "\<forall>c \<in> set calls. length (fst c) + 12 \<le> 1490"
    using calls packetize_frame_payload send_mtu by fastforce
  show "d \<in> set (media_datagrams aes hmac tx pt timestamp q calls) \<Longrightarrow> length d \<le> 1500"
    using length_media_datagrams [OF lib sizes] .
  from pc obtain srtp t' where s: "pc_sends_to pc addr" "pc_srtp pc = Some srtp" "same_keys srtp tx"
    "pc_find_track h pc = Some t'" "tk_is_local t'" "same_track t t'" by (auto simp: pc_speaks_def)
  define st where "st = \<lparr>ms_sequence = tk_next_sequence t', ms_next_sequence = tk_next_sequence t', ms_srtp = pc_srtp pc, ms_sent = []\<rparr>"
  have "ms_srtp st = Some srtp" by (simp add: st_def s)
  from send_packets_datagrams [OF s(1) to lib this s(3) sizes, of "tk_payload_type t" timestamp]
  obtain st' srtp' where st': "send_packets aes hmac sendto pc (tk_payload_type t) timestamp calls st = Some st'"
    "ms_sent st' = map (Pair addr) (media_datagrams aes hmac tx (tk_payload_type t) timestamp (tk_next_sequence t') calls)"
    "ms_srtp st' = Some srtp'" "same_keys srtp' tx"
    by (auto simp: st_def)
  define f where "f = (\<lambda>t :: track. t\<lparr>tk_next_sequence := ms_next_sequence st', tk_frames_sent := tk_frames_sent t + 1,
    tk_bytes_sent := tk_bytes_sent t + word_of_nat (length frame)\<rparr>)"
  define pc' where "pc' = (pc_update_local_track h f pc)\<lparr>pc_srtp := ms_srtp st'\<rparr>"
  have "pc_is_secure_media_ready pc" using s(1) by (simp add: pc_sends_to_def)
  then have "track_send_frame aes hmac sendto alloc_ok (Some h) (Inr frame) timestamp pc =
      Some (TINYRTC_OK, pc', map (Udp_Send addr)
        (media_datagrams aes hmac tx (tk_payload_type t) timestamp (tk_next_sequence t') calls))"
    using s(4-6) calls st'(1,2) by (simp add: track_send_frame_def Let_def st_def comp_def same_track_def pc'_def f_def)
  moreover have "pc_speaks pc' tx addr h t"
  proof -
    have "pc_ice_session pc' = pc_ice_session pc" "pc_srtp_initialized pc' = pc_srtp_initialized pc"
      by (simp_all add: pc'_def pc_ice_session_def pc_update_local_track_def)
    then have "pc_sends_to pc' addr" using s(1)
      by (auto simp: pc_sends_to_def pc_is_secure_media_ready_def split: option.splits)
    moreover have "pc_find_track h pc' = pc_find_track h (pc_update_local_track h f pc)"
      by (simp add: pc'_def pc_find_track_def)
    moreover have "tk_is_local (f t')" "same_track t (f t')" using s(5,6) by (simp_all add: f_def same_track_def)
    ultimately show ?thesis
      using pc_find_track_update [OF s(4), of f] s(5,6) st'(3,4) by (auto simp: pc_speaks_def pc'_def f_def)
  qed
  ultimately show "\<exists>pc' q. track_send_frame aes hmac sendto alloc_ok (Some h) (Inr frame) timestamp pc =
      Some (TINYRTC_OK, pc', map (Udp_Send addr) (media_datagrams aes hmac tx (tk_payload_type t) timestamp q calls)) \<and>
    pc_speaks pc' tx addr h t \<and> pc_state pc' = pc_state pc"
    by (auto simp: pc'_def pc_update_local_track_def)
qed

lemma receive_media_frame:
  assumes lib: "\<forall>k b. length (aes k b) = 16" "\<forall>k m. length (hmac k m) = 20" and pt: "0 \<le> pt" "pt < 128"
    and pc: "pc_hears pc tx pt i t" "collected (pc_remote_tracks pc ! i) timestamp []"
    and frame: "media_frame (tk_codec_id t) frame" "\<forall>i. alloc_ok i"
    and params: "unat (cp_mtu params) = 1490" "cp_codec_id params = tk_codec_id t"
    and calls: "snd (tinyrtc_packetize_frame alloc_ok (Some frame) (Some params) True) = calls"
  shows "\<exists>pc'. receive_datagrams aes hmac now k (media_datagrams aes hmac tx pt timestamp q calls) pc =
    Some (pc', [media_event t frame timestamp]) \<and> pc_hears pc' tx pt i t \<and>
    (track_idle (pc_remote_tracks pc ! i) \<longrightarrow> track_idle (pc_remote_tracks pc' ! i))"
proof (rule media_frame_calls [OF frame params])
  fix calls' assume "snd (tinyrtc_packetize_frame alloc_ok (Some frame) (Some params) True) = calls'" and ne: "calls' \<noteq> []"
    and h264: "tk_codec_id t = TINYRTC_CODEC_H264 \<Longrightarrow>
       depacketize_calls TINYRTC_CODEC_H264 4096 calls' = Some (replicate (length calls' - 1) False @ [True], frame)"
    and other: "tk_codec_id t \<noteq> TINYRTC_CODEC_H264 \<Longrightarrow> calls' = [(frame, True)]"
  with calls have c: "calls' = calls" by simp
  show ?thesis
  proof (cases "tk_codec_id t = TINYRTC_CODEC_H264")
    case True
    have "frame \<noteq> []" using frame(1) True by (auto simp: media_frame_def h264_stream_of_def neq_Nil_conv h264_start_code_def)
    then show ?thesis
      using receive_h264_calls [OF lib pt True ne h264 [OF True] _ pc(1), of "[]" timestamp now k q] pc(2) c by auto
  next
    case False
    then have "length frame \<le> 4096" using frame(1) by (simp add: media_frame_def MEDIA_PAYLOAD_def)
    have r: "track_receives (pc_remote_tracks pc ! i)" "media_callbacks (pc_config pc)" "same_track t (pc_remote_tracks pc ! i)"
      using pc(1) by (simp_all add: pc_hears_def)
    have codec: "tk_codec_id (pc_remote_tracks pc ! i) \<noteq> TINYRTC_CODEC_H264" using False r(3) by (simp add: same_track_def)
    obtain t' where t': "track_receive \<lparr>ra_packet = True, ra_reassembly = True\<rparr> (now k) (pc_config pc)
        (send_header pt q timestamp True) (media_packet pt q timestamp frame True) (pc_remote_tracks pc ! i)
          = Some (TINYRTC_OK, t', [media_event t frame timestamp])"
      "track_receives t'" "same_track (pc_remote_tracks pc ! i) t'" "track_idle t' = track_idle (pc_remote_tracks pc ! i)"
      using track_receive_whole [OF r(1) codec pt r(2) \<open>length frame \<le> 4096\<close>, of "now k" q timestamp] media_event_same [OF r(3)]
      by metis
    obtain pc' where "pc_process_incoming_rtp aes hmac \<lparr>ra_packet = True, ra_reassembly = True\<rparr> (now k)
        (Some (srtp_datagram aes hmac tx (media_packet pt q timestamp frame True))) pc = Some (TINYRTC_OK, pc', [media_event t frame timestamp])"
      "pc_hears pc' tx pt i t" "pc_remote_tracks pc' ! i = t'"
      by (rule pc_hears_step [OF lib pt pc(1) t'(1-3)])
    then show ?thesis using t'(4) other [OF False] c by auto
  qed
qed

section \<open>Property\<close>


text \<open>Two connections after their handshake, with a track each.\<close>

definition media_local_example :: track where
  "media_local_example = (track_zero 1)\<lparr>tk_kind := TINYRTC_TRACK_KIND_VIDEO, tk_is_local := True, tk_payload_type := 96\<rparr>"

definition media_remote_example :: track where
  "media_remote_example = (track_zero 2)\<lparr>tk_kind := TINYRTC_TRACK_KIND_VIDEO, tk_payload_type := 96,
     tk_jitter_buffer := Some \<lparr>jb_config = tinyrtc_jitter_get_default_config, jb_entries = [], jb_next_playout_time = 0\<rparr>\<rparr>"

definition media_peer_example :: "bool \<Rightarrow> bool peer_connection" where
  "media_peer_example initiator =
     (pc_new (pc_config_example initiator))\<lparr>
       pc_state := TINYRTC_PC_STATE_CONNECTED, pc_local_tracks := [media_local_example],
       pc_remote_tracks := [media_remote_example], pc_sessions := [ice_connected_example], pc_ice := Some 0,
       pc_dtls := Some ((dtls_example (if initiator then DTLS_ROLE_CLIENT else DTLS_ROLE_SERVER))
         \<lparr>dt_master_secret := Some (replicate 48 7)\<rparr>)\<rparr>"

lemma media_peer_example_keys:
  "\<exists>pc d send recv. pc_initialize_srtp_after_dtls (rt_sha256 runtime_example) True True True (media_peer_example initiator) =
       Some (TINYRTC_OK, pc) \<and>
     pc = (media_peer_example initiator)\<lparr>pc_dtls := d, pc_srtp := send, pc_srtp_rx := recv, pc_srtp_initialized := True\<rparr>"
proof -
  have "length (dtls_key_material (rt_sha256 runtime_example) (replicate 48 7)) = 60"
    by (rule key_material_length) (simp add: runtime_example_def)
  then show ?thesis
    by (cases initiator) (simp_all add: pc_initialize_srtp_after_dtls_def media_peer_example_def dtls_derive_srtp_keys_def
        dtls_split_keys_def srtp_init_def rd_bytes_def pc_new_def pc_config_example_def Let_def)
qed

lemma inet_pton_example: "\<exists>ip. inet_pton (ica_ip (ice_candidate_from_sdp (ice_remote_example 6001))) = Some ip"
proof -
  have "inet_ntop 0x0A000002 = ''10.0.0.2''" by (simp add: inet_ntop_def) code_simp
  moreover have "ica_ip (ice_candidate_from_sdp (ice_remote_example 6001)) = ''10.0.0.2''"
    by (simp add: ice_candidate_from_sdp_def ice_remote_example_def)
  ultimately show ?thesis using inet_pton_ntop [of "0x0A000002"] by metis
qed

lemma media_example_tracks:
  "tk_is_local media_local_example" "tk_codec_id media_local_example = TINYRTC_CODEC_H264"
  "tk_payload_type media_local_example = 96" "tk_codec_id media_remote_example = TINYRTC_CODEC_H264"
  "tk_kind media_remote_example = TINYRTC_TRACK_KIND_VIDEO" "track_receives media_remote_example"
  "track_idle media_remote_example" "tk_address media_remote_example = 2"
  by (simp_all add: media_local_example_def media_remote_example_def track_zero_def track_receives_def track_idle_def
      jitter_inv_def)

lemma media_example:
  obtains tx rx and ip where
    "pc_initialize_srtp_after_dtls (rt_sha256 runtime_example) True True True (media_peer_example True) = Some (TINYRTC_OK, tx)"
    "pc_initialize_srtp_after_dtls (rt_sha256 runtime_example) True True True (media_peer_example False) = Some (TINYRTC_OK, rx)"
    "map_option dt_master_secret (pc_dtls (media_peer_example True)) = map_option dt_master_secret (pc_dtls (media_peer_example False))"
    "pcc_is_initiator (pc_config (media_peer_example True)) \<noteq> pcc_is_initiator (pc_config (media_peer_example False))"
    "pc_sends_to tx (ip, 6001)" "pc_state tx = TINYRTC_PC_STATE_CONNECTED" "pc_find_track 1 tx = Some media_local_example"
    "track_index 96 (pc_remote_tracks rx) = Some 0" "pc_remote_tracks rx ! 0 = media_remote_example"
    "media_callbacks (pc_config rx)"
proof -
  obtain tx d1 e1 f1 where tx: "pc_initialize_srtp_after_dtls (rt_sha256 runtime_example) True True True (media_peer_example True) =
       Some (TINYRTC_OK, tx)"
    "tx = (media_peer_example True)\<lparr>pc_dtls := d1, pc_srtp := e1, pc_srtp_rx := f1, pc_srtp_initialized := True\<rparr>"
    using media_peer_example_keys by blast
  obtain rx d2 e2 f2 where rx: "pc_initialize_srtp_after_dtls (rt_sha256 runtime_example) True True True (media_peer_example False) =
       Some (TINYRTC_OK, rx)"
    "rx = (media_peer_example False)\<lparr>pc_dtls := d2, pc_srtp := e2, pc_srtp_rx := f2, pc_srtp_initialized := True\<rparr>"
    using media_peer_example_keys by blast
  obtain ip where ip: "inet_pton (ica_ip (ice_candidate_from_sdp (ice_remote_example 6001))) = Some ip"
    using inet_pton_example by blast
  have "pc_sends_to tx (ip, 6001)"
    using ip by (simp add: tx(2) pc_sends_to_def pc_is_secure_media_ready_def pc_ice_session_def media_peer_example_def
        ice_connected_example_def ice_session_example_def ice_is_connected_def ice_selected_remote_def ice_new_pair_def
        ice_candidate_from_sdp_def ice_remote_example_def)
  moreover have "pc_state tx = TINYRTC_PC_STATE_CONNECTED" "pc_find_track 1 tx = Some media_local_example"
    by (simp_all add: tx(2) pc_find_track_def media_peer_example_def media_local_example_def track_zero_def)
  moreover have "track_index 96 (pc_remote_tracks rx) = Some 0" "pc_remote_tracks rx ! 0 = media_remote_example"
    "media_callbacks (pc_config rx)"
    by (simp_all add: rx(2) track_index_def media_peer_example_def media_remote_example_def media_callbacks_def
        pc_new_def pc_config_example_def)
  moreover have "map_option dt_master_secret (pc_dtls (media_peer_example True)) = map_option dt_master_secret (pc_dtls (media_peer_example False))"
    "pcc_is_initiator (pc_config (media_peer_example True)) \<noteq> pcc_is_initiator (pc_config (media_peer_example False))"
    by (simp_all add: media_peer_example_def pc_new_def pc_config_example_def)
  ultimately show thesis using that tx(1) rx(1) by blast
qed

lemma h264_example_nalus: "h264_nalu_ok [0x67, 1, 2]" "h264_nalu_ok [0x68, 3]" "h264_nalu_ok [0x65, 1, 2, 3]"
  by (simp_all add: h264_nalu_ok_def h264_start_code_len_def H264_NALU_TYPE_STAP_A_def)


end
