(* ===== verification/Demo_Transfer.thy ===== *)
theory Demo_Transfer
  imports Demo_Safety Media_Roundtrip
begin

text \<open>
  The two demo programs together: the sender reads an H.264 file and sends its units, the receiver
  writes the frames it is told of.  What arrives in the output file is the input file.
\<close>

section \<open>Units and timestamps\<close>

lemma receive_datagrams_append:
  assumes "receive_datagrams aes hmac now k ds pc = Some (pc1, evs)"
    and "receive_datagrams aes hmac now (k + length ds) ds' pc1 = Some (pc2, evs')"
  shows "receive_datagrams aes hmac now k (ds @ ds') pc = Some (pc2, evs @ evs')"
  using assms
proof (induction ds arbitrary: k pc evs)
  case (Cons d ds)
  then show ?case by (fastforce split: bind_splits)
qed simp

text \<open>The units with the timestamps of their ticks.\<close>

fun stamped :: "u32 \<Rightarrow> u32 \<Rightarrow> bytes list \<Rightarrow> (bytes \<times> u32) list" where
  "stamped timestamp inc [] = []"
| "stamped timestamp inc (u # us) = (u, timestamp) # stamped (timestamp + inc) inc us"

lemma map_fst_stamped: "map fst (stamped timestamp inc us) = us"
  by (induction us arbitrary: timestamp) simp_all

text \<open>One tick without audio: the current unit is sent, as the one frame the other side reports.\<close>

lemma demo_tick_transfer:
  assumes lib: "\<forall>k b. length (aes k b) = 16" "\<forall>k m. length (hmac k m) = 20" "\<forall>a bs. 0 \<le> sendto a bs" "\<forall>i. alloc_ok i"
    and tx: "pc_speaks pc keys addr h t" "pc_state pc = TINYRTC_PC_STATE_CONNECTED" "0 \<le> tk_payload_type t" "tk_payload_type t < 128"
    and rx: "pc_hears rx keys (tk_payload_type t) i r" "track_idle (pc_remote_tracks rx ! i)" "tk_codec_id r = tk_codec_id t"
    and g: "g_video_track g = Some h" "sn_audio_file sender = None" "sn_frame_count sender < 2 ^ 31 - 1"
    and units: "ds_units (sn_stream sender) = us" "ds_current_index (sn_stream sender) = j" "j < length us"
    and frame: "media_frame (tk_codec_id t) (us ! j)"
  obtains g' sender' pc' ds rx' where
    "demo_media_sender_tick aes hmac sendto alloc_ok g sender pc = Some (g', sender', pc', map (Udp_Send addr) ds)"
    "receive_datagrams aes hmac now k ds rx = Some (rx', [media_event r (us ! j) (sn_video_timestamp sender)])"
    "pc_speaks pc' keys addr h t" "pc_state pc' = TINYRTC_PC_STATE_CONNECTED"
    "pc_hears rx' keys (tk_payload_type t) i r" "track_idle (pc_remote_tracks rx' ! i)"
    "g_video_track g' = Some h" "sn_audio_file sender' = None" "sn_frame_count sender' = sn_frame_count sender + 1"
    "sn_video_timestamp sender' = sn_video_timestamp sender + sn_video_inc sender" "sn_video_inc sender' = sn_video_inc sender"
    "ds_units (sn_stream sender') = us" "j + 1 < length us \<longrightarrow> ds_current_index (sn_stream sender') = j + 1"
proof -
  define params where "params = \<lparr>cp_codec_id = tk_codec_id t, cp_payload_type = tk_payload_type t,
    cp_mtu = TINYRTC_SEND_MTU - TINYRTC_SRTP_AUTH_TAG_RESERVED\<rparr>"
  define calls where "calls = snd (tinyrtc_packetize_frame alloc_ok (Some (us ! j)) (Some params) True)"
  obtain pc' q where sent: "track_send_frame aes hmac sendto alloc_ok (Some h) (Inr (us ! j)) (sn_video_timestamp sender) pc =
      Some (TINYRTC_OK, pc', map (Udp_Send addr)
        (media_datagrams aes hmac keys (tk_payload_type t) (sn_video_timestamp sender) q calls))"
    "pc_speaks pc' keys addr h t" "pc_state pc' = pc_state pc"
    using track_send_frame_datagrams(1) [OF lib(1,2,3) tx(1) calls_def [unfolded params_def, symmetric],
      of "sn_video_timestamp sender"] by blast
  obtain rx' where rx': "receive_datagrams aes hmac now k
      (media_datagrams aes hmac keys (tk_payload_type t) (sn_video_timestamp sender) q calls) rx =
        Some (rx', [media_event r (us ! j) (sn_video_timestamp sender)])"
    "pc_hears rx' keys (tk_payload_type t) i r" "track_idle (pc_remote_tracks rx' ! i)"
    using receive_media_frame [OF lib(1,2) tx(3,4) rx(1) track_idle_collected [OF rx(2)] _ lib(4) _ _ calls_def [symmetric],
        where timestamp = "sn_video_timestamp sender" and now = now and k = k and q = q]
      frame rx(2,3) send_mtu by (auto simp: params_def)
  define sender' where "sender' = sender\<lparr>sn_video_timestamp := sn_video_timestamp sender + sn_video_inc sender,
    sn_frame_count := sn_frame_count sender + 1,
    sn_stream := (sn_stream sender)\<lparr>ds_current_index := if j + 1 \<ge> length us then 0 else j + 1\<rparr>\<rparr>"
  define g' where "g' = (if g_max_video_frames g > 0 \<and> sn_frame_count sender + 1 \<ge> g_max_video_frames g
    then g\<lparr>g_should_exit := True\<rparr> else g)"
  let ?evs = "map (Udp_Send addr) (media_datagrams aes hmac keys (tk_payload_type t) (sn_video_timestamp sender) q calls)"
  have "us \<noteq> []" using units(3) by auto
  then have "demo_tick_video aes hmac sendto alloc_ok g sender pc = Some (True, g', sender', pc', ?evs)"
    using units sent(1) g by (simp add: demo_tick_video_def Let_def tinyrtc_track_send_video_frame_def g'_def sender'_def)
  moreover have "demo_tick_audio aes hmac sendto alloc_ok g' sender' pc' = Some (sender', pc', [])"
    using g(2) by (simp add: demo_tick_audio_def sender'_def)
  ultimately have "demo_media_sender_tick aes hmac sendto alloc_ok g sender pc = Some (g', sender', pc', ?evs)"
    "g_video_track g' = Some h"
    using tx(2) g(1) by (simp_all add: demo_media_sender_tick_def tinyrtc_peer_connection_get_state_def g'_def)
  from that [OF this(1) rx'(1) sent(2) _ rx'(2,3) this(2)] sent(3) tx(2) g(2) units show thesis
    by (simp add: sender'_def)
qed

lemma demo_ticks_transfer:
  assumes lib: "\<forall>k b. length (aes k b) = 16" "\<forall>k m. length (hmac k m) = 20" "\<forall>a bs. 0 \<le> sendto a bs" "\<forall>i. alloc_ok i"
    and pt: "0 \<le> tk_payload_type t" "tk_payload_type t < 128" and codec: "tk_codec_id r = tk_codec_id t"
  shows "pc_speaks pc keys addr h t \<Longrightarrow> pc_state pc = TINYRTC_PC_STATE_CONNECTED \<Longrightarrow>
    pc_hears rx keys (tk_payload_type t) i r \<Longrightarrow> track_idle (pc_remote_tracks rx ! i) \<Longrightarrow>
    g_video_track g = Some h \<Longrightarrow> sn_audio_file sender = None \<Longrightarrow>
    sn_frame_count sender + int (length vs) < 2 ^ 31 \<Longrightarrow> ds_units (sn_stream sender) = us @ vs \<Longrightarrow>
    (vs \<noteq> [] \<Longrightarrow> ds_current_index (sn_stream sender) = length us) \<Longrightarrow>
    \<forall>u \<in> set vs. media_frame (tk_codec_id t) u \<Longrightarrow>
    \<exists>g' sender' pc' ds rx'.
      demo_ticks aes hmac sendto alloc_ok (length vs) g sender pc = Some (g', sender', pc', map (Udp_Send addr) ds) \<and>
      receive_datagrams aes hmac now k ds rx =
        Some (rx', map (\<lambda>(u, ts). media_event r u ts) (stamped (sn_video_timestamp sender) (sn_video_inc sender) vs))"
proof (induction vs arbitrary: us g sender pc rx k)
  case Nil
  show ?case by (intro exI [of _ "[]"] exI) simp
next
  case (Cons u vs)
  have units: "ds_current_index (sn_stream sender) = length us" "length us < length (us @ u # vs)"
    "media_frame (tk_codec_id t) ((us @ u # vs) ! length us)" "sn_frame_count sender < 2 ^ 31 - 1"
    using Cons.prems(7,9,10) by simp_all
  obtain g' sender' pc' ds rx' where one:
    "demo_media_sender_tick aes hmac sendto alloc_ok g sender pc = Some (g', sender', pc', map (Udp_Send addr) ds)"
    "receive_datagrams aes hmac now k ds rx = Some (rx', [media_event r ((us @ u # vs) ! length us) (sn_video_timestamp sender)])"
    "pc_speaks pc' keys addr h t" "pc_state pc' = TINYRTC_PC_STATE_CONNECTED"
    "pc_hears rx' keys (tk_payload_type t) i r" "track_idle (pc_remote_tracks rx' ! i)"
    "g_video_track g' = Some h" "sn_audio_file sender' = None" "sn_frame_count sender' = sn_frame_count sender + 1"
    "sn_video_timestamp sender' = sn_video_timestamp sender + sn_video_inc sender" "sn_video_inc sender' = sn_video_inc sender"
    "ds_units (sn_stream sender') = us @ u # vs" "length us + 1 < length (us @ u # vs) \<longrightarrow> ds_current_index (sn_stream sender') = length us + 1"
    by (rule demo_tick_transfer [OF lib Cons.prems(1,2) pt Cons.prems(3,4) codec Cons.prems(5,6) units(4) Cons.prems(8) units(1-3), where now = now and k = k])
  have "sn_frame_count sender' + int (length vs) < 2 ^ 31" "ds_units (sn_stream sender') = (us @ [u]) @ vs"
    "vs \<noteq> [] \<Longrightarrow> ds_current_index (sn_stream sender') = length (us @ [u])" "\<forall>u \<in> set vs. media_frame (tk_codec_id t) u"
    using one(9,12,13) Cons.prems(7,10) by (auto simp: neq_Nil_conv)
  from Cons.IH [OF one(3-8) this, of "k + length ds"] obtain g2 sender2 pc2 ds2 rx2 where
    "demo_ticks aes hmac sendto alloc_ok (length vs) g' sender' pc' = Some (g2, sender2, pc2, map (Udp_Send addr) ds2)"
    "receive_datagrams aes hmac now (k + length ds) ds2 rx' =
      Some (rx2, map (\<lambda>(u, ts). media_event r u ts) (stamped (sn_video_timestamp sender') (sn_video_inc sender') vs))"
    by blast
  with one(1,2,10,11) receive_datagrams_append [OF one(2) this(2)] show ?case
    by (intro exI [of _ g2] exI [of _ sender2] exI [of _ pc2] exI [of _ "ds @ ds2"] exI [of _ rx2]) simp
qed

section \<open>Loaded units\<close>

lemma demo_group_nonempty: "u \<in> set (demo_group current ns) \<Longrightarrow> u \<noteq> []"
  by (induction current ns rule: demo_group.induct) (auto split: if_splits)

lemma concat_map_h264_stream_of: "concat (map h264_stream_of uss) = h264_stream_of (concat uss)"
  by (induction uss) simp_all

lemma demo_unit_media_frame:
  assumes "\<forall>n \<in> set ns. h264_nalu_ok n"
    and "\<forall>u \<in> set (demo_group [] ns). \<forall>n \<in> set (butlast u). length n \<le> MEDIA_PAYLOAD"
    and "u \<in> set (demo_group [] ns)"
  shows "media_frame TINYRTC_CODEC_H264 (h264_stream_of u)"
proof -
  have "set u \<subseteq> set (concat (demo_group [] ns))" using assms(3) by auto
  then have "\<forall>n \<in> set u. h264_nalu_ok n" using assms(1) by (auto simp: concat_demo_group)
  moreover have "\<forall>n \<in> set (butlast u). length n \<le> MEDIA_PAYLOAD" using assms(2,3) by blast
  moreover note demo_group_nonempty [OF assms(3)]
  ultimately show ?thesis by (auto simp: media_frame_def)
qed

section \<open>The output file\<close>

lemma demo_receiver_writes:
  assumes "tk_kind r \<noteq> TINYRTC_TRACK_KIND_AUDIO"
  shows "rv_video_file d = Some written \<Longrightarrow> rv_video_frame_count d + int (length fs) < 2 ^ 31 \<Longrightarrow>
    \<exists>d'. demo_receiver_events writable track_at (map (\<lambda>(u, ts). media_event r u ts) fs) d = Some d' \<and>
      rv_video_file d' = Some (written @ concat (map fst fs)) \<and>
      rv_video_frame_count d' = rv_video_frame_count d + int (length fs)"
proof (induction fs arbitrary: d written)
  case (Cons f fs)
  obtain u ts where f: "f = (u, ts)" by (cases f)
  obtain d1 where d1: "demo_on_video_frame True u d = Some d1" "rv_video_file d1 = Some (written @ u)"
    "rv_video_frame_count d1 = rv_video_frame_count d + 1"
    using Cons.prems by (simp add: demo_on_video_frame_def Let_def demo_append_def)
  from Cons.IH [OF d1(2)] Cons.prems(2) d1 assms show ?case
    by (auto simp: f demo_receiver_event_def media_event_def)
qed simp

text \<open>C4: the receiving demo writes the file the sending demo read.  The sender loads an H.264 file of NAL
  units behind four-byte start codes, which its loop groups into units, and sends one unit per
  tick over its secure connection; the receiver, whose connection has the keys of the same handshake,
  decrypts and reassembles the datagrams and appends every frame it is told of to its output
  file.  After as many ticks as there are units the output file has the bytes of the input
  file.  Only the last NAL unit of a unit may need more than one packet, there is no audio
  file and the network delivers the datagrams in order.  Ticks and events are followed whatever the
  exit flags of the two programs say: a limit of frames below the number of units ends their main loops
  earlier (\<open>demo_ticks_exit\<close> for the sender), no limit or a larger one does not.\<close>
theorem demo_file_transfer:
  assumes rt: "runtime_ok rt"
    and input: "fs path = Some (h264_stream_of ns)" "ns \<noteq> []" "\<forall>n \<in> set ns. h264_nalu_ok n" "demo_memory_ok mem"
      "\<forall>u \<in> set (demo_group [] ns). \<forall>n \<in> set (butlast u). length n \<le> MEDIA_PAYLOAD" "length (demo_group [] ns) < 2 ^ 31"
    and keys: "pc_initialize_srtp_after_dtls (rt_sha256 rt) k1 s1 r1 a = Some (TINYRTC_OK, tx)"
      "pc_initialize_srtp_after_dtls (rt_sha256 rt) k2 s2 r2 b = Some (TINYRTC_OK, rx)"
      "map_option dt_master_secret (pc_dtls a) = map_option dt_master_secret (pc_dtls b)"
      "pcc_is_initiator (pc_config a) \<noteq> pcc_is_initiator (pc_config b)"
    and send: "pc_sends_to tx addr" "pc_state tx = TINYRTC_PC_STATE_CONNECTED" "\<forall>to bs. 0 \<le> sendto to bs" "\<forall>i. alloc_ok i"
    and track: "g_video_track g = Some h" "pc_find_track h tx = Some t" "tk_is_local t" "tk_codec_id t = TINYRTC_CODEC_H264"
      "0 \<le> tk_payload_type t" "tk_payload_type t < 128"
    and remote: "track_index (tk_payload_type t) (pc_remote_tracks rx) = Some i" "pc_remote_tracks rx ! i = r"
      "tk_codec_id r = TINYRTC_CODEC_H264" "tk_kind r = TINYRTC_TRACK_KIND_VIDEO" "track_receives r" "track_idle r"
      "media_callbacks (pc_config rx)"
  shows "\<exists>stream g' sender tx' datagrams rx' evs d.
    demo_h264_stream_load fs True True mem (Some path) (Some st0) = (0, Some stream) \<and>
    demo_ticks (rt_aes rt) (rt_srtp_hmac rt) sendto alloc_ok (length (ds_units stream)) g
      ((demo_media_sender_init None codec)\<lparr>sn_stream := stream\<rparr>) tx = Some (g', sender, tx', map (Udp_Send addr) datagrams) \<and>
    receive_datagrams (rt_aes rt) (rt_srtp_hmac rt) now 0 datagrams rx = Some (rx', evs) \<and>
    demo_receiver_events writable track_at evs (demo_receiver_init limit True) = Some d \<and>
    rv_video_file d = fs path"
proof -
  define units where "units = map h264_stream_of (demo_group [] ns)"
  define stream where "stream = \<lparr>ds_units = units, ds_current_index = 0\<rparr>"
  define sender where "sender = (demo_media_sender_init None codec)\<lparr>sn_stream := stream\<rparr>"
  have load: "demo_h264_stream_load fs True True mem (Some path) (Some st0) = (0, Some stream)"
    unfolding stream_def units_def by (rule demo_h264_stream_load_units [where fs = fs and path = path, OF input(1-4)])
  have frames: "\<forall>u \<in> set units. media_frame (tk_codec_id t) u"
    using demo_unit_media_frame [OF input(3,5)] by (simp add: units_def track(4))
  have bytes: "concat units = h264_stream_of ns"
    using concat_demo_group [of "[]" ns] by (metis append_Nil concat_map_h264_stream_of units_def)
  obtain s_tx s_rx where s: "pc_srtp tx = Some s_tx" "pc_srtp_rx rx = Some s_rx" "same_keys s_rx s_tx"
    by (rule initialize_srtp_same_keys [OF keys])
  have speaks: "pc_speaks tx s_tx addr h t" using send(1) s(1) track(2,3) by (simp add: pc_speaks_def same_track_def)
  have hears: "pc_hears rx s_tx (tk_payload_type t) i r" "track_idle (pc_remote_tracks rx ! i)" "tk_codec_id r = tk_codec_id t"
    using s(2,3) remote track(4) by (simp_all add: pc_hears_def same_track_def)
  have sn: "sn_audio_file sender = None" "sn_frame_count sender + int (length units) < 2 ^ 31"
    "ds_units (sn_stream sender) = [] @ units" "ds_current_index (sn_stream sender) = length []"
    using input(6) by (simp_all add: sender_def demo_media_sender_init_def stream_def units_def)
  obtain g' sender' tx' ds rx' where ticks:
    "demo_ticks (rt_aes rt) (rt_srtp_hmac rt) sendto alloc_ok (length units) g sender tx = Some (g', sender', tx', map (Udp_Send addr) ds)"
    "receive_datagrams (rt_aes rt) (rt_srtp_hmac rt) now 0 ds rx =
      Some (rx', map (\<lambda>(u, ts). media_event r u ts) (stamped (sn_video_timestamp sender) (sn_video_inc sender) units))"
    using demo_ticks_transfer [OF runtime_okD(3,4) [OF rt] send(3,4) track(5,6) hears(3) speaks send(2) hears(1,2) track(1) sn(1-3) sn(4) frames,
        where now = now and k = 0] by blast
  let ?fs = "stamped (sn_video_timestamp sender) (sn_video_inc sender) units"
  have l: "length ?fs = length units" using arg_cong [OF map_fst_stamped, of length] by simp
  obtain d where "demo_receiver_events writable track_at (map (\<lambda>(u, ts). media_event r u ts) ?fs) (demo_receiver_init limit True) = Some d"
    "rv_video_file d = Some ([] @ concat (map fst ?fs))"
    using demo_receiver_writes [of r "demo_receiver_init limit True" "[]" ?fs writable track_at] remote(4) input(6) l
    by (auto simp: demo_receiver_init_def units_def)
  moreover have "ds_units stream = units" by (simp add: stream_def)
  ultimately show ?thesis
    using load ticks bytes input(1) unfolding sender_def map_fst_stamped by fastforce
qed

theorem demo_file_transfer_witness:
  "\<exists>tx rx addr stream g' sender tx' datagrams rx' evs d.
    demo_h264_stream_load [''test.264'' \<mapsto> h264_stream_of [[0x67, 1, 2], [0x68, 3], [0x65, 1, 2, 3]]] True True
      \<lparr>dm_units = \<lambda>_. True, dm_unit = \<lambda>_. True, dm_grow = \<lambda>_. True\<rparr> (Some ''test.264'') (Some demo_stream_zero) = (0, Some stream) \<and>
    demo_ticks (rt_aes runtime_example) (rt_srtp_hmac runtime_example) (\<lambda>_ _. 0) (\<lambda>_. True) (length (ds_units stream))
      \<lparr>g_video_track = Some 1, g_audio_track = None, g_max_video_frames = 3, g_should_exit = False, g_peer_joined = True,
       g_offer_sent = True, g_audio_frame_count = 0, g_video_frame_count = 0\<rparr>
      ((demo_media_sender_init None TINYRTC_CODEC_G722)\<lparr>sn_stream := stream\<rparr>) (tx :: bool peer_connection) =
        Some (g', sender, tx', map (Udp_Send addr) datagrams) \<and>
    receive_datagrams (rt_aes runtime_example) (rt_srtp_hmac runtime_example) (\<lambda>_. 0) 0 datagrams (rx :: bool peer_connection) =
      Some (rx', evs) \<and>
    demo_receiver_events (\<lambda>_. True) track_zero evs (demo_receiver_init 0 True) = Some d \<and>
    rv_video_file d = Some (h264_stream_of [[0x67, 1, 2], [0x68, 3], [0x65, 1, 2, 3]])"
proof -
  let ?ns = "[[0x67, 1, 2], [0x68, 3], [0x65, 1, 2, 3]] :: bytes list"
  let ?fs = "[''test.264'' \<mapsto> h264_stream_of ?ns]"
  let ?mem = "\<lparr>dm_units = \<lambda>_. True, dm_unit = \<lambda>_. True, dm_grow = \<lambda>_. True\<rparr>"
  let ?g = "\<lparr>g_video_track = Some 1, g_audio_track = None, g_max_video_frames = 3, g_should_exit = False, g_peer_joined = True,
       g_offer_sent = True, g_audio_frame_count = 0, g_video_frame_count = 0\<rparr>"
  obtain tx rx ip where e:
    "pc_initialize_srtp_after_dtls (rt_sha256 runtime_example) True True True (media_peer_example True) = Some (TINYRTC_OK, tx)"
    "pc_initialize_srtp_after_dtls (rt_sha256 runtime_example) True True True (media_peer_example False) = Some (TINYRTC_OK, rx)"
    "map_option dt_master_secret (pc_dtls (media_peer_example True)) = map_option dt_master_secret (pc_dtls (media_peer_example False))"
    "pcc_is_initiator (pc_config (media_peer_example True)) \<noteq> pcc_is_initiator (pc_config (media_peer_example False))"
    "pc_sends_to tx (ip, 6001)" "pc_state tx = TINYRTC_PC_STATE_CONNECTED" "pc_find_track 1 tx = Some media_local_example"
    "track_index 96 (pc_remote_tracks rx) = Some 0" "pc_remote_tracks rx ! 0 = media_remote_example"
    "media_callbacks (pc_config rx)" by (rule media_example)
  have group: "demo_group [] ?ns = [[[0x67, 1, 2]], [[0x68, 3]], [[0x65, 1, 2, 3]]]"
    by (simp add: demo_begins_unit_def demo_h264_starts_new_au_def demo_h264_is_vcl_def)
  have input: "?fs ''test.264'' = Some (h264_stream_of ?ns)" by simp
  have "\<exists>stream g' sender tx' datagrams rx' evs d.
    demo_h264_stream_load ?fs True True ?mem (Some ''test.264'') (Some demo_stream_zero) = (0, Some stream) \<and>
    demo_ticks (rt_aes runtime_example) (rt_srtp_hmac runtime_example) (\<lambda>_ _. 0) (\<lambda>_. True) (length (ds_units stream)) ?g
      ((demo_media_sender_init None TINYRTC_CODEC_G722)\<lparr>sn_stream := stream\<rparr>) tx =
        Some (g', sender, tx', map (Udp_Send (ip, 6001)) datagrams) \<and>
    receive_datagrams (rt_aes runtime_example) (rt_srtp_hmac runtime_example) (\<lambda>_. 0) 0 datagrams rx = Some (rx', evs) \<and>
    demo_receiver_events (\<lambda>_. True) track_zero evs (demo_receiver_init 0 True) = Some d \<and>
    rv_video_file d = ?fs ''test.264''"
    by (rule demo_file_transfer [where ns = ?ns and fs = ?fs and path = "''test.264''" and mem = ?mem and i = 0 and g = ?g
          and r = media_remote_example and h = 1, OF runtime_example_ok input _ _ _ _ _ e(1-6) _ _ _ e(7)])
      (simp_all add: group h264_example_nalus demo_memory_ok_def media_example_tracks MEDIA_PAYLOAD_def e)
  then show ?thesis unfolding input by blast
qed

end
