(* ===== verification/Spec2Isabelle.thy ===== *)
theory Spec2Isabelle
  imports Rtcp Congestion Ice_Exchange Sdp_Roundtrip Sig_Messages Offer_Answer Demo_Transfer
begin

text \<open>
  TinyRTC: a verification development.

  \<^bold>\<open>The program.\<close>  TinyRTC is a WebRTC library in C.  An application creates a context
  (\<^verbatim>\<open>src/tinyrtc.c\<close>) and connections in it (\<^verbatim>\<open>src/peer_connection.c\<close>), adds tracks, and exchanges offer and answer
  with the other side as SDP texts (\<^verbatim>\<open>src/signal/\<close>), usually through a signaling client that speaks JSON over
  WebSocket (\<^verbatim>\<open>src/signaling/signaling.c\<close>).  A description starts the gathering of ICE candidates
  (\<^verbatim>\<open>src/ice/ice.c\<close>, with the STUN messages of \<^verbatim>\<open>src/ice/stun.c\<close>).  The event loop \<^verbatim>\<open>tinyrtc_process_events\<close> reads
  datagrams, gives STUN messages to ICE, DTLS records to the handshake (\<^verbatim>\<open>src/media/dtls.c\<close>) and everything else
  to the media path, runs connectivity checks, and derives the SRTP keys when the handshake is over.  A frame that is sent
  is packetised (\<^verbatim>\<open>src/media/rtp.c\<close>), each packet is encrypted (\<^verbatim>\<open>src/media/srtp.c\<close>) and sent to the selected
  candidate; a received packet is decrypted, put into the jitter buffer, depacketised, and reported
  when it completes a frame.  Congestion control (\<^verbatim>\<open>src/cc/congestion_control.c\<close>) is a component of its own
  that the media path does not call.  Two demo programs (\<^verbatim>\<open>src/demo/\<close>) send and store an H.264 file.
  Paths are below the repository's root; \<^verbatim>\<open>include/\<close> stands for \<^verbatim>\<open>src/include/\<close>.

  \<^bold>\<open>Conventions.\<close>  A C structure is a record, an enumeration a datatype, \<^verbatim>\<open>uintN_t\<close> an \<open>N\<close>-bit word, \<^verbatim>\<open>int\<close> an
  integer, \<^verbatim>\<open>size_t\<close> a natural number with the wrap written out where the code can reach it.  A buffer with its length is
  a byte list, a C string the character list before its NUL.  An operation takes its structure and
  returns the new one; callbacks and datagrams are lists of events in their order.  Results of type
  \<open>'a option\<close> use \<open>None\<close> for what C leaves undefined (accesses outside an object, uninitialised values, signed
  overflow) and for calls that do not return, unless a definition says otherwise; so a theorem that a result is \<open>Some\<close> is
  one of memory safety and termination.  Errors are the codes of \<^verbatim>\<open>tinyrtc_error_t\<close>.  Allocations,
  clocks, sockets, random numbers and the results of libraries are arguments.

  \<^bold>\<open>Theories and sources.\<close>
  \<^item> \<^verbatim>\<open>TinyRTC_Prelude\<close>: words, checked reads and writes in network byte order, error codes, fact collections.
    \<^verbatim>\<open>Interfaces\<close>: the locales.  \<^verbatim>\<open>C_String\<close>: \<^verbatim>\<open>strncpy\<close>, \<^verbatim>\<open>atoi\<close>, \<^verbatim>\<open>strtol\<close>, number printing and the like.  \<^verbatim>\<open>Float64\<close>:
    IEEE double arithmetic.
  \<^item> \<^verbatim>\<open>Media_Codec\<close> (\<^verbatim>\<open>media_codec.c\<close>); \<^verbatim>\<open>Rtp\<close>, \<^verbatim>\<open>Rtcp\<close>, \<^verbatim>\<open>Jitter_Buffer\<close>, \<^verbatim>\<open>Packetize\<close> (\<^verbatim>\<open>media/rtp.c\<close>, in the order of the file);
    \<^verbatim>\<open>Srtp\<close> (\<^verbatim>\<open>media/srtp.c\<close>); \<^verbatim>\<open>Dtls\<close> (\<^verbatim>\<open>media/dtls.c\<close>); \<^verbatim>\<open>Congestion\<close> (\<^verbatim>\<open>cc/congestion_control.c\<close>).
  \<^item> \<^verbatim>\<open>Stun\<close> (\<^verbatim>\<open>ice/stun.c\<close>), \<^verbatim>\<open>Ice\<close> (\<^verbatim>\<open>ice/ice.c\<close>), \<^verbatim>\<open>Ice_Exchange\<close> (two sessions that check each other).
  \<^item> \<^verbatim>\<open>Sdp\<close> (\<^verbatim>\<open>sdp_internal.h\<close> and the session operations of \<^verbatim>\<open>signal/sdp_parser.c\<close>), \<^verbatim>\<open>Sdp_Parser\<close>, \<^verbatim>\<open>Sdp_Generator\<close>,
    \<^verbatim>\<open>Sdp_Roundtrip\<close> (parser and generator together).
  \<^item> \<^verbatim>\<open>Base64\<close>, \<^verbatim>\<open>Sig_Json\<close>, \<^verbatim>\<open>Signaling\<close> (URL and handshake), \<^verbatim>\<open>Ws_Frame\<close>, \<^verbatim>\<open>Sig_Client\<close> (the public operations): all
    \<^verbatim>\<open>signaling/signaling.c\<close>; \<^verbatim>\<open>Sig_Messages\<close> (the channel from end to end).
  \<^item> \<^verbatim>\<open>Track\<close>, \<^verbatim>\<open>Peer_Connection\<close>, \<^verbatim>\<open>Media_Path\<close> (\<^verbatim>\<open>peer_connection.c\<close>), \<^verbatim>\<open>Library_Context\<close> (\<^verbatim>\<open>tinyrtc.c\<close> and the
    functions of \<^verbatim>\<open>peer_connection.c\<close> that the event loop calls); \<^verbatim>\<open>Peer_Safety\<close>, \<^verbatim>\<open>Media_Safety\<close>, \<^verbatim>\<open>Peer_Session\<close> (the
    invariant of a connection and its preservation by every call), \<^verbatim>\<open>Offer_Answer\<close> and
    \<^verbatim>\<open>Media_Roundtrip\<close> (two connections).
  \<^item> \<^verbatim>\<open>Demo_Stream\<close> (\<^verbatim>\<open>demo/common.c\<close>), \<^verbatim>\<open>Demo_Sender\<close>, \<^verbatim>\<open>Demo_Receiver\<close> (the programs of the same names),
    \<^verbatim>\<open>Demo_Safety\<close> (their callbacks and ticks stay defined), \<^verbatim>\<open>Demo_Transfer\<close> (both programs around two connections).

  \<^bold>\<open>Interfaces.\<close>  The locale \<open>wire_field\<close> is a field of fixed width that reads back what was written; it is interpreted
  on the 16-bit and 32-bit big-endian fields and carries the round trips of the wire formats.  \<open>bounded_store\<close> is an
  array that is filled by appending until it is full; it is interpreted on the media and the candidates of a session
  description and on the check pairs of ICE.  \<open>safe_machine\<close> is a partial step function with an invariant: admissible
  steps are defined and keep the invariant, hence so do sequences of them.  It is interpreted on congestion
  control, the jitter buffer, the ICE session, the signaling client, the peer connection and the signaling events of
  the two demos.

  \<^bold>\<open>What is shown.\<close>
  \<^item> From end to end: a frame sent over a secure connection is reported on the other side, once and byte for byte
    (\<^verbatim>\<open>Media_Roundtrip\<close>); the file the sending demo reads is the file the receiving demo writes
    (\<^verbatim>\<open>Demo_Transfer\<close>); after an offer and its answer both sides know each other's credentials, candidates
    and media (\<^verbatim>\<open>Offer_Answer\<close>); an answered connectivity check connects both sides (\<^verbatim>\<open>Ice_Exchange\<close>); messages of the signaling
    channel arrive whole, once and in order, however they are fragmented (\<^verbatim>\<open>Sig_Messages\<close>).
  \<^item> Safety: no sequence of admissible calls on a connection, an ICE session, a signaling client, a
    jitter buffer, a rate controller or a DTLS context is undefined in C.  What is admissible is what the code relies on
    without checking; the definitions \<open>pc_admissible\<close>, \<open>ice_input_ok\<close> and \<open>description_env_ok\<close> list it (for a
    connection: no NULL \<^verbatim>\<open>mid\<close> or candidate string, descriptions that end in a line end, STUN datagrams as long as
    they say).  For the jitter buffer every call is admissible but adding to a buffer created with \<^verbatim>\<open>buffer_size\<close> 0.
  \<^item> Round trips of every format (RTP, RTCP, STUN, SDP, JSON, WebSocket, FU-A, SRTP), functional
    descriptions of the algorithms (pacing, rate control, playout in sequence order, checks), equivalence of the base64 encoder
    with a reference, and bounds on what is written.
  \<^item> Where the code falls short of its purpose the theorem states what it does: SRTP reuses its
    keystream, checks of one millisecond share a transaction id, a fragmented unit completes its frame early, STUN lengths are
    not compared with the datagram, printed media directions are not read back.

  \<^bold>\<open>Bounds and fuel.\<close>  There is no fuel.  Loops are structural recursion or \<open>function\<close> with a measure (the rest
  of a buffer or text); the polling loop of signaling is a \<open>partial_function (option)\<close> that is proved to return after one
  frame, and waiting for an HTTP response that never ends is \<open>None\<close>.  Array sizes are those of the
  headers: 2 media, 32 candidates, 1024 check pairs, buffers of 1500, 2048, 4096 and 8192 bytes.

  \<^bold>\<open>Not modelled.\<close>  Vendored mbedtls and aosl: the block cipher, HMAC, SHA-1, SHA-256, the TLS state machine, sockets
  and clocks are arguments of the definitions, with their documented sizes as hypotheses (\<open>runtime_ok\<close>,
  \<open>tls_library_ok\<close>).  Locks: the model is one thread, as the event loop is.  Log output.  The zeroing of freed
  keys.  \<^verbatim>\<open>network.h\<close>: no source file defines or calls its functions.  Of the demos, the outermost loops that
  test the exit flags and call the modelled steps in turn with sleeps, and their clean-up.  The unit tests.
\<close>

end
